(* ===== verification/Py_Base.thy ===== *)
theory Py_Base
  imports Main "HOL-Library.AList"
begin

text \<open>
  The prelude of the development: the shapes of Python that every component shares.

  \<^item> A raised exception is the left side of a sum, \<open>'e + 'a\<close>; \<open>res_bind\<close>, \<open>res_map\<close> and
    \<open>res_fold\<close> are the sequencing of statements, a comprehension whose body may raise, and a
    \<open>for\<close> loop whose body may raise.
  \<^item> A \<open>dict\<close> is an association list: Python keeps insertion order, an assignment to a present
    key keeps the key's position, and an assignment to a new key appends.
    The interface clients rely on is the locale \<open>py_dict\<close>, interpreted on association lists
    at the end of this theory.
\<close>

named_theorems res_simps \<open>rewriting of the exception monad\<close>
named_theorems dict_simps \<open>rewriting of Python dictionaries\<close>

subsection \<open>Exceptions as sums\<close>

definition res_bind :: "'e + 'a \<Rightarrow> ('a \<Rightarrow> 'e + 'b) \<Rightarrow> 'e + 'b" where
  "res_bind m f = (case m of Inl e \<Rightarrow> Inl e | Inr x \<Rightarrow> f x)"

lemma res_bind_Inl [simp, res_simps]: "res_bind (Inl e) f = Inl e"
  by (simp add: res_bind_def)

lemma res_bind_Inr [simp, res_simps]: "res_bind (Inr x) f = f x"
  by (simp add: res_bind_def)

lemma res_bind_eq_Inr [res_simps]:
  "res_bind m f = Inr y \<longleftrightarrow> (\<exists>x. m = Inr x \<and> f x = Inr y)"
  by (cases m) auto

lemma res_bind_eq_Inl [res_simps]:
  "res_bind m f = Inl e \<longleftrightarrow> m = Inl e \<or> (\<exists>x. m = Inr x \<and> f x = Inl e)"
  by (cases m) auto

lemma res_bindE: "res_bind m f = Inr y \<Longrightarrow> (\<And>x. m = Inr x \<Longrightarrow> f x = Inr y \<Longrightarrow> P) \<Longrightarrow> P"
  by (auto simp: res_bind_eq_Inr)

lemma res_bind_assoc: "res_bind (res_bind m f) g = res_bind m (\<lambda>x. res_bind (f x) g)"
  by (cases m) auto

lemma res_bind_cong [fundef_cong]:
  "m = m' \<Longrightarrow> (\<And>x. m' = Inr x \<Longrightarrow> f x = g x) \<Longrightarrow> res_bind m f = res_bind m' g"
  by (cases m') auto

fun res_map :: "('a \<Rightarrow> 'e + 'b) \<Rightarrow> 'a list \<Rightarrow> 'e + 'b list" where
  "res_map f [] = Inr []"
| "res_map f (x # xs) = res_bind (f x) (\<lambda>y. res_bind (res_map f xs) (\<lambda>ys. Inr (y # ys)))"

lemma res_map_cong [fundef_cong]:
  "xs = ys \<Longrightarrow> (\<And>x. x \<in> set ys \<Longrightarrow> f x = g x) \<Longrightarrow> res_map f xs = res_map g ys"
  by (induction ys arbitrary: xs) auto

lemma res_map_eq_Inr:
  "res_map f xs = Inr ys \<longleftrightarrow> list_all2 (\<lambda>x y. f x = Inr y) xs ys"
proof (induction xs arbitrary: ys)
  case Nil
  then show ?case by auto
next
  case (Cons x xs)
  show ?case by (auto simp: res_bind_eq_Inr Cons.IH list_all2_Cons1)
qed

lemma res_map_InrD: "res_map f xs = Inr ys \<Longrightarrow> y \<in> set ys \<Longrightarrow> \<exists>x\<in>set xs. f x = Inr y"
  by (induction xs arbitrary: ys) (auto simp: res_bind_eq_Inr)

lemma res_map_Inr [simp]: "res_map (\<lambda>x. Inr (f x)) xs = Inr (map f xs)"
  by (induction xs) auto

lemma res_map_Inr_on: "(\<And>x. x \<in> set xs \<Longrightarrow> f x = Inr (g x)) \<Longrightarrow> res_map f xs = Inr (map g xs)"
  by (induction xs) auto

lemma res_map_eq_Inl:
  "res_map f xs = Inl e \<Longrightarrow> \<exists>x\<in>set xs. f x = Inl e"
  by (induction xs) (auto simp: res_bind_eq_Inl)

fun res_fold :: "('s \<Rightarrow> 'a \<Rightarrow> 'e + 's) \<Rightarrow> 's \<Rightarrow> 'a list \<Rightarrow> 'e + 's" where
  "res_fold f s [] = Inr s"
| "res_fold f s (x # xs) = res_bind (f s x) (\<lambda>s'. res_fold f s' xs)"

lemma res_fold_append:
  "res_fold f s (xs @ ys) = res_bind (res_fold f s xs) (\<lambda>s'. res_fold f s' ys)"
  by (induction xs arbitrary: s) (auto simp: res_bind_assoc)

lemma res_fold_invariant:
  assumes "\<And>s x s'. P s \<Longrightarrow> x \<in> set xs \<Longrightarrow> f s x = Inr s' \<Longrightarrow> P s'" "P s" "res_fold f s xs = Inr t"
  shows "P t"
  using assms
proof (induction xs arbitrary: s)
  case Nil
  then show ?case by simp
next
  case (Cons x xs)
  from Cons.prems(3) obtain s' where s': "f s x = Inr s'" "res_fold f s' xs = Inr t"
    by (auto simp: res_bind_eq_Inr)
  from Cons.prems(1,2) s'(1) have "P s'" by (meson list.set_intros(1))
  with Cons.IH [of s'] Cons.prems(1) s'(2) show ?case
    by (meson list.set_intros(2))
qed

text \<open>An exception of a callee, as an exception of the caller.\<close>

definition res_err :: "('e \<Rightarrow> 'f) \<Rightarrow> 'e + 'a \<Rightarrow> 'f + 'a" where
  "res_err f m = (case m of Inl e \<Rightarrow> Inl (f e) | Inr x \<Rightarrow> Inr x)"

lemma res_err_simps [simp, res_simps]:
  "res_err f (Inl e) = Inl (f e)" "res_err f (Inr x) = Inr x"
  "res_err f m = Inr y \<longleftrightarrow> m = Inr y"
  by (simp_all add: res_err_def split: sum.split)

definition res_of_option :: "'e \<Rightarrow> 'a option \<Rightarrow> 'e + 'a" where
  "res_of_option e x = (case x of None \<Rightarrow> Inl e | Some v \<Rightarrow> Inr v)"

lemma res_of_option_simps [simp, res_simps]:
  "res_of_option e None = Inl e" "res_of_option e (Some v) = Inr v"
  "res_of_option e x = Inr v \<longleftrightarrow> x = Some v"
  "res_of_option e x = Inl e' \<longleftrightarrow> x = None \<and> e' = e"
  by (auto simp: res_of_option_def split: option.splits)

subsection \<open>Dictionaries\<close>

type_synonym ('k, 'v) dict = "('k \<times> 'v) list"

abbreviation dget :: "('k, 'v) dict \<Rightarrow> 'k \<Rightarrow> 'v option" where
  "dget \<equiv> map_of"

abbreviation dset :: "'k \<Rightarrow> 'v \<Rightarrow> ('k, 'v) dict \<Rightarrow> ('k, 'v) dict" where
  "dset \<equiv> AList.update"

abbreviation dkeys :: "('k, 'v) dict \<Rightarrow> 'k list" where
  "dkeys d \<equiv> map fst d"

text \<open>\<open>{**a, **b}\<close> and \<open>a.update(b)\<close>: the entries of \<open>b\<close> are assigned one after another.\<close>

definition dmerge :: "('k, 'v) dict \<Rightarrow> ('k, 'v) dict \<Rightarrow> ('k, 'v) dict" where
  "dmerge a b = fold (\<lambda>(k, v). dset k v) b a"

lemma dget_dset [simp, dict_simps]: "dget (dset k v d) = (dget d)(k := Some v)"
  by (rule update_conv')

lemma dkeys_dset:
  "dkeys (dset k v d) = (if k \<in> set (dkeys d) then dkeys d else dkeys d @ [k])"
  by (induction d) auto

lemma dget_dmerge: "dget (dmerge a b) k = (case dget (rev b) k of None \<Rightarrow> dget a k | Some v \<Rightarrow> Some v)"
proof (induction b arbitrary: a)
  case Nil
  then show ?case by (simp add: dmerge_def)
next
  case (Cons p b)
  obtain k' v' where p: "p = (k', v')" by (cases p)
  have "dmerge a (p # b) = dmerge (dset k' v' a) b" by (simp add: dmerge_def p)
  with Cons.IH [of "dset k' v' a"] show ?case
    by (auto simp: p map_add_def split: option.splits)
qed

lemma map_of_eqI_distinct:
  "distinct (map fst xs) \<Longrightarrow> set xs = set ys \<Longrightarrow> distinct (map fst ys) \<Longrightarrow> map_of xs k = map_of ys k"
  by (metis map_of_eq_None_iff map_of_eq_Some_iff option.exhaust set_map)

lemma dget_dmerge_distinct:
  "distinct (dkeys b) \<Longrightarrow>
   dget (dmerge a b) k = (case dget b k of None \<Rightarrow> dget a k | Some v \<Rightarrow> Some v)"
proof -
  assume "distinct (dkeys b)"
  then have "dget (rev b) = dget b"
    by (intro ext map_of_eqI_distinct) (simp_all add: rev_map [symmetric])
  then show ?thesis by (simp add: dget_dmerge)
qed

text \<open>
  What clients use of a dictionary: assignment, lookup and the order of the keys. The facts
  proved once in the locale are about the two loops the scripts write over and over: a loop
  that updates one entry per item, \<open>d[key(x)] = upd(d.get(key(x)), x)\<close>.
\<close>

locale py_dict =
  fixes get :: "'d \<Rightarrow> 'k \<Rightarrow> 'v option"
    and put :: "'k \<Rightarrow> 'v \<Rightarrow> 'd \<Rightarrow> 'd"
    and keys :: "'d \<Rightarrow> 'k list"
  assumes get_put: "get (put k v d) = (get d)(k := Some v)"
    and keys_put: "keys (put k v d) = (if k \<in> set (keys d) then keys d else keys d @ [k])"
    and keys_get: "set (keys d) = {k. get d k \<noteq> None}"
begin

lemma get_group:
  "get (fold (\<lambda>x d. put (key x) (upd (get d (key x)) x) d) xs d) k =
   fold (\<lambda>x o'. Some (upd o' x)) (filter (\<lambda>x. key x = k) xs) (get d k)"
proof (induction xs arbitrary: d)
  case Nil
  then show ?case by simp
next
  case (Cons x xs)
  then show ?case by (simp add: get_put)
qed

lemma set_keys_group:
  "set (keys (fold (\<lambda>x d. put (key x) (upd (get d (key x)) x) d) xs d)) =
   set (keys d) \<union> key ` set xs"
proof (induction xs arbitrary: d)
  case Nil
  then show ?case by simp
next
  case (Cons x xs)
  then show ?case by (auto simp: keys_put)
qed

lemma distinct_keys_group:
  "distinct (keys d) \<Longrightarrow>
   distinct (keys (fold (\<lambda>x d. put (key x) (upd (get d (key x)) x) d) xs d))"
  by (induction xs arbitrary: d) (auto simp: keys_put)

lemma get_puts_absent:
  "k \<notin> key ` set xs \<Longrightarrow> get (fold (\<lambda>x. put (key x) (val x)) xs d) k = get d k"
  by (induction xs arbitrary: d) (auto simp: get_put)

lemma get_puts_inj:
  "inj_on key (set xs) \<Longrightarrow> x \<in> set xs \<Longrightarrow>
   get (fold (\<lambda>x. put (key x) (val x)) xs d) (key x) = Some (val x)"
proof (induction xs arbitrary: d)
  case Nil
  then show ?case by simp
next
  case (Cons y xs)
  show ?case
  proof (cases "x \<in> set xs")
    case True
    with Cons show ?thesis by (simp add: inj_on_def)
  next
    case False
    with Cons.prems have "x = y" "key x \<notin> key ` set xs"
      by (auto simp: inj_on_def)
    then show ?thesis by (simp add: get_puts_absent get_put)
  qed
qed

end

lemma set_dkeys_dget: "set (dkeys d) = {k. dget d k \<noteq> None}"
  by (auto simp: map_of_eq_None_iff)

interpretation pd: py_dict dget dset dkeys
  by unfold_locales (simp, rule dkeys_dset, rule set_dkeys_dget)

subsection \<open>Lists\<close>

text \<open>\<open>str.join\<close> is \<open>intercalate\<close>.\<close>

fun py_join :: "'a list \<Rightarrow> 'a list list \<Rightarrow> 'a list" where
  "py_join sep [] = []"
| "py_join sep [w] = w"
| "py_join sep (w # v # ws) = w @ sep @ py_join sep (v # ws)"

lemma py_join_Cons: "py_join sep (w # ws) = w @ (if ws = [] then [] else sep @ py_join sep ws)"
  by (cases ws) auto

lemma py_join_append:
  "xs \<noteq> [] \<Longrightarrow> ys \<noteq> [] \<Longrightarrow> py_join sep (xs @ ys) = py_join sep xs @ sep @ py_join sep ys"
  by (induction sep xs rule: py_join.induct) (auto simp: py_join_Cons)

lemma set_py_join: "set (py_join sep ws) \<subseteq> set sep \<union> \<Union> (set ` set ws)"
  by (induction sep ws rule: py_join.induct) auto

text \<open>\<open>xs.index\<close>-free search: the first element with a property, as \<open>next(filter(...))\<close>.\<close>

fun find_first :: "('a \<Rightarrow> bool) \<Rightarrow> 'a list \<Rightarrow> 'a option" where
  "find_first p [] = None"
| "find_first p (x # xs) = (if p x then Some x else find_first p xs)"

lemma find_first_Some: "find_first p xs = Some x \<Longrightarrow> x \<in> set xs \<and> p x"
  by (induction xs) (auto split: if_splits)

lemma find_first_None: "find_first p xs = None \<longleftrightarrow> (\<forall>x\<in>set xs. \<not> p x)"
  by (induction xs) auto

lemma find_first_unique:
  "x \<in> set xs \<Longrightarrow> p x \<Longrightarrow> (\<And>y. y \<in> set xs \<Longrightarrow> p y \<Longrightarrow> y = x) \<Longrightarrow> find_first p xs = Some x"
  by (metis find_first_None find_first_Some option.exhaust)

end
