(* ===== verification/Conductor_Process.thy ===== *)
theory Conductor_Process
  imports Complex_Main Py_Base
begin

text \<open>
  The processes of \<open>dv/formal/conductor.py\<close>: classes \<open>ProcessFuture\<close>, \<open>ProcessResult\<close> and
  \<open>Process\<close>.

  A \<open>proc\<close> is a \<open>Process\<close> object, told apart from the others by \<open>ident\<close>; \<open>os\<close> is what has
  become of the operating system process behind \<open>self.proc\<close> (\<open>NoProc\<close> before \<open>start\<close>). What
  a poll reads of the world (resident memory, clock, exit code, output) is an \<open>obs\<close>. Memory
  (in GB) and time (in seconds) are exact rationals where the code has floats. Logging is
  left out. The outputs are observed as decoded strings and the memory as a number: an output
  that is not UTF-8 and an error of \<open>psutil\<close>, which raise in the code, are no observations here,
  and \<open>poll_error\<close> has the two errors \<open>poll\<close> raises itself.
\<close>

subsection \<open>Results and futures\<close>

type_synonym reason = string

abbreviation OK :: reason where
  "OK \<equiv> ''OK''"

abbreviation TIMEOUT :: reason where
  "TIMEOUT \<equiv> ''TIMEOUT''"

abbreviation UNINTERESTED :: reason where
  "UNINTERESTED \<equiv> ''UNINTERESTED''"

record process_result =
  r_code :: "int option"
  r_reason :: reason
  r_max_mem :: rat
  r_dt :: rat
  r_stdout :: "string option"
  r_stderr :: "string option"

datatype fut = Pending | Cancelled | Done process_result

datatype kill_flag = Kill | Restart

datatype os_state = NoProc | Spawned | KillSent | Reaped

record obs =
  o_rss :: rat
  o_now :: rat
  o_exit :: "int option"
  o_stdout :: string
  o_stderr :: string

record proc =
  ident :: nat
  cmd :: string
  expected_memory :: rat
  expected_time :: rat
  timeout :: "rat option"
  kill_req :: "kill_flag option"
  has_debug_slow :: bool
  debug_slow_count :: int
  slow_calls :: nat
  os :: os_state
  future :: fut
  max_memory :: rat
  start_time :: rat

definition new_process ::
    "nat \<Rightarrow> string \<Rightarrow> rat \<Rightarrow> rat \<Rightarrow> rat option \<Rightarrow> bool \<Rightarrow> proc" where
  "new_process i c exp_mem exp_time tmo slow =
     \<lparr>ident = i, cmd = c, expected_memory = exp_mem, expected_time = exp_time, timeout = tmo,
      kill_req = None, has_debug_slow = slow, debug_slow_count = 0, slow_calls = 0, os = NoProc,
      future = Pending, max_memory = 0, start_time = 0\<rparr>"

subsection \<open>Operations\<close>

definition start :: "rat \<Rightarrow> proc \<Rightarrow> proc" where
  "start now p = p\<lparr>os := Spawned, start_time := now, max_memory := 0, debug_slow_count := 0\<rparr>"

definition kill :: "proc \<Rightarrow> proc" where
  "kill p = p\<lparr>kill_req := Some Kill\<rparr>"

definition kill_restart :: "proc \<Rightarrow> proc" where
  "kill_restart p = p\<lparr>kill_req := Some Restart\<rparr>"

text \<open>\<open>ProcessFuture.cancel\<close>: kills the process, then cancels the future unless it is done.\<close>

definition cancel :: "proc \<Rightarrow> proc" where
  "cancel p = (let q = kill p in
     case future q of Pending \<Rightarrow> q\<lparr>future := Cancelled\<rparr> | _ \<Rightarrow> q)"

datatype poll_error = NotStarted | InvalidStateError

text \<open>\<open>if not self.future.cancelled(): self.future.set_result(...)\<close>\<close>

definition resolve :: "process_result \<Rightarrow> proc \<Rightarrow> poll_error + proc" where
  "resolve r p = (case future p of
      Cancelled \<Rightarrow> Inr p
    | Pending \<Rightarrow> Inr (p\<lparr>future := Done r\<rparr>)
    | Done _ \<Rightarrow> Inl InvalidStateError)"

definition from_proc :: "obs \<Rightarrow> int option \<Rightarrow> reason \<Rightarrow> rat \<Rightarrow> rat \<Rightarrow> process_result" where
  "from_proc ob code why mem dt =
     \<lparr>r_code = code, r_reason = why, r_max_mem = mem, r_dt = dt,
      r_stdout = Some (o_stdout ob), r_stderr = Some (o_stderr ob)\<rparr>"

text \<open>\<open>self.timeout is not None and dt > self.timeout\<close>\<close>

definition timed_out :: "rat option \<Rightarrow> rat \<Rightarrow> bool" where
  "timed_out tmo dt = (case tmo of None \<Rightarrow> False | Some t \<Rightarrow> t < dt)"

text \<open>\<open>Process.poll\<close>: is the process over, and its new state.\<close>

definition poll :: "obs \<Rightarrow> proc \<Rightarrow> poll_error + bool \<times> proc" where
  "poll ob p0 =
     (if os p0 = NoProc then Inl NotStarted
      else
        let p = p0\<lparr>max_memory := max (o_rss ob) (max_memory p0)\<rparr>;
            dt = o_now ob - start_time p;
            code = o_exit ob;
            over = (\<lambda>c why q. res_bind (resolve (from_proc ob c why (max_memory p) dt) q)
                                (\<lambda>q'. Inr (True, q')))
        in if code \<noteq> None \<and> kill_req p = None then over code OK (p\<lparr>os := Reaped\<rparr>)
           else if kill_req p = Some Restart then
             Inr (True, p\<lparr>os := KillSent, kill_req := None,
                          expected_memory := max (expected_memory p) (max_memory p),
                          expected_time := max (expected_time p) dt\<rparr>)
           else if timed_out (timeout p) dt then
             over None TIMEOUT (p\<lparr>os := KillSent\<rparr>)
           else if kill_req p = Some Kill then over None UNINTERESTED (p\<lparr>os := KillSent\<rparr>)
           else
             (let n = \<lfloor>dt / 60\<rfloor>
              in Inr (False,
                   if debug_slow_count p < n
                   then p\<lparr>slow_calls := (if has_debug_slow p then Suc (slow_calls p) else slow_calls p),
                          debug_slow_count := n\<rparr>
                   else p)))"

subsection \<open>The contract of a process\<close>

text \<open>
  A process that waits to be started has not resolved its future; one that runs has, on top,
  been spawned. These are the states the runner may hold a process in.
\<close>

definition unresolved :: "proc \<Rightarrow> bool" where
  "unresolved p \<longleftrightarrow> (case future p of Done _ \<Rightarrow> False | _ \<Rightarrow> True)"

definition live :: "proc \<Rightarrow> bool" where
  "live p \<longleftrightarrow> unresolved p \<and> os p = Spawned"

text \<open>Once a poll says a process is over, nothing of it still runs unwatched.\<close>

definition over :: "proc \<Rightarrow> bool" where
  "over p \<longleftrightarrow> os p = KillSent \<or> os p = Reaped"

lemma resolve_unresolved:
  "unresolved p \<Longrightarrow> \<exists>f. resolve r p = Inr (p\<lparr>future := f\<rparr>) \<and> (f = Cancelled \<longleftrightarrow> future p = Cancelled) \<and>
     (future p = Pending \<longleftrightarrow> f = Done r)"
  by (cases "future p") (auto simp: resolve_def unresolved_def)

lemma start_props [simp]:
  "ident (start t p) = ident p" "future (start t p) = future p" "os (start t p) = Spawned"
  "kill_req (start t p) = kill_req p"
  by (simp_all add: start_def)

lemma kill_restart_props [simp]:
  "ident (kill_restart p) = ident p" "future (kill_restart p) = future p"
  "os (kill_restart p) = os p" "max_memory (kill_restart p) = max_memory p"
  "kill_req (kill_restart p) = Some Restart"
  by (simp_all add: kill_restart_def)

lemma cancel_props [simp]:
  "ident (cancel p) = ident p" "os (cancel p) = os p" "kill_req (cancel p) = Some Kill"
  "unresolved (cancel p) = unresolved p"
  by (auto simp: cancel_def kill_def Let_def unresolved_def split: fut.split)

lemma poll_live:
  assumes "live p"
  shows "\<exists>b p'. poll ob p = Inr (b, p') \<and> ident p' = ident p \<and>
           (if b then over p' else live p')"
proof -
  from assms have "os p = Spawned" and f: "future p = Pending \<or> future p = Cancelled"
    by (cases "future p"; simp add: live_def unresolved_def)+
  from f show ?thesis
    by (elim disjE; auto simp: poll_def resolve_def Let_def live_def over_def unresolved_def
        \<open>os p = Spawned\<close>)
qed

lemma poll_restart:
  assumes "live p"
  shows "\<exists>p'. poll ob (kill_restart p) = Inr (True, p') \<and> ident p' = ident p \<and>
           unresolved p' \<and> over p' \<and> kill_req p' = None \<and> future p' = future p"
  using assms by (simp add: poll_def Let_def live_def over_def unresolved_def)

text \<open>The poll of a live process, by what is asked of it.\<close>

definition finish :: "obs \<Rightarrow> proc \<Rightarrow> int option \<Rightarrow> reason \<Rightarrow> fut" where
  "finish ob p c why = (if future p = Cancelled then Cancelled
     else Done (from_proc ob c why (max (o_rss ob) (max_memory p)) (o_now ob - start_time p)))"

definition late :: "obs \<Rightarrow> proc \<Rightarrow> bool" where
  "late ob p = timed_out (timeout p) (o_now ob - start_time p)"

lemma live_cases:
  assumes "live p"
  obtains "os p = Spawned" "future p = Pending" | "os p = Spawned" "future p = Cancelled"
  using assms by (cases "future p") (auto simp: live_def unresolved_def)

lemma resolve_live:
  assumes "live p"
  shows "resolve (from_proc ob c why (max (o_rss ob) (max_memory p)) (o_now ob - start_time p))
    (p\<lparr>max_memory := m, os := s\<rparr>) = Inr (p\<lparr>max_memory := m, os := s, future := finish ob p c why\<rparr>)"
  using assms by (rule live_cases) (simp_all add: resolve_def finish_def)

lemma poll_restarted:
  assumes "live p" "kill_req p = Some Restart"
  shows "poll ob p = Inr (b, p') \<Longrightarrow> b \<and> future p' = future p"
  using assms by (auto simp: poll_def Let_def live_def)

lemma poll_killed:
  assumes "live p" "kill_req p = Some Kill"
  shows "poll ob p = Inr (True, p\<lparr>max_memory := max (o_rss ob) (max_memory p), os := KillSent,
           future := finish ob p None (if late ob p then TIMEOUT else UNINTERESTED)\<rparr>)"
  using assms resolve_live [OF assms(1)] by (simp add: poll_def Let_def live_def late_def)

lemma poll_unkilled:
  assumes "live p" "kill_req p = None" "poll ob p = Inr (b, p')"
  shows "b = (o_exit ob \<noteq> None \<or> late ob p) \<and>
    future p' = (if o_exit ob \<noteq> None then finish ob p (o_exit ob) OK
                 else if late ob p then finish ob p None TIMEOUT else future p)"
  using assms(2,3) resolve_live [OF assms(1)] assms(1)
  by (cases "o_exit ob"; cases "late ob p")
    (simp_all add: poll_def Let_def live_def late_def [symmetric] split: if_splits, auto)

subsection \<open>Properties\<close>

text \<open>C16: Which way a poll of a live process ends: it is over exactly when the process has
  exited on its own and no kill is asked, or a kill or restart is asked, or its time is up;
  and the reason its future gets, unless it was cancelled, is \<open>OK\<close> with the exit code in the
  first case, else \<open>TIMEOUT\<close> before \<open>UNINTERESTED\<close>, while a restart leaves the future open.\<close>

theorem poll_outcome:
  assumes "live p" "poll ob p = Inr (b, p')"
  shows "b = (o_exit ob \<noteq> None \<or> kill_req p \<noteq> None \<or> late ob p) \<and>
    future p' =
      (if \<not> b \<or> kill_req p = Some Restart \<or> future p = Cancelled then future p
       else Done (from_proc ob (if kill_req p = None then o_exit ob else None)
              (if o_exit ob \<noteq> None \<and> kill_req p = None then OK else if late ob p then TIMEOUT else UNINTERESTED)
              (max (o_rss ob) (max_memory p)) (o_now ob - start_time p)))"
proof -
  consider "kill_req p = Some Restart" | "kill_req p = None" | "kill_req p = Some Kill"
    by (cases "kill_req p") (auto intro: kill_flag.exhaust)
  then show ?thesis
  proof cases
    case 1 then show ?thesis using poll_restarted [OF assms(1) 1 assms(2)] by simp
  next
    case 2 then show ?thesis using poll_unkilled [OF assms(1) 2 assms(2)]
      by (auto simp: finish_def)
  next
    case 3 then show ?thesis using assms(2) by (auto simp: poll_killed [OF assms(1) 3] finish_def)
  qed
qed

theorem poll_outcome_witness:
  fixes p :: proc and ob :: obs
  defines "p \<equiv> start 0 (new_process 0 ''rIC3'' 1 0 (Some 600) False)"
    and "ob \<equiv> \<lparr>o_rss = 2, o_now = 700, o_exit = None, o_stdout = [], o_stderr = []\<rparr>"
  shows "\<exists>p'. poll ob p = Inr (True, p') \<and> future p' = Done (from_proc ob None TIMEOUT 2 700)"
proof -
  have "live p" by (simp add: p_def new_process_def live_def unresolved_def start_def)
  moreover obtain p' where p': "poll ob p = Inr (True, p')"
    by (simp add: p_def ob_def poll_def new_process_def start_def resolve_def timed_out_def Let_def)
  ultimately have "future p' = Done (from_proc ob None TIMEOUT 2 700)"
    using poll_outcome [of p ob True p'] by (simp add: p_def ob_def new_process_def start_def late_def timed_out_def)
  with p' show ?thesis by blast
qed

text \<open>C17: A process that was cancelled and is then chosen for a restart forgets the
  cancellation: after the poll nothing asks for it to be killed any more, so that it is
  started again although nobody waits for it.\<close>

theorem restart_forgets_cancel:
  assumes "live p"
  shows "\<exists>p'. poll ob (kill_restart (cancel p)) = Inr (True, p') \<and> future p' = Cancelled \<and>
           kill_req (start t p') = None \<and> live (start t p')"
  using assms
  by (cases "future p")
    (simp_all add: poll_def Let_def live_def unresolved_def cancel_def kill_def kill_restart_def)

theorem restart_forgets_cancel_witness:
  "\<exists>p'. poll \<lparr>o_rss = 2, o_now = 7, o_exit = None, o_stdout = [], o_stderr = []\<rparr>
      (kill_restart (cancel (start 0 (new_process 0 ''rIC3'' 1 0 None False)))) = Inr (True, p') \<and>
     future p' = Cancelled \<and> kill_req (start 9 p') = None \<and> live (start 9 p')"
  by (rule restart_forgets_cancel)
    (simp add: new_process_def live_def unresolved_def start_def)

end
