(* ===== verification/Conductor_Sched.thy ===== *)
theory Conductor_Sched
  imports Conductor_Process "HOL-Library.Multiset"
begin

text \<open>
  The scheduler of \<open>dv/formal/conductor.py\<close>: class \<open>ProcessRunner\<close>. Both lists are kept in the
  order of the code: \<open>append\<close> puts a process at the front of \<open>pending\<close>, and the loops pop from
  the end. The three loops of \<open>ProcessRunner.poll\<close> take what they do to a process as
  arguments, so that the locale \<open>managed\<close>, which states what the runner relies on, can be
  interpreted on the processes of \<open>Conductor_Process\<close>. \<open>finished\<close> is no attribute of the
  code: it records the processes the runner has dropped, so that none can be lost unseen.
\<close>

subsection \<open>The loops of \<open>poll\<close>\<close>

definition GLOBAL_MEMORY_BUFFER :: rat where
  "GLOBAL_MEMORY_BUFFER = 5"

definition reserve :: "rat \<Rightarrow> rat" where
  "reserve m = max m 3"

text \<open>Kill recently started processes until memory is OK; \<open>preempt\<close> is the call of
  \<open>kill_restart\<close> and the \<open>poll\<close> after it, \<open>mem\<close> the attribute \<open>max_memory\<close>.\<close>

function kill_excess ::
    "('p \<Rightarrow> rat) \<Rightarrow> ('p \<Rightarrow> 'e + 'p) \<Rightarrow> bool \<Rightarrow> rat \<Rightarrow> 'p list \<Rightarrow> 'p list \<Rightarrow> 'e + rat \<times> 'p list \<times> 'p list" where
  "kill_excess mem preempt no_kill free running pending =
     (if \<not> no_kill \<and> free < GLOBAL_MEMORY_BUFFER \<and> 1 < length running then
        res_bind (preempt (last running)) (\<lambda>p.
          kill_excess mem preempt no_kill (free + reserve (mem (last running)))
            (butlast running) (pending @ [p]))
      else Inr (free, running, pending))"
  by auto
termination by (relation "measure (\<lambda>(_, _, _, _, running, _). length running)") auto

text \<open>Start pending processes while there is a slot and memory for the next one; \<open>need\<close> is the
  attribute \<open>expected_memory\<close>. The sums are exact: with the floats of the code the last process that
  is started may exceed what is free by a rounding error.\<close>

function start_pending ::
    "('p \<Rightarrow> rat) \<Rightarrow> ('p \<Rightarrow> 'p) \<Rightarrow> int \<Rightarrow> rat \<Rightarrow> 'p list \<Rightarrow> 'p list \<Rightarrow> rat \<times> 'p list \<times> 'p list" where
  "start_pending need launch max_running free running pending =
     (if int (length running) < max_running \<and> pending \<noteq> [] \<and>
         need (last pending) + GLOBAL_MEMORY_BUFFER < free then
        (let p = launch (last pending)
         in start_pending need launch max_running (free - reserve (need p)) (running @ [p])
              (butlast pending))
      else (free, running, pending))"
  by auto
termination by (relation "measure (\<lambda>(_, _, _, _, _, pending). length pending)") auto

text \<open>Drop the processes that finished: \<open>i\<close> is the index \<open>p\<close> of the loop.\<close>

function drop_finished ::
    "('p \<Rightarrow> 'e + bool \<times> 'p) \<Rightarrow> nat \<Rightarrow> 'p list \<Rightarrow> 'p list \<Rightarrow> 'e + 'p list \<times> 'p list" where
  "drop_finished check i running finished =
     (if i < length running then
        res_bind (check (running ! i)) (\<lambda>(b, p).
          if b then drop_finished check i (take i running @ drop (Suc i) running) (finished @ [p])
          else drop_finished check (Suc i) (running[i := p]) finished)
      else Inr (running, finished))"
  by auto
termination by (relation "measure (\<lambda>(_, i, running, _). length running - i)") auto

declare kill_excess.simps [simp del] start_pending.simps [simp del] drop_finished.simps [simp del]

subsection \<open>The runner\<close>

record settings =
  no_kill :: bool
  max_mem :: rat
  cpu_count :: "nat option"

text \<open>\<open>MAX_RUNNING = (psutil.cpu_count() or 8) - 2\<close>\<close>

definition MAX_RUNNING :: "settings \<Rightarrow> int" where
  "MAX_RUNNING s = (case cpu_count s of None \<Rightarrow> 8 | Some n \<Rightarrow> if n = 0 then 8 else int n) - 2"

record runner =
  pending :: "proc list"
  running :: "proc list"
  first_start :: rat
  debug_count :: int
  finished :: "proc list"

text \<open>What one poll of the runner sees of the world: the free memory, the clock, and, by
  process, what polling it shows when it is killed for memory and when it is checked.\<close>

record world =
  w_free :: rat
  w_now :: rat
  w_kill :: "nat \<Rightarrow> obs"
  w_check :: "nat \<Rightarrow> obs"

definition new_runner :: "rat \<Rightarrow> runner" where
  "new_runner now = \<lparr>pending = [], running = [], first_start = now, debug_count = 0, finished = []\<rparr>"

definition append_proc :: "proc \<Rightarrow> runner \<Rightarrow> runner" where
  "append_proc p r = r\<lparr>pending := p # pending r\<rparr>"

definition children_used_mem :: "runner \<Rightarrow> rat" where
  "children_used_mem r = sum_list (map max_memory (running r))"

definition mem_avail :: "settings \<Rightarrow> world \<Rightarrow> runner \<Rightarrow> rat" where
  "mem_avail s w r =
     (if max_mem s = 0 then w_free w
      else min (w_free w) (max (max_mem s - children_used_mem r) 0))"

text \<open>\<open>last.kill_restart()\<close> and \<open>last.poll()\<close>, whose result is not looked at.\<close>

definition preempt_proc :: "world \<Rightarrow> proc \<Rightarrow> poll_error + proc" where
  "preempt_proc w p = res_bind (poll (w_kill w (ident p)) (kill_restart p)) (\<lambda>(_, q). Inr q)"

definition check_proc :: "world \<Rightarrow> proc \<Rightarrow> poll_error + bool \<times> proc" where
  "check_proc w p = poll (w_check w (ident p)) p"

definition runner_poll :: "settings \<Rightarrow> world \<Rightarrow> runner \<Rightarrow> poll_error + runner" where
  "runner_poll s w r =
     res_bind (kill_excess max_memory (preempt_proc w) (no_kill s) (mem_avail s w r)
                 (running r) (pending r)) (\<lambda>(free, run, pend).
       let (_, run', pend') =
             start_pending expected_memory (start (w_now w)) (MAX_RUNNING s) free run pend;
           first = (if length pend' < length pend \<and> first_start r = 0 then w_now w else first_start r)
       in res_bind (drop_finished (check_proc w) 0 run' []) (\<lambda>(run'', fin).
            let n = \<lfloor>(w_now w - first) / 30\<rfloor>
            in Inr (r\<lparr>running := run'', pending := pend', first_start := first,
                      debug_count := (if debug_count r < n then n else debug_count r),
                      finished := finished r @ fin\<rparr>)))"

text \<open>Whoever awaits a process may cancel its future at any time between two polls, wherever the
  process is.\<close>

definition cancel_in :: "nat \<Rightarrow> proc list \<Rightarrow> proc list" where
  "cancel_in i ps = map (\<lambda>p. if ident p = i then cancel p else p) ps"

definition cancel_proc :: "nat \<Rightarrow> runner \<Rightarrow> runner" where
  "cancel_proc i r = r\<lparr>pending := cancel_in i (pending r), running := cancel_in i (running r),
                       finished := cancel_in i (finished r)\<rparr>"

text \<open>\<open>shell\<close> wraps a command into a process of its own and appends it. The other events of the
  event loop that touch the runner are a cancellation and a poll.\<close>

definition runner_ids :: "runner \<Rightarrow> nat multiset" where
  "runner_ids r = mset (map ident (pending r @ running r @ finished r))"

definition shell ::
    "nat \<Rightarrow> string \<Rightarrow> rat \<Rightarrow> rat option \<Rightarrow> bool \<Rightarrow> runner \<Rightarrow> runner" where
  "shell i c mem tmo slow r = append_proc (new_process i c mem 0 tmo slow) r"

inductive event :: "settings \<Rightarrow> runner \<Rightarrow> runner \<Rightarrow> bool" for s where
  shell: "i \<notin># runner_ids r \<Longrightarrow> event s r (shell i c mem tmo slow r)"
| cancel: "event s r (cancel_proc i r)"
| poll: "runner_poll s w r = Inr r' \<Longrightarrow> event s r r'"

inductive reachable :: "settings \<Rightarrow> runner \<Rightarrow> bool" for s where
  init: "reachable s (new_runner now)"
| step: "reachable s r \<Longrightarrow> event s r r' \<Longrightarrow> reachable s r'"

inductive_cases eventE: "event s r r'"

subsection \<open>Reading the loops\<close>

text \<open>The index loop of the last step is one pass over the list.\<close>

fun sweep :: "('p \<Rightarrow> 'e + bool \<times> 'p) \<Rightarrow> 'p list \<Rightarrow> 'e + 'p list \<times> 'p list" where
  "sweep check [] = Inr ([], [])"
| "sweep check (p # ps) = res_bind (check p) (\<lambda>(b, q).
     res_bind (sweep check ps) (\<lambda>(stay, gone).
       Inr (if b then (stay, q # gone) else (q # stay, gone))))"

lemma drop_finished_from:
  "drop_finished check (length pre) (pre @ ps) gone =
     res_bind (sweep check ps) (\<lambda>(stay, more). Inr (pre @ stay, gone @ more))"
proof (induction ps arbitrary: pre gone)
  case Nil
  then show ?case by (simp add: drop_finished.simps)
next
  case (Cons p ps)
  show ?case
  proof (cases "check p")
    case (Inl e)
    then show ?thesis by (simp add: drop_finished.simps)
  next
    case (Inr bq)
    obtain b q where bq: "bq = (b, q)" by force
    have "drop_finished check (length pre) (pre @ p # ps) gone =
        (if b then drop_finished check (length pre) (pre @ ps) (gone @ [q])
         else drop_finished check (length (pre @ [q])) ((pre @ [q]) @ ps) gone)"
      by (subst drop_finished.simps) (simp add: Inr bq)
    then show ?thesis
      by (simp only: Cons.IH) (cases "sweep check ps", auto simp: Inr bq)
  qed
qed

lemma kill_excess_stop [simp]:
  "kill_excess mem preempt nk free [] pend = Inr (free, [], pend)"
  "kill_excess mem preempt nk free [p] pend = Inr (free, [p], pend)"
  by (simp_all add: kill_excess.simps)

lemma kill_excess_snoc:
  "kill_excess mem preempt nk free (ps @ [p]) pend =
     (if \<not> nk \<and> free < GLOBAL_MEMORY_BUFFER \<and> ps \<noteq> [] then
        res_bind (preempt p) (\<lambda>q. kill_excess mem preempt nk (free + reserve (mem p)) ps (pend @ [q]))
      else Inr (free, ps @ [p], pend))"
  by (subst kill_excess.simps) auto

lemma start_pending_Nil [simp]:
  "start_pending need launch mx free run [] = (free, run, [])"
  by (simp add: start_pending.simps)

lemma start_pending_snoc:
  "start_pending need launch mx free run (ps @ [p]) =
     (if int (length run) < mx \<and> need p + GLOBAL_MEMORY_BUFFER < free then
        start_pending need launch mx (free - reserve (need (launch p))) (run @ [launch p]) ps
      else (free, run, ps @ [p]))"
  by (subst start_pending.simps) (simp add: Let_def)

lemma start_pending_takes:
  assumes "\<And>p. need (launch p) = need p"
  shows "\<exists>free' rest taken. start_pending need launch mx free run pend = (free', run @ map launch (rev taken), rest) \<and>
    pend = rest @ taken \<and>
    int (length run + length taken) \<le> max (int (length run)) mx \<and>
    free' = free - sum_list (map (\<lambda>p. reserve (need p)) taken) \<and>
    (taken = [] \<or> sum_list (map need taken) + GLOBAL_MEMORY_BUFFER < free) \<and>
    (rest = [] \<or> mx \<le> int (length run + length taken) \<or> free' \<le> need (last rest) + GLOBAL_MEMORY_BUFFER)"
proof (induction pend arbitrary: free run rule: rev_induct)
  case Nil
  then show ?case by (intro exI [of _ free] exI [of _ "[]"]) simp
next
  case (snoc p pend)
  show ?case
  proof (cases "int (length run) < mx \<and> need p + GLOBAL_MEMORY_BUFFER < free")
    case True
    from snoc.IH [of "free - reserve (need p)" "run @ [launch p]"] obtain free' rest taken where IH:
      "start_pending need launch mx (free - reserve (need p)) (run @ [launch p]) pend =
        (free', (run @ [launch p]) @ map launch (rev taken), rest)"
      "pend = rest @ taken"
      "int (length (run @ [launch p]) + length taken) \<le> max (int (length (run @ [launch p]))) mx"
      "free' = free - reserve (need p) - sum_list (map (\<lambda>p. reserve (need p)) taken)"
      "taken = [] \<or> sum_list (map need taken) + GLOBAL_MEMORY_BUFFER < free - reserve (need p)"
      "rest = [] \<or> mx \<le> int (length (run @ [launch p]) + length taken) \<or> free' \<le> need (last rest) + GLOBAL_MEMORY_BUFFER"
      by blast
    have "need p \<le> reserve (need p)" by (simp add: reserve_def)
    with IH(5) True have mem: "sum_list (map need (taken @ [p])) + GLOBAL_MEMORY_BUFFER < free"
      by auto
    from IH(3) True have len: "int (length run + length (taken @ [p])) \<le> max (int (length run)) mx"
      by (simp add: max_def split: if_splits)
    from IH(6) have stop: "rest = [] \<or> mx \<le> int (length run + length (taken @ [p])) \<or>
        free' \<le> need (last rest) + GLOBAL_MEMORY_BUFFER"
      by auto
    have eq: "start_pending need launch mx free run (pend @ [p]) =
        (free', run @ map launch (rev (taken @ [p])), rest)"
      using IH(1) True by (simp add: start_pending_snoc assms)
    show ?thesis
      using eq IH(2,4) mem len stop
      by - (rule exI [of _ free'], rule exI [of _ rest], rule exI [of _ "taken @ [p]"], simp)
  next
    case False
    then show ?thesis
      by - (rule exI [of _ free], rule exI [of _ "pend @ [p]"], rule exI [of _ "[]"], auto simp: start_pending_snoc)
  qed
qed

subsection \<open>What a scheduler does\<close>

text \<open>
  The abstract scheduler: a queue of waiting jobs, whose next one is the last, the running jobs
  in the order they were started, and the jobs that are done. It takes new jobs at the back of
  the queue, launches the next job while fewer than \<open>m\<close> run, preempts the job launched last,
  which becomes the next, but never the only one, and retires any running job.
\<close>

inductive sched_step :: "int \<Rightarrow> 'k list \<times> 'k list \<times> 'k multiset \<Rightarrow> 'k list \<times> 'k list \<times> 'k multiset \<Rightarrow> bool"
  for m where
  submit: "sched_step m (q, run, d) (i # q, run, d)"
| launch: "int (length run) < m \<Longrightarrow> sched_step m (q @ [i], run, d) (q, run @ [i], d)"
| preempt: "run \<noteq> [] \<Longrightarrow> sched_step m (q, run @ [i], d) (q @ [i], run, d)"
| retire: "sched_step m (q, run @ i # run', d) (q, run @ run', add_mset i d)"

lemma sched_preempts:
  "keep \<noteq> [] \<or> again = [] \<Longrightarrow> (sched_step m)\<^sup>*\<^sup>* (q, keep @ rev again, d) (q @ again, keep, d)"
proof (induction again arbitrary: q)
  case Nil
  then show ?case by simp
next
  case (Cons i again)
  then have "sched_step m (q, (keep @ rev again) @ [i], d) (q @ [i], keep @ rev again, d)"
    by (intro sched_step.preempt) simp
  with Cons show ?case
    using converse_rtranclp_into_rtranclp [of "sched_step m"] by fastforce
qed

lemma sched_launches:
  "int (length run + length taken) \<le> max (int (length run)) m \<Longrightarrow>
     (sched_step m)\<^sup>*\<^sup>* (q @ taken, run, d) (q, run @ rev taken, d)"
proof (induction taken arbitrary: run rule: rev_induct)
  case Nil
  then show ?case by simp
next
  case (snoc i taken)
  then have "sched_step m ((q @ taken) @ [i], run, d) (q @ taken, run @ [i], d)"
    by (intro sched_step.launch) (simp add: max_def split: if_splits)
  moreover from snoc.prems have "(sched_step m)\<^sup>*\<^sup>* (q @ taken, run @ [i], d) (q, (run @ [i]) @ rev taken, d)"
    by (intro snoc.IH) (simp add: max_def split: if_splits)
  ultimately show ?case
    using converse_rtranclp_into_rtranclp [of "sched_step m"] by fastforce
qed

subsection \<open>What the runner relies on\<close>

text \<open>
  A process has an identity that no operation changes. One that waits may be launched and is
  then live; checking a live one raises nothing and finds it over or still live; preempting a
  live one raises nothing and makes it wait.
\<close>

locale managed =
  fixes key :: "'p \<Rightarrow> 'k"
    and launch :: "'p \<Rightarrow> 'p"
    and check :: "'p \<Rightarrow> 'e + bool \<times> 'p"
    and preempt :: "'p \<Rightarrow> 'e + 'p"
    and waiting live over :: "'p \<Rightarrow> bool"
  assumes key_launch [simp]: "key (launch p) = key p"
    and launch_live: "waiting p \<Longrightarrow> live (launch p)"
    and check_live: "live p \<Longrightarrow> \<exists>b q. check p = Inr (b, q) \<and> key q = key p \<and> (if b then over q else live q)"
    and preempt_waits: "live p \<Longrightarrow> \<exists>q. preempt p = Inr q \<and> key q = key p \<and> waiting q"
begin

lemma sweep_live:
  assumes "list_all live ps"
  shows "\<exists>stay gone. sweep check ps = Inr (stay, gone) \<and> list_all live stay \<and> list_all over gone \<and>
    mset (map key ps) = mset (map key stay) + mset (map key gone) \<and> length stay \<le> length ps \<and>
    (\<forall>pre d. (sched_step m)\<^sup>*\<^sup>* (q, pre @ map key ps, d) (q, pre @ map key stay, d + mset (map key gone)))"
  using assms
proof (induction ps)
  case Nil
  then show ?case by simp
next
  case (Cons p ps)
  then obtain stay gone where IH: "sweep check ps = Inr (stay, gone)" "list_all live stay"
    "list_all over gone" "mset (map key ps) = mset (map key stay) + mset (map key gone)"
    "length stay \<le> length ps"
    "(sched_step m)\<^sup>*\<^sup>* (q, pre @ map key ps, d) (q, pre @ map key stay, d + mset (map key gone))" for pre d
    by auto
  from Cons.prems obtain b r where r: "check p = Inr (b, r)" "key r = key p" "if b then over r else live r"
    using check_live [of p] by auto
  define st where "st = (if b then stay else r # stay)"
  define go where "go = (if b then r # gone else gone)"
  have path: "(sched_step m)\<^sup>*\<^sup>* (q, pre @ map key (p # ps), d) (q, pre @ map key st, d + mset (map key go))"
    for pre d
  proof (cases b)
    case True
    have "sched_step m (q, pre @ key p # map key ps, d) (q, pre @ map key ps, add_mset (key p) d)"
      by (rule sched_step.retire)
    with IH(6) [of pre "add_mset (key p) d"] True r(2) show ?thesis
      using converse_rtranclp_into_rtranclp [of "sched_step m"] by (fastforce simp: st_def go_def)
  next
    case False
    with IH(6) [of "pre @ [key p]" d] r(2) show ?thesis by (simp add: st_def go_def)
  qed
  have out: "sweep check (p # ps) = Inr (st, go)"
    by (simp add: IH(1) r(1) st_def go_def)
  from IH(2-5) r(2,3) have more: "list_all live st" "list_all over go"
    "mset (map key (p # ps)) = mset (map key st) + mset (map key go)"
    "length st \<le> length (p # ps)"
    by (auto simp: st_def go_def)
  show ?case
    by (rule exI [of _ st], rule exI [of _ go], intro conjI allI)
      (rule out, rule more, rule more, rule more, rule more, rule path)
qed

lemma kill_excess_live:
  assumes "list_all live run" "list_all waiting pend"
  shows "\<exists>free' keep again. kill_excess mem preempt nk free run pend = Inr (free', keep, pend @ again) \<and>
    list_all live keep \<and> list_all waiting again \<and>
    map key run = map key keep @ rev (map key again) \<and>
    (run \<noteq> [] \<longrightarrow> keep \<noteq> []) \<and> length keep \<le> length run \<and>
    (nk \<or> GLOBAL_MEMORY_BUFFER \<le> free' \<or> length keep \<le> 1) \<and>
    (again = [] \<or> free < GLOBAL_MEMORY_BUFFER \<and> \<not> nk)"
  using assms
proof (induction run arbitrary: free pend rule: rev_induct)
  case Nil
  then show ?case by simp
next
  case (snoc p run)
  show ?case
  proof (cases "\<not> nk \<and> free < GLOBAL_MEMORY_BUFFER \<and> run \<noteq> []")
    case True
    from snoc.prems obtain q where q: "preempt p = Inr q" "key q = key p" "waiting q"
      using preempt_waits [of p] by auto
    from snoc.prems q(3) have "list_all live run" "list_all waiting (pend @ [q])" by auto
    from snoc.IH [OF this, of "free + reserve (mem p)"] obtain free' keep again where IH:
      "kill_excess mem preempt nk (free + reserve (mem p)) run ((pend @ [q])) = Inr (free', keep, (pend @ [q]) @ again)"
      "list_all live keep" "list_all waiting again" "map key run = map key keep @ rev (map key again)"
      "run \<noteq> [] \<longrightarrow> keep \<noteq> []" "length keep \<le> length run"
      "nk \<or> GLOBAL_MEMORY_BUFFER \<le> free' \<or> length keep \<le> 1"
      by auto
    with True q show ?thesis
      by - (rule exI [of _ free'], rule exI [of _ keep], rule exI [of _ "q # again"], simp add: kill_excess_snoc)
  next
    case False
    with snoc.prems show ?thesis
      by - (rule exI [of _ free], rule exI [of _ "run @ [p]"], rule exI [of _ "[]"], auto simp: kill_excess_snoc)
  qed
qed

lemma start_pending_live:
  assumes "list_all live run" "list_all waiting pend" "\<And>p. need (launch p) = need p"
  shows "\<exists>free' rest taken. start_pending need launch mx free run pend = (free', run @ map launch (rev taken), rest) \<and>
    pend = rest @ taken \<and> list_all live (map launch taken) \<and> list_all waiting rest \<and>
    int (length run + length taken) \<le> max (int (length run)) mx \<and>
    free' = free - sum_list (map (\<lambda>p. reserve (need p)) taken) \<and>
    (rest = [] \<or> mx \<le> int (length run + length taken) \<or> free' \<le> need (last rest) + GLOBAL_MEMORY_BUFFER)"
proof -
  from start_pending_takes [of need launch mx free run pend, OF assms(3)]
  obtain free' rest taken where S:
    "start_pending need launch mx free run pend = (free', run @ map launch (rev taken), rest)"
    "pend = rest @ taken" "int (length run + length taken) \<le> max (int (length run)) mx"
    "free' = free - sum_list (map (\<lambda>p. reserve (need p)) taken)"
    "rest = [] \<or> mx \<le> int (length run + length taken) \<or> free' \<le> need (last rest) + GLOBAL_MEMORY_BUFFER"
    by blast
  from assms(2) S(2) have "list_all live (map launch taken)" "list_all waiting rest"
    by (auto simp: list_all_iff launch_live)
  with S show ?thesis by blast
qed

end

subsection \<open>The invariant of the runner\<close>

definition waiting :: "proc \<Rightarrow> bool" where
  "waiting p \<longleftrightarrow> unresolved p \<and> os p \<noteq> Spawned"

interpretation procs: managed ident "start now" "check_proc w" "preempt_proc w" waiting live over
  for now w
proof unfold_locales
  show "waiting p \<Longrightarrow> live (start now p)" for p
    by (simp add: waiting_def live_def unresolved_def)
  show "live p \<Longrightarrow> \<exists>b q. check_proc w p = Inr (b, q) \<and> ident q = ident p \<and> (if b then over q else live q)" for p
    unfolding check_proc_def by (rule poll_live)
  show "live p \<Longrightarrow> \<exists>q. preempt_proc w p = Inr q \<and> ident q = ident p \<and> waiting q" for p
  proof -
    assume "live p"
    then obtain q where "poll (w_kill w (ident p)) (kill_restart p) = Inr (True, q)"
      "ident q = ident p" "unresolved q" "over q"
      using poll_restart by blast
    then show ?thesis by (simp add: preempt_proc_def waiting_def over_def) force
  qed
qed simp

definition runner_ok :: "settings \<Rightarrow> runner \<Rightarrow> bool" where
  "runner_ok s r \<longleftrightarrow> list_all waiting (pending r) \<and> list_all live (running r) \<and>
     list_all over (finished r) \<and> int (length (running r)) \<le> max 0 (MAX_RUNNING s)"

definition sched_abs :: "runner \<Rightarrow> nat list \<times> nat list \<times> nat multiset" where
  "sched_abs r = (map ident (pending r), map ident (running r), mset (map ident (finished r)))"

text \<open>The three loops of a poll as steps of the scheduler, and what they keep.\<close>

lemma poll_ids:
  assumes "map ident run = map ident keep @ rev (map ident again)" "pend @ again = rest @ taken"
    "mset (map ident (keep @ map (start now) (rev taken))) = mset (map ident stay) + mset (map ident gone)"
  shows "mset (map ident (rest @ stay @ done' @ gone)) = mset (map ident (pend @ run @ done'))"
proof -
  have "mset (map ident run) = mset (map ident keep) + mset (map ident again)"
    using arg_cong [OF assms(1), of mset] by simp
  moreover have "mset (map ident pend) + mset (map ident again) = mset (map ident rest) + mset (map ident taken)"
    using arg_cong [OF assms(2), of "\<lambda>ps. mset (map ident ps)"] by simp
  ultimately show ?thesis
    using assms(3) by (simp add: rev_map comp_def) (metis (no_types, lifting) add.assoc add.commute)
qed

lemma poll_path:
  assumes "map ident run = map ident keep @ rev (map ident again)" "run \<noteq> [] \<longrightarrow> keep \<noteq> []"
    "pend @ again = rest @ taken" "int (length keep + length taken) \<le> max (int (length keep)) m"
    "(sched_step m)\<^sup>*\<^sup>* (map ident rest, map ident (keep @ map (start now) (rev taken)), d) t"
  shows "(sched_step m)\<^sup>*\<^sup>* (map ident pend, map ident run, d) t"
proof -
  from assms(1,2) have "(sched_step m)\<^sup>*\<^sup>* (map ident pend, map ident run, d) (map ident (rest @ taken), map ident keep, d)"
    using sched_preempts [of "map ident keep" "map ident again" m "map ident pend" d]
    by (auto simp: assms(3) [symmetric])
  moreover have "(sched_step m)\<^sup>*\<^sup>* (map ident (rest @ taken), map ident keep, d)
      (map ident rest, map ident (keep @ map (start now) (rev taken)), d)"
    using sched_launches [of "map ident keep" "map ident taken" m "map ident rest" d] assms(4)
    by (simp add: rev_map comp_def)
  ultimately show ?thesis using assms(5) by auto
qed

text \<open>One poll, taken apart.\<close>

lemma runner_poll_steps:
  assumes "runner_ok s r"
  obtains free keep again rest taken stay gone free' r' where
    "runner_poll s w r = Inr r'"
    "kill_excess max_memory (preempt_proc w) (no_kill s) (mem_avail s w r) (running r) (pending r) =
       Inr (free, keep, pending r @ again)"
    "start_pending expected_memory (start (w_now w)) (MAX_RUNNING s) free keep (pending r @ again) =
       (free', keep @ map (start (w_now w)) (rev taken), rest)"
    "pending r' = rest" "running r' = stay" "finished r' = finished r @ gone"
    "pending r @ again = rest @ taken" "runner_ok s r'" "runner_ids r' = runner_ids r"
    "(sched_step (MAX_RUNNING s))\<^sup>*\<^sup>* (sched_abs r) (sched_abs r')"
    "sweep (check_proc w) (keep @ map (start (w_now w)) (rev taken)) = Inr (stay, gone)"
    "rest = [] \<or> MAX_RUNNING s \<le> int (length keep + length taken) \<or>
       free' \<le> expected_memory (last rest) + GLOBAL_MEMORY_BUFFER"
    "free' = free - sum_list (map (\<lambda>p. reserve (expected_memory p)) taken)"
proof -
  let ?now = "w_now w" and ?mx = "MAX_RUNNING s"
  from assms have ok: "list_all live (running r)" "list_all waiting (pending r)" "list_all over (finished r)"
    "int (length (running r)) \<le> max 0 ?mx"
    by (simp_all add: runner_ok_def)
  from procs.kill_excess_live [OF ok(1,2), of max_memory w "no_kill s" "mem_avail s w r"]
  obtain free keep again where K:
    "kill_excess max_memory (preempt_proc w) (no_kill s) (mem_avail s w r) (running r) (pending r) =
       Inr (free, keep, pending r @ again)"
    "list_all live keep" "list_all waiting again"
    "map ident (running r) = map ident keep @ rev (map ident again)"
    "running r \<noteq> [] \<longrightarrow> keep \<noteq> []" "length keep \<le> length (running r)"
    by blast
  from K(3) ok(2) have "list_all waiting (pending r @ again)" by simp
  have same: "expected_memory (start ?now p) = expected_memory p" for p by (simp add: start_def)
  from procs.start_pending_live [where need = expected_memory, OF K(2) \<open>list_all waiting (pending r @ again)\<close> same, of ?mx free]
  obtain free' rest taken where S:
    "start_pending expected_memory (start ?now) ?mx free keep (pending r @ again) =
       (free', keep @ map (start ?now) (rev taken), rest)"
    "pending r @ again = rest @ taken" "list_all live (map (start ?now) taken)" "list_all waiting rest"
    "int (length keep + length taken) \<le> max (int (length keep)) ?mx"
    "free' = free - sum_list (map (\<lambda>p. reserve (expected_memory p)) taken)"
    "rest = [] \<or> ?mx \<le> int (length keep + length taken) \<or>
       free' \<le> expected_memory (last rest) + GLOBAL_MEMORY_BUFFER"
    by blast
  let ?run = "keep @ map (start ?now) (rev taken)"
  from K(2) S(3) have "list_all live ?run" by (auto simp: list_all_iff)
  from procs.sweep_live [OF this, of w ?mx "map ident rest"]
  obtain stay gone where W: "sweep (check_proc w) ?run = Inr (stay, gone)" "list_all live stay"
    "list_all over gone" "length stay \<le> length ?run"
    "mset (map ident ?run) = mset (map ident stay) + mset (map ident gone)"
    "(sched_step ?mx)\<^sup>*\<^sup>* (map ident rest, [] @ map ident ?run, mset (map ident (finished r)))
       (map ident rest, [] @ map ident stay, mset (map ident (finished r)) + mset (map ident gone))"
    by blast
  have drop: "drop_finished (check_proc w) 0 ?run [] = Inr (stay, gone)"
    using drop_finished_from [of "check_proc w" "[]" ?run "[]"] W(1) by simp
  obtain r' where r': "runner_poll s w r = Inr r'" "pending r' = rest" "running r' = stay"
    "finished r' = finished r @ gone"
    by (simp add: runner_poll_def K(1) S(1) drop Let_def)
  from W(4) K(6) S(5) ok(4) have "int (length stay) \<le> max 0 ?mx"
    by (auto simp: max_def split: if_splits)
  with r' W(2,3) S(4) ok(3) have "runner_ok s r'" by (simp add: runner_ok_def)
  moreover have "(sched_step ?mx)\<^sup>*\<^sup>* (sched_abs r) (sched_abs r')"
    using poll_path [OF K(4,5) S(2,5) W(6) [simplified append_Nil]] r'(2-4) by (simp add: sched_abs_def)
  moreover have "runner_ids r' = runner_ids r"
    using poll_ids [OF K(4) S(2) W(5), of "finished r"] by (simp add: runner_ids_def r' ac_simps)
  ultimately show ?thesis using that [OF r'(1) K(1) S(1) r'(2-4) S(2) _ _ _ W(1) S(7,6)] by blast
qed

lemma cancel_in_props [simp]:
  "map ident (cancel_in i ps) = map ident ps" "length (cancel_in i ps) = length ps"
  "list_all waiting (cancel_in i ps) = list_all waiting ps"
  "list_all live (cancel_in i ps) = list_all live ps"
  "list_all over (cancel_in i ps) = list_all over ps"
  by (induction ps) (simp_all add: cancel_in_def waiting_def live_def over_def)

lemma event_ok:
  assumes "event s r r'" "runner_ok s r"
  shows "runner_ok s r'"
  using assms
proof cases
  case (shell i c mem tmo slow)
  with assms(2) show ?thesis
    by (simp add: runner_ok_def shell_def append_proc_def new_process_def waiting_def unresolved_def)
next
  case (cancel i)
  with assms(2) show ?thesis by (simp add: runner_ok_def cancel_proc_def)
next
  case (poll w)
  from assms(2) show ?thesis by (rule runner_poll_steps [where w = w]) (use poll in simp)
qed

lemma reachable_ok: "reachable s r \<Longrightarrow> runner_ok s r"
proof (induction rule: reachable.induct)
  case (init now)
  then show ?case by (simp add: runner_ok_def new_runner_def)
next
  case (step r r')
  then show ?case by (blast intro: event_ok)
qed

lemma event_ids:
  assumes "event s r r'" "runner_ok s r"
  shows "runner_ids r' = runner_ids r \<or> (\<exists>i. i \<notin># runner_ids r \<and> runner_ids r' = add_mset i (runner_ids r))"
  using assms(1)
proof cases
  case (shell i c mem tmo slow)
  then show ?thesis
    by (intro disjI2 exI [of _ i]) (auto simp: runner_ids_def shell_def append_proc_def new_process_def)
next
  case (cancel i)
  then show ?thesis by (simp add: runner_ids_def cancel_proc_def)
next
  case (poll w)
  from assms(2) show ?thesis by (rule runner_poll_steps [where w = w]) (use poll in simp)
qed

lemma reachable_distinct:
  "reachable s r \<Longrightarrow> distinct (map ident (pending r @ running r @ finished r))"
proof (induction rule: reachable.induct)
  case (init now)
  then show ?case by (simp add: new_runner_def)
next
  case (step r r')
  let ?xs = "map ident (pending r @ running r @ finished r)"
    and ?ys = "map ident (pending r' @ running r' @ finished r')"
  from event_ids [OF step(2) reachable_ok [OF step(1)]] show ?case
  proof
    assume "runner_ids r' = runner_ids r"
    then have "mset ?ys = mset ?xs" by (simp only: runner_ids_def)
    with step(3) show ?thesis by (blast dest: mset_eq_imp_distinct_iff)
  next
    assume "\<exists>i. i \<notin># runner_ids r \<and> runner_ids r' = add_mset i (runner_ids r)"
    then obtain i where i: "i \<notin> set ?xs" "mset ?ys = mset (i # ?xs)"
      unfolding runner_ids_def set_mset_mset mset.simps by blast
    from i(1) step(3) have "distinct (i # ?xs)" by simp
    with i(2) show ?thesis by (blast dest: mset_eq_imp_distinct_iff)
  qed
qed

subsection \<open>Properties\<close>

text \<open>C2: In every state the runner can reach, whatever processes were appended and cancelled in
  between, a poll raises none of the errors it could (a process that was never started, a
  future resolved twice), and it neither loses nor duplicates a process: each is once in
  \<open>pending\<close>, \<open>running\<close> or dropped as finished.\<close>

theorem runner_poll_safe:
  assumes "reachable s r"
  shows "distinct (map ident (pending r @ running r @ finished r)) \<and>
    (\<exists>r'. runner_poll s w r = Inr r' \<and> runner_ids r' = runner_ids r)"
proof -
  from reachable_ok [OF assms] have "\<exists>r'. runner_poll s w r = Inr r' \<and> runner_ids r' = runner_ids r"
    by (rule runner_poll_steps [where w = w]) blast
  with reachable_distinct [OF assms] show ?thesis by blast
qed

text \<open>C4: The runner never runs more than \<open>MAX_RUNNING\<close> processes. On a machine with one or two
  processors that bound is not positive, so that no process is ever started, let alone finished:
  every command given to \<open>shell\<close> waits for ever.\<close>

theorem running_bound:
  assumes "reachable s r"
  shows "int (length (running r)) \<le> max 0 (MAX_RUNNING s) \<and>
    (cpu_count s \<in> {Some 1, Some 2} \<longrightarrow> running r = [] \<and> finished r = [])"
proof -
  from reachable_ok [OF assms] have "int (length (running r)) \<le> max 0 (MAX_RUNNING s)"
    by (simp add: runner_ok_def)
  moreover have "running r = [] \<and> finished r = []" if "cpu_count s \<in> {Some 1, Some 2}"
    using assms
  proof (induction rule: reachable.induct)
    case (init now)
    then show ?case by (simp add: new_runner_def)
  next
    case (step r r')
    from that have mx: "MAX_RUNNING s \<le> 0" by (auto simp: MAX_RUNNING_def)
    from step(2) show ?case
    proof cases
      case (poll w)
      from reachable_ok [OF step(1)] show ?thesis
      proof (rule runner_poll_steps [where w = w])
        fix free keep again rest taken stay gone free' r''
        assume *: "runner_poll s w r = Inr r''" "runner_ok s r''" "runner_ids r'' = runner_ids r"
          "finished r'' = finished r @ gone" "running r'' = stay"
          "kill_excess max_memory (preempt_proc w) (no_kill s) (mem_avail s w r) (running r) (pending r) =
             Inr (free, keep, pending r @ again)"
          "start_pending expected_memory (start (w_now w)) (MAX_RUNNING s) free keep (pending r @ again) =
             (free', keep @ map (start (w_now w)) (rev taken), rest)"
          "sweep (check_proc w) (keep @ map (start (w_now w)) (rev taken)) = Inr (stay, gone)"
        from *(6) step(3) have "keep = []" by simp
        with *(7) mx have "keep @ map (start (w_now w)) (rev taken) = []"
          by (simp add: start_pending.simps)
        with * poll step(3) show ?thesis by simp
      qed
    qed (use step(3) in \<open>auto simp: shell_def append_proc_def cancel_proc_def cancel_in_def\<close>)
  qed
  ultimately show ?thesis by blast
qed

text \<open>C3: The runner is an implementation of the abstract scheduler: every event of the loop is a
  sequence of its steps, so that waiting processes are launched in the order they came, one
  preempted for memory is the next to be launched, and the last one running is never
  preempted.\<close>

theorem runner_refines_scheduler:
  assumes "reachable s r" "event s r r'"
  shows "(sched_step (MAX_RUNNING s))\<^sup>*\<^sup>* (sched_abs r) (sched_abs r')"
  using assms(2)
proof cases
  case (shell i c mem tmo slow)
  then have "sched_step (MAX_RUNNING s) (sched_abs r) (sched_abs r')"
    by (simp add: sched_abs_def shell_def append_proc_def new_process_def sched_step.submit)
  then show ?thesis by blast
next
  case (cancel i)
  then show ?thesis by (simp add: sched_abs_def cancel_proc_def)
next
  case (poll w)
  from reachable_ok [OF assms(1)] show ?thesis
    by (rule runner_poll_steps [where w = w]) (use poll in simp)
qed

text \<open>C5: The processes one poll starts, from the next in the queue on, expect less memory
  together than what is free minus \<open>GLOBAL_MEMORY_BUFFER\<close>, and no more are started than there
  are slots; the loop stops only when the queue is empty, the slots are taken, or the next one
  does not fit into what is left.\<close>

theorem started_memory_bound:
  "\<exists>free' rest taken. start_pending expected_memory (start now) mx free run pend =
       (free', run @ map (start now) (rev taken), rest) \<and>
    pend = rest @ taken \<and> int (length run + length taken) \<le> max (int (length run)) mx \<and>
    free' = free - sum_list (map (\<lambda>p. reserve (expected_memory p)) taken) \<and>
    (taken = [] \<or> sum_list (map expected_memory taken) + GLOBAL_MEMORY_BUFFER < free) \<and>
    (rest = [] \<or> mx \<le> int (length run + length taken) \<or>
     free' \<le> expected_memory (last rest) + GLOBAL_MEMORY_BUFFER)"
proof -
  have "expected_memory (start now p) = expected_memory p" for p by (simp add: start_def)
  from start_pending_takes [where need = expected_memory and launch = "start now", OF this]
  show ?thesis by blast
qed

text \<open>C7: Progress when nothing runs: a poll leaves the queue as it is exactly when the queue is
  empty, there is no slot, or the next process alone expects more memory than is free minus
  the buffer. In the last case nothing behind it is started either, so that one such process
  blocks all others until memory is freed by someone else.\<close>

theorem idle_poll_progress:
  assumes "reachable s r" "running r = []"
  shows "\<exists>r'. runner_poll s w r = Inr r' \<and>
    (pending r' = pending r \<longleftrightarrow> pending r = [] \<or> MAX_RUNNING s < 1 \<or>
       mem_avail s w r \<le> expected_memory (last (pending r)) + GLOBAL_MEMORY_BUFFER)"
  using reachable_ok [OF assms(1)]
proof (rule runner_poll_steps [where w = w])
  fix free keep again rest taken stay gone free' r'
  assume *: "runner_poll s w r = Inr r'"
    "kill_excess max_memory (preempt_proc w) (no_kill s) (mem_avail s w r) (running r) (pending r) =
       Inr (free, keep, pending r @ again)"
    "start_pending expected_memory (start (w_now w)) (MAX_RUNNING s) free keep (pending r @ again) =
       (free', keep @ map (start (w_now w)) (rev taken), rest)"
    "pending r' = rest" "pending r @ again = rest @ taken"
    "rest = [] \<or> MAX_RUNNING s \<le> int (length keep + length taken) \<or>
       free' \<le> expected_memory (last rest) + GLOBAL_MEMORY_BUFFER"
    "free' = free - sum_list (map (\<lambda>p. reserve (expected_memory p)) taken)"
  from *(2) assms(2) have idle: "keep = []" "again = []" "free = mem_avail s w r" by simp_all
  have "rest = pending r \<longleftrightarrow> taken = []" using *(5) idle by auto
  moreover have "taken = [] \<longleftrightarrow> pending r = [] \<or> MAX_RUNNING s < 1 \<or> free \<le> expected_memory (last (pending r)) + GLOBAL_MEMORY_BUFFER"
  proof
    assume "taken = []"
    with *(5-7) idle show "pending r = [] \<or> MAX_RUNNING s < 1 \<or> free \<le> expected_memory (last (pending r)) + GLOBAL_MEMORY_BUFFER"
      by auto
  next
    assume "pending r = [] \<or> MAX_RUNNING s < 1 \<or> free \<le> expected_memory (last (pending r)) + GLOBAL_MEMORY_BUFFER"
    then have "start_pending expected_memory (start (w_now w)) (MAX_RUNNING s) free [] (pending r) = (free, [], pending r)"
      by (subst start_pending.simps) auto
    with *(3) idle show "taken = []" by simp
  qed
  ultimately show ?thesis using *(1,4) idle by auto
qed

subsection \<open>Draining the queue\<close>

text \<open>Consecutive polls of the event loop, with nothing appended or cancelled in between.\<close>

fun polls :: "settings \<Rightarrow> (nat \<Rightarrow> world) \<Rightarrow> nat \<Rightarrow> runner \<Rightarrow> poll_error + runner" where
  "polls s ws 0 r = Inr r"
| "polls s ws (Suc n) r = res_bind (polls s ws n r) (runner_poll s (ws n))"

lemma poll_exited: "live p \<Longrightarrow> o_exit ob \<noteq> None \<Longrightarrow> poll ob p = Inr (b, p') \<Longrightarrow> b"
  by (cases "kill_req p"; cases "the (kill_req p)")
    (auto simp: poll_def Let_def live_def elim!: res_bindE split: if_splits)

lemma sweep_exited:
  assumes "list_all live ps" "\<And>i. o_exit (w_check w i) \<noteq> None" "sweep (check_proc w) ps = Inr (stay, gone)"
  shows "stay = []"
  using assms(1,3)
proof (induction ps arbitrary: stay gone)
  case (Cons p ps)
  then obtain b q st go where r: "check_proc w p = Inr (b, q)" "sweep (check_proc w) ps = Inr (st, go)"
    and out: "(stay, gone) = (if b then (st, q # go) else (q # st, go))"
    by (auto elim!: res_bindE)
  from Cons.prems(1) have "live p" by simp
  from poll_exited [OF this assms(2)] r(1) have b by (auto simp: check_proc_def)
  with Cons.IH [OF _ r(2)] Cons.prems(1) out show ?case by simp
qed simp

text \<open>A poll in which memory is plentiful and every process has exited leaves nothing running, and
  shortens the queue if nothing ran before.\<close>

lemma poll_drains:
  assumes ok: "runner_ok s r" and slots: "0 < MAX_RUNNING s" and "max_mem s = 0"
    and mem: "GLOBAL_MEMORY_BUFFER \<le> w_free w"
      "\<And>p. p \<in> set (pending r) \<Longrightarrow> expected_memory p + GLOBAL_MEMORY_BUFFER < w_free w"
    and exits: "\<And>i. o_exit (w_check w i) \<noteq> None"
  shows "\<exists>r' taken. runner_poll s w r = Inr r' \<and> running r' = [] \<and> pending r = pending r' @ taken \<and>
    (running r = [] \<and> pending r \<noteq> [] \<longrightarrow> taken \<noteq> []) \<and> runner_ok s r' \<and> runner_ids r' = runner_ids r"
  using ok
proof (rule runner_poll_steps [where w = w])
  fix free keep again rest taken stay gone free' r'
  assume *: "runner_poll s w r = Inr r'"
    "kill_excess max_memory (preempt_proc w) (no_kill s) (mem_avail s w r) (running r) (pending r) =
       Inr (free, keep, pending r @ again)"
    "start_pending expected_memory (start (w_now w)) (MAX_RUNNING s) free keep (pending r @ again) =
       (free', keep @ map (start (w_now w)) (rev taken), rest)"
    "pending r' = rest" "running r' = stay" "pending r @ again = rest @ taken"
    "runner_ok s r'" "runner_ids r' = runner_ids r"
    "sweep (check_proc w) (keep @ map (start (w_now w)) (rev taken)) = Inr (stay, gone)"
    "rest = [] \<or> MAX_RUNNING s \<le> int (length keep + length taken) \<or>
       free' \<le> expected_memory (last rest) + GLOBAL_MEMORY_BUFFER"
    "free' = free - sum_list (map (\<lambda>p. reserve (expected_memory p)) taken)"
  have "mem_avail s w r = w_free w" using assms(3) by (simp add: mem_avail_def)
  with *(2) mem(1) have same: "keep = running r" "again = []" "free = w_free w"
    by (subst (asm) kill_excess.simps, simp)+
  from ok *(6) same have "list_all live (keep @ map (start (w_now w)) (rev taken))"
    by (auto simp: runner_ok_def list_all_iff intro!: procs.launch_live)
  from sweep_exited [OF this exits *(9)] have "stay = []" .
  moreover have "taken \<noteq> []" if "running r = []" "pending r \<noteq> []"
  proof
    assume "taken = []"
    with * same that have "free' = w_free w" "rest = pending r" by simp_all
    with *(10) that slots same \<open>taken = []\<close> mem(2) [of "last rest"] show False by auto
  qed
  ultimately show ?thesis using * same by auto
qed

text \<open>C6: The runner drains: whatever state it is in, once memory is plentiful, there is a slot and
  every process exits, as many polls as there are pending processes, and one more, leave nothing
  pending or running, and every process the runner was given has been dropped as finished.\<close>

theorem runner_drains:
  assumes "reachable s r" "0 < MAX_RUNNING s" "max_mem s = 0"
    and "\<And>k. GLOBAL_MEMORY_BUFFER \<le> w_free (ws k)"
    and "\<And>k p. p \<in> set (pending r) \<Longrightarrow> expected_memory p + GLOBAL_MEMORY_BUFFER < w_free (ws k)"
    and "\<And>k i. o_exit (w_check (ws k) i) \<noteq> None"
    and "length (pending r) < n"
  shows "\<exists>r'. polls s ws n r = Inr r' \<and> pending r' = [] \<and> running r' = [] \<and>
    mset (map ident (finished r')) = runner_ids r"
proof -
  have "\<exists>r' taken. polls s ws (Suc m) r = Inr r' \<and> running r' = [] \<and> pending r = pending r' @ taken \<and>
      length (pending r') \<le> length (pending r) - m \<and> runner_ok s r' \<and> runner_ids r' = runner_ids r" for m
  proof (induction m)
    case 0
    from poll_drains [OF reachable_ok [OF assms(1)] assms(2,3), of "ws 0"] assms(4-6) show ?case by fastforce
  next
    case (Suc m)
    then obtain q taken where q: "polls s ws (Suc m) r = Inr q" "running q = []" "pending r = pending q @ taken"
      "length (pending q) \<le> length (pending r) - m" "runner_ok s q" "runner_ids q = runner_ids r" by blast
    from q(3) have "set (pending q) \<subseteq> set (pending r)" by simp
    with poll_drains [OF q(5) assms(2,3), of "ws (Suc m)"] assms(4-6) obtain r' taken' where
      r': "runner_poll s (ws (Suc m)) q = Inr r'" "running r' = []" "pending q = pending r' @ taken'"
      "pending q \<noteq> [] \<longrightarrow> taken' \<noteq> []" "runner_ok s r'" "runner_ids r' = runner_ids q"
      using q(2) by blast
    have "length (pending r') \<le> length (pending r) - Suc m"
      using r'(3,4) q(4) by (cases taken') auto
    with q(1,3,6) r' show ?case by auto
  qed
  from this [of "n - 1"] assms(7) obtain r' where "polls s ws n r = Inr r'" "running r' = []"
    "pending r' = []" "runner_ids r' = runner_ids r" by auto
  then show ?thesis by (auto simp: runner_ids_def)
qed

subsection \<open>A runner with one process\<close>

definition sample_settings :: settings where
  "sample_settings = \<lparr>no_kill = False, max_mem = 0, cpu_count = Some 4\<rparr>"

definition sample_world :: world where
  "sample_world = (let ob = \<lparr>o_rss = 1, o_now = 1, o_exit = None, o_stdout = [], o_stderr = []\<rparr>
     in \<lparr>w_free = 16, w_now = 0, w_kill = \<lambda>_. ob, w_check = \<lambda>_. ob\<rparr>)"

definition sample_runner :: runner where
  "sample_runner = shell 0 ''rIC3'' 2 None False (new_runner 0)"

lemma reachable_sample: "reachable sample_settings sample_runner" "reachable (sample_settings\<lparr>cpu_count := Some 2\<rparr>) sample_runner"
  unfolding sample_runner_def
  by (rule reachable.step [OF reachable.init event.shell], simp add: runner_ids_def new_runner_def)+

theorem runner_poll_safe_witness:
  "\<exists>r'. runner_poll sample_settings sample_world sample_runner = Inr r' \<and>
     runner_ids r' = {#0#}"
  using runner_poll_safe [OF reachable_sample(1), of sample_world]
  by (simp add: sample_runner_def shell_def append_proc_def new_runner_def new_process_def runner_ids_def)

theorem running_bound_witness:
  "int (length (running sample_runner)) \<le> 2 \<and> running sample_runner = []"
  using running_bound [OF reachable_sample(1)] running_bound [OF reachable_sample(2)]
  by (simp add: sample_settings_def MAX_RUNNING_def)

theorem runner_refines_scheduler_witness:
  "(sched_step (MAX_RUNNING sample_settings))\<^sup>*\<^sup>* (sched_abs (new_runner 0)) (sched_abs sample_runner)"
  unfolding sample_runner_def
  by (rule runner_refines_scheduler [OF reachable.init event.shell]) (simp add: runner_ids_def new_runner_def)

theorem idle_poll_progress_witness:
  "\<exists>r'. runner_poll sample_settings sample_world sample_runner = Inr r' \<and> pending r' \<noteq> pending sample_runner"
  using idle_poll_progress [OF reachable_sample(1), of sample_world]
  by (simp add: sample_runner_def shell_def append_proc_def new_runner_def new_process_def
      sample_settings_def sample_world_def MAX_RUNNING_def mem_avail_def GLOBAL_MEMORY_BUFFER_def Let_def)

theorem runner_drains_witness:
  "\<exists>r'. polls sample_settings
      (\<lambda>_. sample_world\<lparr>w_check := \<lambda>_. \<lparr>o_rss = 1, o_now = 1, o_exit = Some 0, o_stdout = [], o_stderr = []\<rparr>\<rparr>)
      2 sample_runner = Inr r' \<and> mset (map ident (finished r')) = {#0#}"
proof -
  let ?w = "sample_world\<lparr>w_check := \<lambda>_. \<lparr>o_rss = 1, o_now = 1, o_exit = Some 0, o_stdout = [], o_stderr = []\<rparr>\<rparr>"
  have "\<exists>r'. polls sample_settings (\<lambda>_. ?w) 2 sample_runner = Inr r' \<and> pending r' = [] \<and> running r' = [] \<and>
      mset (map ident (finished r')) = runner_ids sample_runner"
    using reachable_sample(1)
    by (rule runner_drains)
      (simp_all add: sample_settings_def sample_world_def sample_runner_def shell_def append_proc_def
        new_runner_def new_process_def MAX_RUNNING_def GLOBAL_MEMORY_BUFFER_def Let_def)
  then show ?thesis
    by (auto simp: runner_ids_def sample_runner_def shell_def append_proc_def new_runner_def new_process_def)
qed

end
