(* ===== verification/Py_Str.thy ===== *)
theory Py_Str
  imports Py_Base
begin

text \<open>
  The \<open>str\<close> operations of Python that the scripts use. A string is a \<open>char list\<close>; the
  scripts handle ASCII text (paths, options, log lines), so a character is a code point below
  128 and the character classes are the ASCII ones. Each operation follows the documented
  behaviour of CPython, including the corner cases the scripts can reach (an empty separator
  for \<open>replace\<close>, adjacent separators for \<open>split\<close>, a leading sign for \<open>int\<close>).
\<close>

named_theorems char_class \<open>definitions of the character classes\<close>

subsection \<open>Character classes\<close>

abbreviation code :: "char \<Rightarrow> nat" where
  "code c \<equiv> of_char c"

definition is_digit :: "char \<Rightarrow> bool" where
  [char_class]: "is_digit c \<longleftrightarrow> 48 \<le> code c \<and> code c \<le> 57"

definition is_upper :: "char \<Rightarrow> bool" where
  [char_class]: "is_upper c \<longleftrightarrow> 65 \<le> code c \<and> code c \<le> 90"

definition is_lower :: "char \<Rightarrow> bool" where
  [char_class]: "is_lower c \<longleftrightarrow> 97 \<le> code c \<and> code c \<le> 122"

text \<open>The regular expression class \<open>\w\<close>.\<close>

definition is_word :: "char \<Rightarrow> bool" where
  [char_class]: "is_word c \<longleftrightarrow> is_digit c \<or> is_upper c \<or> is_lower c \<or> code c = 95"

text \<open>\<open>str.isspace\<close>, the separators of \<open>split()\<close> and \<open>strip()\<close>, and the class \<open>\s\<close>.\<close>

definition is_space :: "char \<Rightarrow> bool" where
  [char_class]: "is_space c \<longleftrightarrow> 9 \<le> code c \<and> code c \<le> 13 \<or> 28 \<le> code c \<and> code c \<le> 32"

text \<open>The class \<open>[0-9a-f]\<close>.\<close>

definition is_hex :: "char \<Rightarrow> bool" where
  [char_class]: "is_hex c \<longleftrightarrow> is_digit c \<or> 97 \<le> code c \<and> code c \<le> 102"

abbreviation newline :: char where
  "newline \<equiv> CHR 0x0A"

lemma digit_not_space [simp]: "is_digit c \<Longrightarrow> \<not> is_space c"
  by (auto simp: char_class)

lemma word_not_space [simp]: "is_word c \<Longrightarrow> \<not> is_space c"
  by (auto simp: char_class)

lemma digit_is_word [simp]: "is_digit c \<Longrightarrow> is_word c"
  by (auto simp: char_class)

subsection \<open>Searching\<close>

definition starts_with :: "string \<Rightarrow> string \<Rightarrow> bool" where
  "starts_with p s \<longleftrightarrow> take (length p) s = p"

definition ends_with :: "string \<Rightarrow> string \<Rightarrow> bool" where
  "ends_with p s \<longleftrightarrow> starts_with (rev p) (rev s)"

lemma starts_with_iff: "starts_with p s \<longleftrightarrow> (\<exists>r. s = p @ r)"
  unfolding starts_with_def by (metis append_eq_conv_conj append_take_drop_id)

lemma starts_with_Nil [simp]: "starts_with [] s"
  by (simp add: starts_with_def)

lemma starts_with_append [simp]: "starts_with p (p @ r)"
  by (simp add: starts_with_def)

lemma starts_with_Cons [simp]:
  "starts_with (a # p) s = (case s of [] \<Rightarrow> False | b # r \<Rightarrow> a = b \<and> starts_with p r)"
  by (cases s) (auto simp: starts_with_def)

lemma ends_with_iff: "ends_with p s \<longleftrightarrow> (\<exists>r. s = r @ p)"
  unfolding ends_with_def starts_with_iff by (metis rev_append rev_rev_ident)

text \<open>\<open>needle in s\<close>.\<close>

fun str_in :: "string \<Rightarrow> string \<Rightarrow> bool" where
  "str_in n [] \<longleftrightarrow> n = []"
| "str_in n (c # s) \<longleftrightarrow> starts_with n (c # s) \<or> str_in n s"

lemma str_in_iff: "str_in n s \<longleftrightarrow> (\<exists>u v. s = u @ n @ v)"
proof (induction s)
  case Nil
  then show ?case by auto
next
  case (Cons c s)
  have "(\<exists>u v. c # s = u @ n @ v) \<longleftrightarrow> (\<exists>v. c # s = n @ v) \<or> (\<exists>u v. s = u @ n @ v)"
    by (metis append_Cons append_Nil neq_Nil_conv list.inject)
  then show ?case by (auto simp: starts_with_iff Cons.IH)
qed

lemma str_in_append: "str_in n (u @ n @ v)"
  by (auto simp: str_in_iff)

lemma str_in_mono: "str_in n s \<Longrightarrow> str_in n (u @ s @ v)"
  unfolding str_in_iff by (metis append.assoc)

lemma str_in_set: "str_in n s \<Longrightarrow> set n \<subseteq> set s"
  by (auto simp: str_in_iff)

subsection \<open>replace\<close>

text \<open>
  \<open>s.replace(old, new)\<close>: every non-overlapping occurrence, left to right; the empty pattern
  occurs before every character and at the end.
\<close>

function py_replace :: "string \<Rightarrow> string \<Rightarrow> string \<Rightarrow> string" where
  "py_replace old new [] = (if old = [] then new else [])"
| "py_replace old new (c # s) =
     (if old = [] then new @ c # py_replace old new s
      else if starts_with old (c # s) then new @ py_replace old new (drop (length old) (c # s))
      else c # py_replace old new s)"
  by pat_completeness auto
termination
  by (relation "measure (\<lambda>(old, new, s). length s)") (auto simp: less_Suc_eq_le neq_Nil_conv)

lemma py_replace_absent: "old \<noteq> [] \<Longrightarrow> \<not> str_in old s \<Longrightarrow> py_replace old new s = s"
  by (induction s) auto

lemma py_replace_prefix:
  "old \<noteq> [] \<Longrightarrow> py_replace old new (old @ s) = new @ py_replace old new s"
  by (cases old) (auto simp: starts_with_def)

lemma py_replace_head:
  "hd old \<notin> set u \<Longrightarrow> old \<noteq> [] \<Longrightarrow> py_replace old new (u @ s) = u @ py_replace old new s"
  by (induction u) (auto simp: neq_Nil_conv)

text \<open>The single-character pattern.\<close>

lemma py_replace_char:
  "py_replace [a] new s = concat (map (\<lambda>c. if c = a then new else [c]) s)"
  by (induction s) auto

subsection \<open>split and strip\<close>

fun split_p :: "(char \<Rightarrow> bool) \<Rightarrow> string \<Rightarrow> string list" where
  "split_p p [] = [[]]"
| "split_p p (c # s) =
     (if p c then [] # split_p p s else (c # hd (split_p p s)) # tl (split_p p s))"

abbreviation split_chr :: "char \<Rightarrow> string \<Rightarrow> string list" where
  "split_chr a \<equiv> split_p (\<lambda>c. c = a)"

lemma split_p_nonempty [simp]: "split_p p s \<noteq> []"
  by (cases s) auto

text \<open>The same in one pass, for evaluation.\<close>

fun split_acc :: "(char \<Rightarrow> bool) \<Rightarrow> string \<Rightarrow> string \<Rightarrow> string list" where
  "split_acc p acc [] = [rev acc]"
| "split_acc p acc (c # s) = (if p c then rev acc # split_acc p [] s else split_acc p (c # acc) s)"

lemma split_acc: "split_acc p acc s = (rev acc @ hd (split_p p s)) # tl (split_p p s)"
  by (induction s arbitrary: acc) auto

lemma split_p_code [code]: "split_p p s = split_acc p [] s"
  by (simp add: split_acc)

lemma split_p_pieces: "w \<in> set (split_p p s) \<Longrightarrow> c \<in> set w \<Longrightarrow> \<not> p c \<and> c \<in> set s"
proof (induction s arbitrary: w)
  case Nil
  then show ?case by simp
next
  case (Cons a s)
  obtain h t where ht: "split_p p s = h # t" by (meson split_p_nonempty neq_Nil_conv)
  from Cons.prems ht Cons.IH [of h] Cons.IH [of w] show ?case
    by (cases "p a") auto
qed

lemma split_p_none: "(\<And>c. c \<in> set s \<Longrightarrow> \<not> p c) \<Longrightarrow> split_p p s = [s]"
  by (induction s) auto

lemma split_p_append:
  "(\<And>c. c \<in> set u \<Longrightarrow> \<not> p c) \<Longrightarrow> p a \<Longrightarrow> split_p p (u @ a # s) = u # split_p p s"
  by (induction u) auto

lemma join_split_chr: "py_join [a] (split_chr a s) = s"
proof (induction s)
  case Nil
  then show ?case by simp
next
  case (Cons c s)
  obtain h t where ht: "split_chr a s = h # t" by (meson split_p_nonempty neq_Nil_conv)
  with Cons show ?case by (auto simp: py_join_Cons)
qed

lemma split_join_chr:
  "ws \<noteq> [] \<Longrightarrow> (\<And>w. w \<in> set ws \<Longrightarrow> a \<notin> set w) \<Longrightarrow> split_chr a (py_join [a] ws) = ws"
proof (induction ws rule: list_nonempty_induct)
  case (single w)
  then have "\<And>c. c \<in> set w \<Longrightarrow> c \<noteq> a" by auto
  then show ?case by (simp add: split_p_none)
next
  case (cons w ws)
  then have "split_chr a (w @ a # py_join [a] ws) = w # split_chr a (py_join [a] ws)"
    by (intro split_p_append) auto
  with cons show ?case by (simp add: py_join_Cons)
qed

text \<open>\<open>s.split(sep)\<close> for a separator of any positive length: the occurrences are found from the
  left and do not overlap.\<close>

function split_str :: "string \<Rightarrow> string \<Rightarrow> string list" where
  "split_str sep [] = [[]]"
| "split_str sep (c # s) =
     (if sep \<noteq> [] \<and> starts_with sep (c # s) then [] # split_str sep (drop (length sep) (c # s))
      else (c # hd (split_str sep s)) # tl (split_str sep s))"
  by pat_completeness auto
termination
  by (relation "measure (\<lambda>(sep, s). length s)") (auto simp: neq_Nil_conv)

lemma split_str_nonempty [simp]: "split_str sep s \<noteq> []"
  by (cases s) simp_all

lemma join_split_str: "py_join sep (split_str sep s) = s"
proof (induction sep s rule: split_str.induct)
  case (1 sep)
  then show ?case by simp
next
  case (2 sep c s)
  show ?case
  proof (cases "sep \<noteq> [] \<and> starts_with sep (c # s)")
    case True
    then have "c # s = sep @ drop (length sep) (c # s)"
      by (metis append_eq_conv_conj starts_with_def append_take_drop_id)
    with 2(1) True show ?thesis by (simp add: py_join_Cons del: split_str.simps(1))
  next
    case False
    obtain h t where ht: "split_str sep s = h # t" by (meson split_str_nonempty neq_Nil_conv)
    from False have "split_str sep (c # s) = (c # h) # t" by (simp only: split_str.simps if_False ht list.sel)
    with 2(2) [OF False] ht show ?thesis by (simp only: py_join_Cons) simp
  qed
qed

text \<open>\<open>s.split()\<close>: maximal runs of non-space characters.\<close>

definition py_words :: "string \<Rightarrow> string list" where
  "py_words s = filter (\<lambda>w. w \<noteq> []) (split_p is_space s)"

lemma py_words_nonempty: "w \<in> set (py_words s) \<Longrightarrow> w \<noteq> []"
  by (simp add: py_words_def)

text \<open>
  \<open>s.split(a, 1)\<close> (also written with \<open>maxsplit=1\<close>) and \<open>s.rsplit(a, 1)\<close>: the parts before
  and after the first (last) separator, \<open>None\<close> when the result has one element only.
\<close>

definition split_once :: "char \<Rightarrow> string \<Rightarrow> (string \<times> string) option" where
  "split_once a s =
     (if a \<in> set s then Some (takeWhile (\<lambda>c. c \<noteq> a) s, tl (dropWhile (\<lambda>c. c \<noteq> a) s)) else None)"

definition rsplit_once :: "char \<Rightarrow> string \<Rightarrow> (string \<times> string) option" where
  "rsplit_once a s = map_option (\<lambda>(u, v). (rev v, rev u)) (split_once a (rev s))"

lemma split_once_append: "a \<notin> set u \<Longrightarrow> split_once a (u @ a # v) = Some (u, v)"
proof -
  assume "a \<notin> set u"
  then have "\<forall>c\<in>set u. c \<noteq> a" by auto
  then show ?thesis by (simp add: split_once_def)
qed

lemma rsplit_once_append: "a \<notin> set v \<Longrightarrow> rsplit_once a (u @ a # v) = Some (u, v)"
  by (simp add: rsplit_once_def split_once_append)

lemma split_once_Some: "split_once a s = Some (u, v) \<Longrightarrow> s = u @ a # v \<and> a \<notin> set u"
proof -
  assume eq: "split_once a s = Some (u, v)"
  then have "a \<in> set s" by (simp add: split_once_def split: if_splits)
  then obtain u' v' where s: "s = u' @ a # v'" "a \<notin> set u'" by (meson split_list_first)
  with eq show ?thesis by (simp add: split_once_append)
qed

text \<open>\<open>s.lstrip()\<close>, \<open>s.rstrip()\<close> and \<open>s.strip()\<close>, and \<open>s.strip(chars)\<close>.\<close>

definition lstrip_p :: "(char \<Rightarrow> bool) \<Rightarrow> string \<Rightarrow> string" where
  "lstrip_p = dropWhile"

definition rstrip_p :: "(char \<Rightarrow> bool) \<Rightarrow> string \<Rightarrow> string" where
  "rstrip_p p s = rev (dropWhile p (rev s))"

definition strip_p :: "(char \<Rightarrow> bool) \<Rightarrow> string \<Rightarrow> string" where
  "strip_p p s = rstrip_p p (lstrip_p p s)"

abbreviation py_strip :: "string \<Rightarrow> string" where
  "py_strip \<equiv> strip_p is_space"

lemma strip_p_ends:
  "strip_p p s = [] \<or> \<not> p (hd (strip_p p s)) \<and> \<not> p (last (strip_p p s))"
proof -
  let ?t = "dropWhile p s" and ?r = "dropWhile p (rev (dropWhile p s))"
  have eq: "strip_p p s = rev ?r" by (simp add: strip_p_def rstrip_p_def lstrip_p_def)
  show ?thesis
  proof (cases "?r = []")
    case True
    then show ?thesis by (simp add: eq)
  next
    case False
    obtain u where u: "rev ?t = u @ ?r" by (metis takeWhile_dropWhile_id)
    then have "?t = rev ?r @ rev u" by (metis rev_append rev_rev_ident)
    moreover have "?t \<noteq> []" using False by (metis dropWhile.simps(1) rev.simps(1))
    ultimately have "\<not> p (hd (rev ?r))"
      using False hd_dropWhile [of p s] by (metis hd_append rev_is_Nil_conv)
    moreover have "\<not> p (hd ?r)" using False by (rule hd_dropWhile)
    ultimately show ?thesis using False by (simp add: eq last_rev)
  qed
qed

subsection \<open>Numerals\<close>

definition digit_chr :: "nat \<Rightarrow> char" where
  "digit_chr d = (if d < 10 then char_of (48 + d) else char_of (87 + d))"

definition digit_val :: "char \<Rightarrow> nat" where
  "digit_val c = (if code c \<le> 57 then code c - 48 else code c - 87)"

lemma digit_val_chr [simp]: "d < 16 \<Longrightarrow> digit_val (digit_chr d) = d"
  by (auto simp: digit_val_def digit_chr_def)

lemma digit_chr_digit [simp]: "d < 10 \<Longrightarrow> is_digit (digit_chr d)"
  by (auto simp: digit_chr_def is_digit_def)

lemma digit_chr_hex [simp]: "d < 16 \<Longrightarrow> is_hex (digit_chr d)"
  by (auto simp: digit_chr_def is_hex_def is_digit_def)

text \<open>The digits of a natural number in base \<open>b\<close>, most significant first, as \<open>str\<close> and \<open>hex\<close> do.\<close>

function nat_repr :: "nat \<Rightarrow> nat \<Rightarrow> string" where
  "nat_repr b n =
     (if n < b \<or> b < 2 then [digit_chr n] else nat_repr b (n div b) @ [digit_chr (n mod b)])"
  by pat_completeness auto
termination
  by (relation "measure snd") (auto intro: div_less_dividend)

declare nat_repr.simps [simp del]

definition val_digits :: "nat \<Rightarrow> string \<Rightarrow> nat" where
  "val_digits b = foldl (\<lambda>a c. a * b + digit_val c) 0"

lemma nat_repr_nonempty [simp]: "nat_repr b n \<noteq> []"
  by (subst nat_repr.simps) auto

lemma val_nat_repr [simp]: "2 \<le> b \<Longrightarrow> b \<le> 16 \<Longrightarrow> val_digits b (nat_repr b n) = n"
proof (induction b n rule: nat_repr.induct)
  case (1 b n)
  show ?case
  proof (cases "n < b")
    case True
    with "1.prems" show ?thesis by (subst nat_repr.simps) (simp add: val_digits_def)
  next
    case False
    with 1 have "val_digits b (nat_repr b (n div b)) = n div b" by simp
    moreover have "n mod b < 16" using "1.prems" by (meson less_le_trans mod_less_divisor zero_less_numeral)
    ultimately show ?thesis using False "1.prems"
      by (subst nat_repr.simps) (simp add: val_digits_def)
  qed
qed

lemma nat_repr_digits: "c \<in> set (nat_repr 10 n) \<Longrightarrow> is_digit c"
proof (induction "10::nat" n rule: nat_repr.induct)
  case (1 n)
  then show ?case by (subst (asm) (2) nat_repr.simps) (auto split: if_splits)
qed

lemma nat_repr_inj: "2 \<le> b \<Longrightarrow> b \<le> 16 \<Longrightarrow> nat_repr b m = nat_repr b n \<Longrightarrow> m = n"
  by (metis val_nat_repr)

text \<open>\<open>str(i)\<close> for an \<open>int\<close>.\<close>

definition int_str :: "int \<Rightarrow> string" where
  "int_str i = (if i < 0 then ''-'' @ nat_repr 10 (nat (- i)) else nat_repr 10 (nat i))"

lemma int_str_chars: "c \<in> set (int_str i) \<Longrightarrow> is_digit c \<or> c = CHR ''-''"
  by (auto simp: int_str_def dest: nat_repr_digits split: if_splits)

text \<open>
  \<open>int(s, b)\<close> for the bases the scripts use (10 and 16): surrounding space and a sign are
  accepted, single underscores may separate digits, base 16 also accepts a \<open>0x\<close> prefix and
  capital digits; anything else is a \<open>ValueError\<close>, here \<open>None\<close>.
\<close>

definition digit_in :: "nat \<Rightarrow> char \<Rightarrow> nat option" where
  "digit_in b c =
     (let d = (if is_digit c then code c - 48
               else if is_lower c then code c - 87
               else if is_upper c then code c - 55 else b)
      in if d < b then Some d else None)"

fun parse_digits :: "nat \<Rightarrow> nat \<Rightarrow> string \<Rightarrow> nat option" where
  "parse_digits b a [] = Some a"
| "parse_digits b a (c # s) =
     (if c = CHR ''_'' then
        (case s of [] \<Rightarrow> None
         | d # s' \<Rightarrow> (case digit_in b d of None \<Rightarrow> None | Some v \<Rightarrow> parse_digits b (a * b + v) s'))
      else (case digit_in b c of None \<Rightarrow> None | Some v \<Rightarrow> parse_digits b (a * b + v) s))"

definition parse_nat :: "nat \<Rightarrow> string \<Rightarrow> nat option" where
  "parse_nat b s =
     (let t = (if b = 16 \<and> (starts_with ''0x'' s \<or> starts_with ''0X'' s) then drop 2 s else s);
          t' = (if length t < length s \<and> starts_with ''_'' t then tl t else t)
      in case t' of [] \<Rightarrow> None | c # r \<Rightarrow>
           if c = CHR ''_'' then None else parse_digits b 0 t')"

definition py_int :: "nat \<Rightarrow> string \<Rightarrow> int option" where
  "py_int b s =
     (case py_strip s of
        [] \<Rightarrow> None
      | c # r \<Rightarrow>
          (if c = CHR ''-'' then map_option (\<lambda>n. - int n) (parse_nat b r)
           else if c = CHR ''+'' then map_option int (parse_nat b r)
           else map_option int (parse_nat b (c # r))))"

lemma digit_in_digit: "is_digit c \<Longrightarrow> digit_in 10 c = Some (digit_val c)"
  by (auto simp: digit_in_def digit_val_def is_digit_def Let_def)

lemma parse_digits_digits:
  "(\<And>c. c \<in> set s \<Longrightarrow> is_digit c) \<Longrightarrow>
   parse_digits 10 a s = Some (foldl (\<lambda>a c. a * 10 + digit_val c) a s)"
proof (induction s arbitrary: a)
  case Nil
  then show ?case by simp
next
  case (Cons c s)
  then have "is_digit c" by simp
  then have "c \<noteq> CHR ''_''" by (auto simp: is_digit_def)
  with Cons show ?case by (auto simp: digit_in_digit)
qed

lemma strip_digits:
  assumes "\<And>c. c \<in> set s \<Longrightarrow> \<not> is_space c"
  shows "py_strip s = s"
proof -
  have "dropWhile is_space s = s" using assms by (cases s) auto
  moreover have "dropWhile is_space (rev s) = rev s"
    using assms by (cases "rev s") (auto simp: dropWhile_eq_self_iff dest: arg_cong [where f = set])
  ultimately show ?thesis by (simp add: strip_p_def rstrip_p_def lstrip_p_def)
qed

lemma py_int_digits:
  assumes "s \<noteq> []" "\<And>c. c \<in> set s \<Longrightarrow> is_digit c"
  shows "py_int 10 s = Some (int (val_digits 10 s))"
proof -
  obtain c r where s: "s = c # r" using assms(1) by (cases s) auto
  have c: "is_digit c" using assms(2) s by simp
  then have neq: "c \<noteq> CHR ''-''" "c \<noteq> CHR ''+''" "c \<noteq> CHR ''_''" by (auto simp: is_digit_def)
  have "py_strip s = s" using assms(2) by (intro strip_digits) simp
  moreover have "parse_nat 10 s = Some (val_digits 10 s)"
    using assms(2) neq parse_digits_digits [of s 0] by (simp add: parse_nat_def s val_digits_def)
  ultimately show ?thesis using neq by (simp add: py_int_def s)
qed

text \<open>Base 16, as \<open>hex\<close> prints it.\<close>

lemma hex_plain: "is_hex c \<Longrightarrow> c \<noteq> CHR ''_'' \<and> \<not> is_space c"
  by (auto simp: char_class)

lemma digit_in_chr: "d < b \<Longrightarrow> b \<le> 16 \<Longrightarrow> digit_in b (digit_chr d) = Some d"
  by (auto simp: digit_in_def digit_chr_def char_class Let_def of_char_of take_bit_eq_mod)

lemma parse_digits_snoc:
  "(\<And>c. c \<in> set s \<Longrightarrow> c \<noteq> CHR ''_'') \<Longrightarrow> c \<noteq> CHR ''_'' \<Longrightarrow>
   parse_digits b a (s @ [c]) =
     (case parse_digits b a s of None \<Rightarrow> None
      | Some n \<Rightarrow> map_option (\<lambda>v. n * b + v) (digit_in b c))"
  by (induction s arbitrary: a) (auto split: option.splits)

lemma parse_digits_repr:
  "2 \<le> b \<Longrightarrow> b \<le> 16 \<Longrightarrow>
     parse_digits b 0 (nat_repr b n) = Some n \<and> (\<forall>c\<in>set (nat_repr b n). c \<noteq> CHR ''_'' \<and> \<not> is_space c)"
proof (induction b n rule: nat_repr.induct)
  case (1 b n)
  have chr: "digit_in b (digit_chr d) = Some d" "digit_chr d \<noteq> CHR ''_''" "\<not> is_space (digit_chr d)" if "d < b" for d
    using that 1(3) digit_in_chr [of d b] hex_plain [of "digit_chr d"] by auto
  show ?case
  proof (cases "n < b")
    case True
    with chr [of n] show ?thesis by (subst (1 2) nat_repr.simps) simp
  next
    case False
    with 1 have IH: "parse_digits b 0 (nat_repr b (n div b)) = Some (n div b)"
      "\<forall>c\<in>set (nat_repr b (n div b)). c \<noteq> CHR ''_'' \<and> \<not> is_space c" by auto
    have "n mod b < b" using 1(2) by simp
    with IH chr [of "n mod b"] False 1(2) show ?thesis
      by (subst (1 2) nat_repr.simps) (auto simp: parse_digits_snoc)
  qed
qed

lemma py_int_hex: "py_int 16 (''0x'' @ nat_repr 16 n) = Some (int n)"
proof -
  note r = parse_digits_repr [of 16 n, simplified]
  obtain c w where cw: "nat_repr 16 n = c # w" using nat_repr_nonempty [of 16 n] by (cases "nat_repr 16 n") auto
  have "py_strip (''0x'' @ nat_repr 16 n) = ''0x'' @ nat_repr 16 n"
  proof (rule strip_digits)
    fix c assume "c \<in> set (''0x'' @ nat_repr 16 n)"
    then consider "c = CHR ''0''" | "c = CHR ''x''" | "c \<in> set (nat_repr 16 n)" by auto
    then show "\<not> is_space c"
    proof cases
      case 3
      with r show ?thesis by blast
    qed (simp_all add: is_space_def)
  qed
  moreover have "parse_nat 16 (''0x'' @ nat_repr 16 n) = Some n"
  proof -
    have c: "c \<noteq> CHR ''_''" using r by (simp add: cw)
    have "parse_nat 16 (''0x'' @ nat_repr 16 n) = parse_digits 16 0 (nat_repr 16 n)"
      unfolding cw using c by (auto simp: parse_nat_def Let_def simp del: parse_digits.simps)
    with r show ?thesis by simp
  qed
  ultimately show ?thesis by (simp add: py_int_def)
qed

theorem py_int_int_str: "py_int 10 (int_str (int n)) = Some (int n)"
  by (simp add: int_str_def py_int_digits nat_repr_digits)

end
