(* ===== verification/Conductor_Split.thy ===== *)
theory Conductor_Split
  imports Py_Str "HOL-Library.Multiset"
begin

text \<open>
  \<open>split_by_prefixes\<close> of \<open>dv/formal/conductor.py\<close>, with its local functions \<open>chunk_name\<close> and
  \<open>group\<close>, and \<open>find_all\<close> of \<open>build_strategy_rec\<close>, which flattens the trees it builds. A tree of
  property names is a Python list whose elements are names or again lists.
\<close>

datatype ptree = PName string | PNode "ptree list"

fun find_all :: "ptree list \<Rightarrow> string list" where
  "find_all [] = []"
| "find_all (PName n # ts) = n # find_all ts"
| "find_all (PNode us # ts) = find_all us @ find_all ts"

lemma find_all_append [simp]: "find_all (ts @ us) = find_all ts @ find_all us"
  by (induction ts rule: find_all.induct) auto

lemma find_all_names [simp]: "find_all (map PName ns) = ns"
  by (induction ns) auto

lemma find_all_nodes [simp]: "find_all (map PNode tss) = concat (map find_all tss)"
  by (induction tss) auto

subsection \<open>\<open>chunk_name\<close>\<close>

text \<open>
  The result of \<open>re.split(r"_([A-Z])|_|([A-Z])", name)\<close>: the text before the first separator,
  then, per separator, its two groups (the empty string for \<open>None\<close>) and the text after it.
\<close>

fun re_split :: "string \<Rightarrow> string \<times> (string \<times> string \<times> string) list" where
  "re_split [] = ([], [])"
| "re_split (c # s) =
     (if c = CHR ''_'' then
        (case s of
           d # s' \<Rightarrow>
             if is_upper d then (let (t, r) = re_split s' in ([], ([d], [], t) # r))
             else (let (t, r) = re_split s in ([], ([], [], t) # r))
         | [] \<Rightarrow> ([], [([], [], [])]))
      else if is_upper c then (let (t, r) = re_split s in ([], ([], [c], t) # r))
      else (let (t, r) = re_split s in (c # t, r)))"

definition chunk_name :: "string \<Rightarrow> string list" where
  "chunk_name name = (let (t, r) = re_split name
     in (if t \<noteq> [] then [t] else []) @ map (\<lambda>(g1, g2, x). g1 @ g2 @ x) r)"

lemma is_upper_underscore [simp]: "\<not> is_upper CHR ''_''"
  by (simp add: is_upper_def)

lemma re_split_concat:
  "re_split s = (t, r) \<Longrightarrow> t @ concat (map (\<lambda>(g1, g2, x). g1 @ g2 @ x) r) = filter (\<lambda>c. c \<noteq> CHR ''_'') s"
proof (induction s arbitrary: t r rule: re_split.induct)
  case 1
  then show ?case by simp
next
  case (2 c s)
  show ?case
  proof (cases "c = CHR ''_''")
    case True
    show ?thesis
    proof (cases s)
      case Nil
      with 2(5) True show ?thesis by auto
    next
      case (Cons d s')
      obtain t1 r1 t2 r2 where e: "re_split s' = (t1, r1)" "re_split s = (t2, r2)" by force
      show ?thesis
      proof (cases "is_upper d")
        case True
        from 2(1) [OF \<open>c = _\<close> Cons True e(1)] 2(5) True \<open>c = _\<close> e Cons show ?thesis by auto
      next
        case False
        have "re_split (c # s) = ([], ([], [], t2) # r2)"
          by (subst re_split.simps(2), simp only: \<open>c = _\<close> Cons list.case False if_True if_False Let_def
              e(2) [unfolded Cons] prod.case simp_thms)
        with 2(2) [OF \<open>c = _\<close> Cons False, of t2 r2] 2(5) \<open>c = _\<close> e show ?thesis by simp
      qed
    qed
  next
    case False
    obtain t1 r1 where e: "re_split s = (t1, r1)" by force
    show ?thesis
    proof (cases "is_upper c")
      case True
      from 2(3) [OF False True e] 2(5) True False e show ?thesis by auto
    next
      case False': False
      from 2(4) [OF False False' e] 2(5) False False' e show ?thesis by auto
    qed
  qed
qed

lemma concat_chunk_name: "concat (chunk_name n) = filter (\<lambda>c. c \<noteq> CHR ''_'') n"
  using re_split_concat [of n] by (auto simp: chunk_name_def Let_def split: prod.splits)

lemma chunk_name_Nil [simp]: "chunk_name n = [] \<longleftrightarrow> n = []"
proof (cases n)
  case Nil
  then show ?thesis by (simp add: chunk_name_def)
next
  case (Cons c s)
  then show ?thesis
    by (auto simp: chunk_name_def Let_def split: prod.splits list.splits if_splits)
qed

subsection \<open>\<open>group\<close>\<close>

datatype split_error = IndexError

type_synonym chunked = "string list \<times> string"

definition place ::
    "ptree list \<times> (string, chunked list) dict \<Rightarrow> chunked \<Rightarrow> split_error + ptree list \<times> (string, chunked list) dict" where
  "place st p = (case (st, p) of ((done, buckets), (chunks, name)) \<Rightarrow>
     (case chunks of
        [] \<Rightarrow> Inl IndexError
      | c # rest \<Rightarrow>
          if rest = [] then Inr (done @ [PName name], buckets)
          else (case dget buckets c of
                  None \<Rightarrow> Inr (done, dset c [(rest, name)] buckets)
                | Some b \<Rightarrow> Inr (done, dset c (b @ [(rest, name)]) buckets))))"

text \<open>What placing a name adds up to, in any measure of the chunked names.\<close>

lemma sum_dset:
  fixes f :: "'b \<Rightarrow> 'c :: comm_monoid_add"
  shows "sum_list (map (\<lambda>kb. f (snd kb)) (dset c v d)) + (case dget d c of None \<Rightarrow> 0 | Some b \<Rightarrow> f b) =
     sum_list (map (\<lambda>kb. f (snd kb)) d) + f v"
  by (induction d) (auto simp: algebra_simps)

definition chunk_count :: "chunked list \<Rightarrow> nat" where
  "chunk_count ps = sum_list (map (\<lambda>p. length (fst p)) ps)"

definition bucket_weight :: "chunked list \<Rightarrow> nat" where
  "bucket_weight ps = sum_list (map (\<lambda>p. Suc (length (fst p))) ps)"

lemma place_weight:
  assumes "place (dn, bk) p = Inr (dn', bk')"
  shows "sum_list (map (\<lambda>kb. bucket_weight (snd kb)) bk') \<le>
           sum_list (map (\<lambda>kb. bucket_weight (snd kb)) bk) + length (fst p)"
    and "list_all (\<lambda>kb. snd kb \<noteq> []) bk \<Longrightarrow> list_all (\<lambda>kb. snd kb \<noteq> []) bk'"
proof -
  obtain cs n where p: "p = (cs, n)" by (cases p)
  from assms obtain c rest where cs: "cs = c # rest" by (cases cs) (auto simp: place_def p)
  have set_dset: "set (dset k v d) \<subseteq> insert (k, v) (set d)" for k v and d :: "(string, chunked list) dict"
    by (induction d) auto
  consider "rest = []" "bk' = bk"
    | b where "dget bk c = b" "bk' = dset c ((case b of None \<Rightarrow> [] | Some b \<Rightarrow> b) @ [(rest, n)]) bk"
    using assms by (cases "rest = []"; cases "dget bk c") (auto simp: place_def p cs)
  note cases = this
  from cases show "sum_list (map (\<lambda>kb. bucket_weight (snd kb)) bk') \<le>
           sum_list (map (\<lambda>kb. bucket_weight (snd kb)) bk) + length (fst p)"
  proof cases
    case (2 b)
    with sum_dset [of bucket_weight c "(case b of None \<Rightarrow> [] | Some b \<Rightarrow> b) @ [(rest, n)]" bk]
    show ?thesis by (cases b) (auto simp: p cs bucket_weight_def)
  qed simp
  from cases show "list_all (\<lambda>kb. snd kb \<noteq> []) bk'" if "list_all (\<lambda>kb. snd kb \<noteq> []) bk"
  proof cases
    case (2 b)
    with that set_dset [of c _ bk] show ?thesis by (fastforce simp: list_all_iff)
  qed (use that in simp)
qed

lemma places_weight:
  assumes "res_fold place (dn, bk) ps = Inr (dn', bk')" "list_all (\<lambda>kb. snd kb \<noteq> []) bk"
  shows "sum_list (map (\<lambda>kb. bucket_weight (snd kb)) bk') \<le>
           sum_list (map (\<lambda>kb. bucket_weight (snd kb)) bk) + chunk_count ps \<and>
         list_all (\<lambda>kb. snd kb \<noteq> []) bk'"
  using assms
proof (induction ps arbitrary: dn bk)
  case Nil
  then show ?case by simp
next
  case (Cons p ps)
  from Cons.prems(1) obtain dn1 bk1 where *: "place (dn, bk) p = Inr (dn1, bk1)"
    "res_fold place (dn1, bk1) ps = Inr (dn', bk')"
    by (auto simp: res_bind_eq_Inr)
  from Cons.IH [OF *(2)] place_weight [OF *(1)] Cons.prems(2) show ?case
    by (auto simp: chunk_count_def)
qed

function group :: "chunked list \<Rightarrow> split_error + ptree list" where
  "group props = res_bind (res_fold place ([], []) props) (\<lambda>st.
     res_bind (res_map (\<lambda>kb. group (snd kb)) (snd st)) (\<lambda>gs.
       Inr (fst st @ map PNode gs)))"
  by auto
termination
proof (relation "measure chunk_count")
  fix props st kb
  assume "res_fold place ([], []) props = Inr st" "kb \<in> set (snd st)"
  then have w: "sum_list (map (\<lambda>kb. bucket_weight (snd kb)) (snd st)) \<le> chunk_count props"
    and ne: "snd kb \<noteq> []"
    using places_weight [of "[]" "[]" props "fst st" "snd st"] by (auto simp: list_all_iff)
  have "bucket_weight (snd kb) \<le> sum_list (map (\<lambda>kb. bucket_weight (snd kb)) (snd st))"
    using \<open>kb \<in> set (snd st)\<close> by (intro member_le_sum_list) auto
  with w have "bucket_weight (snd kb) \<le> chunk_count props" by (rule order_trans [rotated])
  moreover have "bucket_weight ps = chunk_count ps + length ps" for ps
    by (induction ps) (auto simp: chunk_count_def bucket_weight_def)
  ultimately have "chunk_count (snd kb) + length (snd kb) \<le> chunk_count props"
    by simp
  moreover from ne have "0 < length (snd kb)" by simp
  ultimately show "(snd kb, props) \<in> measure chunk_count" by (simp only: in_measure)
qed simp

declare group.simps [simp del]

definition split_by_prefixes :: "string list \<Rightarrow> split_error + ptree list" where
  "split_by_prefixes names = group (map (\<lambda>name. (chunk_name name, name)) names)"

subsection \<open>What the tree holds\<close>

text \<open>The lists among the elements of a list, and all lists at a depth below the top one.\<close>

definition children_of :: "ptree list \<Rightarrow> ptree list list" where
  "children_of tree = List.map_filter (\<lambda>t. case t of PName _ \<Rightarrow> None | PNode us \<Rightarrow> Some us) tree"

fun lists_at :: "nat \<Rightarrow> ptree list \<Rightarrow> ptree list list" where
  "lists_at 0 t = [t]"
| "lists_at (Suc d) t = concat (map (lists_at d) (children_of t))"

text \<open>A bucket holds names of the input whose first chunk is its key, with that chunk removed.\<close>

definition placed :: "chunked list \<Rightarrow> ptree list \<times> (string, chunked list) dict \<Rightarrow> bool" where
  "placed ps st \<longleftrightarrow>
     list_all (\<lambda>t. \<exists>c n. t = PName n \<and> ([c], n) \<in> set ps) (fst st) \<and>
     list_all (\<lambda>kb. list_all (\<lambda>p. fst p \<noteq> [] \<and> (fst kb # fst p, snd p) \<in> set ps) (snd kb)) (snd st)"

definition leaves :: "ptree list \<times> (string, chunked list) dict \<Rightarrow> string multiset" where
  "leaves st = mset (find_all (fst st)) + sum_list (map (\<lambda>kb. mset (map snd (snd kb))) (snd st))"

lemma dset_all: "list_all P d \<Longrightarrow> P (k, v) \<Longrightarrow> list_all P (dset k v d)"
  by (induction d) auto

lemma dget_all: "list_all P d \<Longrightarrow> dget d k = Some v \<Longrightarrow> P (k, v)"
  by (auto simp: list_all_iff dest: map_of_SomeD)

lemma place_placed:
  assumes "place st p = Inr st'" "placed ps st" "p \<in> set ps"
  shows "placed ps st' \<and> leaves st' = add_mset (snd p) (leaves st)"
proof -
  obtain dn bk cs n where st: "st = (dn, bk)" and p: "p = (cs, n)" by (cases st, cases p)
  from assms(1) obtain c rest where cs: "cs = c # rest" by (cases cs) (auto simp: place_def p st)
  show ?thesis
  proof (cases "rest = []")
    case True
    with assms show ?thesis by (auto simp: place_def st p cs placed_def leaves_def)
  next
    case False
    define b where "b = (case dget bk c of None \<Rightarrow> [] | Some b \<Rightarrow> b)"
    from assms(1) False have st': "st' = (dn, dset c (b @ [(rest, n)]) bk)"
      by (cases "dget bk c") (auto simp: place_def st p cs b_def)
    let ?P = "\<lambda>kb. list_all (\<lambda>p. fst p \<noteq> [] \<and> (fst kb # fst p, snd p) \<in> set ps) (snd kb)"
    from assms(2) have bk: "list_all ?P bk" by (simp add: placed_def st)
    have "?P (c, b)"
      using dget_all [OF bk, of c] by (cases "dget bk c") (auto simp: b_def)
    with assms(3) False have "?P (c, b @ [(rest, n)])" by (simp add: p cs)
    from dset_all [of ?P, OF bk this] assms(2) have "placed ps st'" by (simp add: placed_def st st')
    moreover have "leaves st' = add_mset n (leaves st)"
      using sum_dset [of "\<lambda>b. mset (map snd b)" c "b @ [(rest, n)]" bk]
      by (cases "dget bk c") (auto simp: leaves_def st st' b_def)
    ultimately show ?thesis by (simp add: p)
  qed
qed

lemma places_placed:
  assumes "res_fold place st qs = Inr st'" "placed ps st" "set qs \<subseteq> set ps"
  shows "placed ps st' \<and> leaves st' = leaves st + mset (map snd qs)"
  using assms
proof (induction qs arbitrary: st)
  case Nil
  then show ?case by simp
next
  case (Cons q qs)
  from Cons.prems(1) obtain st1 where *: "place st q = Inr st1" "res_fold place st1 qs = Inr st'"
    by (auto simp: res_bind_eq_Inr)
  from Cons.prems place_placed [OF *(1), of ps] have 1: "placed ps st1" "leaves st1 = add_mset (snd q) (leaves st)"
    by auto
  from Cons.IH [OF *(2) 1(1)] Cons.prems(3) 1(2) show ?case by simp
qed

lemma places_start: "res_fold place ([], []) ps = Inr st \<Longrightarrow> placed ps st \<and> leaves st = mset (map snd ps)"
  using places_placed [of "([], [])" ps st ps] by (simp add: placed_def leaves_def)

lemma places_defined:
  "(\<exists>st'. res_fold place st ps = Inr st') \<longleftrightarrow> list_all (\<lambda>p. fst p \<noteq> []) ps"
proof (induction ps arbitrary: st)
  case Nil
  then show ?case by simp
next
  case (Cons p ps)
  obtain dn bk cs n where st: "st = (dn, bk)" and p: "p = (cs, n)" by (cases st, cases p)
  show ?case
  proof (cases cs)
    case Nil
    then show ?thesis by (simp add: place_def st p)
  next
    case c: (Cons c rest)
    then obtain st1 where "place st p = Inr st1"
      by (cases "rest = []"; cases "dget bk c") (auto simp: place_def st p)
    with Cons.IH [of st1] c show ?thesis by (simp add: p)
  qed
qed

lemma group_defined:
  assumes "list_all (\<lambda>p. fst p \<noteq> []) ps"
  shows "\<exists>t. group ps = Inr t \<and> mset (find_all t) = mset (map snd ps)"
  using assms
proof (induction ps rule: group.induct)
  case (1 ps)
  from 1(2) obtain st where st: "res_fold place ([], []) ps = Inr st"
    using places_defined by blast
  from places_start [OF st] have placed: "placed ps st" and leaves: "leaves st = mset (map snd ps)" by auto
  have "\<exists>t. group (snd kb) = Inr t \<and> mset (find_all t) = mset (map snd (snd kb))"
    if kb: "kb \<in> set (snd st)" for kb
    using placed kb by (intro 1(1) [OF st kb]) (simp add: placed_def list_all_iff)
  then obtain g where g: "\<And>kb. kb \<in> set (snd st) \<Longrightarrow> group (snd kb) = Inr (g kb) \<and>
      mset (find_all (g kb)) = mset (map snd (snd kb))"
    by metis
  then have gs: "res_map (\<lambda>kb. group (snd kb)) (snd st) = Inr (map g (snd st))"
    by (intro res_map_Inr_on) blast
  from g have "mset (concat (map find_all (map g kbs))) = sum_list (map (\<lambda>kb. mset (map snd (snd kb))) kbs)"
    if "set kbs \<subseteq> set (snd st)" for kbs
    using that by (induction kbs) auto
  with leaves have "mset (find_all (fst st @ map PNode (map g (snd st)))) = mset (map snd ps)"
    by (simp only: find_all_append find_all_nodes mset_append leaves_def subset_refl)
  then show ?case
    by (subst group.simps) (simp add: st gs del: map_map find_all_nodes)
qed

lemma group_undefined: "\<not> list_all (\<lambda>p. fst p \<noteq> []) ps \<Longrightarrow> group ps = Inl IndexError"
proof -
  assume "\<not> list_all (\<lambda>p. fst p \<noteq> []) ps"
  then obtain e where "res_fold place ([], []) ps = Inl e"
    using places_defined [of "([], [])" ps] by (cases "res_fold place ([], []) ps") auto
  then show ?thesis by (subst group.simps) (cases e, simp)
qed

lemma group_leaves:
  "group ps = Inr t \<Longrightarrow> mset (find_all t) = mset (map snd ps) \<and> list_all (\<lambda>p. fst p \<noteq> []) ps"
  using group_defined [of ps] group_undefined [of ps] by (cases "list_all (\<lambda>p. fst p \<noteq> []) ps") auto

subsection \<open>The lists of the tree\<close>

text \<open>The beginnings, \<open>d\<close> chunks long, of the names with more chunks than that.\<close>

definition long_prefixes :: "nat \<Rightarrow> string list list \<Rightarrow> string list set" where
  "long_prefixes d css = {take d cs |cs. cs \<in> set css \<and> d < length cs}"

lemma children_of_group: "children_of (map (PName \<circ> f) ns @ map PNode gs) = gs"
proof -
  have "children_of (map PNode gs) = gs" by (induction gs) (simp_all add: children_of_def map_filter_simps)
  then show ?thesis by (induction ns) (simp_all add: children_of_def map_filter_simps)
qed

definition into_bucket :: "chunked list option \<Rightarrow> chunked \<Rightarrow> chunked list" where
  "into_bucket o' x = (case o' of None \<Rightarrow> [] | Some b \<Rightarrow> b) @ [(tl (fst x), snd x)]"

lemma places_group:
  assumes "list_all (\<lambda>p. fst p \<noteq> []) ps"
  shows "res_fold place (dn, bk) ps =
    Inr (dn @ map (PName \<circ> snd) (filter (\<lambda>p. length (fst p) = 1) ps),
         fold (\<lambda>x d. dset (hd (fst x)) (into_bucket (dget d (hd (fst x))) x) d)
           (filter (\<lambda>p. 1 < length (fst p)) ps) bk)"
  using assms
proof (induction ps arbitrary: dn bk)
  case Nil
  then show ?case by simp
next
  case (Cons p ps)
  obtain cs n where p: "p = (cs, n)" by (cases p)
  with Cons.prems obtain c rest where cs: "cs = c # rest" by (cases cs) auto
  from Cons show ?case
    by (cases "rest = []"; cases "dget bk c") (auto simp: place_def p cs into_bucket_def)
qed

lemma fold_into_bucket:
  "fold (\<lambda>x o'. Some (into_bucket o' x)) xs o' =
   (if xs = [] then o' else Some ((case o' of None \<Rightarrow> [] | Some b \<Rightarrow> b) @ map (\<lambda>x. (tl (fst x), snd x)) xs))"
  by (induction xs arbitrary: o') (auto simp: into_bucket_def)

text \<open>The bucket of a key after all names are placed.\<close>

definition bucket_of :: "chunked list \<Rightarrow> string \<Rightarrow> chunked list" where
  "bucket_of ps c = map (\<lambda>x. (tl (fst x), snd x)) (filter (\<lambda>p. 1 < length (fst p) \<and> hd (fst p) = c) ps)"

lemma buckets_exact:
  assumes "res_fold place ([], []) ps = Inr st"
  shows "distinct (dkeys (snd st)) \<and> set (dkeys (snd st)) = {hd (fst p) |p. p \<in> set ps \<and> 1 < length (fst p)} \<and>
    list_all (\<lambda>(k, b). b = bucket_of ps k) (snd st) \<and>
    fst st = map (PName \<circ> snd) (filter (\<lambda>p. length (fst p) = 1) ps)"
proof -
  let ?d = "fold (\<lambda>x d. dset (hd (fst x)) (into_bucket (dget d (hd (fst x))) x) d)
           (filter (\<lambda>p. 1 < length (fst p)) ps) []"
  from assms places_defined [of "([], [])" ps] have "list_all (\<lambda>p. fst p \<noteq> []) ps" by auto
  from places_group [OF this, of "[]" "[]"] assms
  have st: "st = (map (PName \<circ> snd) (filter (\<lambda>p. length (fst p) = 1) ps), ?d)" by simp
  have dist: "distinct (dkeys ?d)" by (rule pd.distinct_keys_group) simp
  moreover have "set (dkeys ?d) = {hd (fst p) |p. p \<in> set ps \<and> 1 < length (fst p)}"
    by (subst pd.set_keys_group) force
  moreover have "b = bucket_of ps k" if "(k, b) \<in> set ?d" for k b
  proof -
    from that dist have "dget ?d k = Some b" by simp
    then show ?thesis
      unfolding pd.get_group [where key = "\<lambda>x. hd (fst x)" and upd = into_bucket] fold_into_bucket
      by (auto simp: bucket_of_def filter_filter conj_commute split: if_splits)
  qed
  ultimately show ?thesis by (auto simp: st list_all_iff)
qed

definition level :: "nat \<Rightarrow> chunked list \<Rightarrow> string list \<Rightarrow> string multiset" where
  "level d ps c = mset (map snd (filter (\<lambda>p. d < length (fst p) \<and> take d (fst p) = c) ps))"

lemma level_Suc: "level (Suc d) ps (k # c) = level d (bucket_of ps k) c"
proof -
  have eq: "Suc d < length cs \<and> take (Suc d) cs = k # c \<longleftrightarrow>
      (1 < length cs \<and> hd cs = k) \<and> d < length (tl cs) \<and> take d (tl cs) = c" for cs :: "string list"
    by (cases cs) auto
  show ?thesis
    unfolding level_def bucket_of_def eq
    by (simp add: filter_map filter_filter comp_def conj_commute conj_left_commute)
qed

lemma long_prefixes_Suc:
  "long_prefixes (Suc d) (map fst ps) =
   (\<Union>k \<in> {hd (fst p) |p. p \<in> set ps \<and> 1 < length (fst p)}. Cons k ` long_prefixes d (map fst (bucket_of ps k)))"
  (is "?l = ?r")
proof (intro set_eqI iffI)
  fix c assume "c \<in> ?l"
  then obtain cs n where p: "(cs, n) \<in> set ps" "Suc d < length cs" "c = take (Suc d) cs"
    by (auto simp: long_prefixes_def)
  then obtain k rest where "cs = k # rest" by (cases cs) auto
  with p show "c \<in> ?r"
    by (force simp: long_prefixes_def bucket_of_def image_iff)
next
  fix c assume "c \<in> ?r"
  then obtain k cs n where "c = k # take d (tl cs)" "(cs, n) \<in> set ps" "hd cs = k" "d < length (tl cs)"
    by (auto simp: long_prefixes_def bucket_of_def)
  moreover from this have "c = take (Suc d) cs" "Suc d < length cs" by (cases cs, auto)+
  ultimately show "c \<in> ?l" by (force simp: long_prefixes_def)
qed

text \<open>The lists at a depth below the top are one per prefix of that length, each with the names that have it.\<close>

definition level_ok :: "nat \<Rightarrow> chunked list \<Rightarrow> ptree list \<Rightarrow> bool" where
  "level_ok d ps t \<longleftrightarrow> (\<exists>cs. distinct cs \<and> set cs = long_prefixes d (map fst ps) \<and>
     map (\<lambda>l. mset (find_all l)) (lists_at d t) = map (level d ps) cs)"

lemma group_unfold:
  assumes "group ps = Inr t"
  obtains ks gs where "distinct ks" "set ks = {hd (fst p) |p. p \<in> set ps \<and> 1 < length (fst p)}"
    "list_all2 (\<lambda>k g. group (bucket_of ps k) = Inr g) ks gs"
    "t = map (PName \<circ> snd) (filter (\<lambda>p. length (fst p) = 1) ps) @ map PNode gs"
proof -
  from assms [unfolded group.simps [of ps]] obtain st gs where
    st: "res_fold place ([], []) ps = Inr st" and gs: "res_map (\<lambda>kb. group (snd kb)) (snd st) = Inr gs"
    and t: "t = fst st @ map PNode gs"
    by (auto simp: res_bind_eq_Inr)
  note b = buckets_exact [OF st]
  from b have "group (snd kb) = Inr g \<longleftrightarrow> group (bucket_of ps (fst kb)) = Inr g" if "kb \<in> set (snd st)" for kb g
    using that by (auto simp: list_all_iff)
  with gs have "list_all2 (\<lambda>k g. group (bucket_of ps k) = Inr g) (dkeys (snd st)) gs"
    by (auto simp: res_map_eq_Inr list_all2_map1 intro: list.rel_mono_strong)
  with b t that show thesis by blast
qed

lemma levels_step:
  assumes "list_all2 (\<lambda>k g. level_ok d (bucket_of ps k) g) ks gs" "distinct ks"
  shows "\<exists>cs. distinct cs \<and> set cs = (\<Union>k \<in> set ks. Cons k ` long_prefixes d (map fst (bucket_of ps k))) \<and>
    map (\<lambda>l. mset (find_all l)) (concat (map (lists_at d) gs)) = map (level (Suc d) ps) cs"
  using assms
proof (induction rule: list_all2_induct)
  case Nil
  then show ?case by simp
next
  case (Cons k ks g gs)
  from Cons.IH Cons.prems obtain cs where cs: "distinct cs"
    "set cs = (\<Union>k \<in> set ks. Cons k ` long_prefixes d (map fst (bucket_of ps k)))"
    "map (\<lambda>l. mset (find_all l)) (concat (map (lists_at d) gs)) = map (level (Suc d) ps) cs" by auto
  from Cons.hyps(1) obtain ck where ck: "distinct ck" "set ck = long_prefixes d (map fst (bucket_of ps k))"
    "map (\<lambda>l. mset (find_all l)) (lists_at d g) = map (level d (bucket_of ps k)) ck"
    unfolding level_ok_def by blast
  have "distinct (map (Cons k) ck @ cs)"
    using ck(1) cs(1,2) Cons.prems by (auto simp: distinct_map)
  moreover have "set (map (Cons k) ck @ cs) =
      (\<Union>k \<in> set (k # ks). Cons k ` long_prefixes d (map fst (bucket_of ps k)))"
    by (simp add: cs(2) ck(2))
  moreover have "map (\<lambda>l. mset (find_all l)) (concat (map (lists_at d) (g # gs))) =
      map (level (Suc d) ps) (map (Cons k) ck @ cs)"
    by (simp add: cs(3) ck(3) level_Suc)
  ultimately show ?case by blast
qed

lemma group_levels:
  assumes "group ps = Inr t" "ps \<noteq> [] \<or> d \<noteq> 0"
  shows "level_ok d ps t"
  using assms
proof (induction d arbitrary: ps t)
  case 0
  from group_leaves [OF 0(1)] have *: "mset (find_all t) = mset (map snd ps)" "list_all (\<lambda>p. fst p \<noteq> []) ps"
    by auto
  then have "filter (\<lambda>p. fst p \<noteq> []) ps = ps" by (simp add: filter_id_conv list_all_iff)
  with *(1) have "map (\<lambda>l. mset (find_all l)) (lists_at 0 t) = map (level 0 ps) [[]]"
    by (simp add: level_def)
  moreover have "set [[]] = long_prefixes 0 (map fst ps)"
    using *(2) 0(2) by (cases ps) (auto simp: long_prefixes_def)
  moreover have "distinct [[]]" by simp
  ultimately show ?case unfolding level_ok_def by metis
next
  case (Suc d)
  from Suc.prems(1) obtain ks gs where ks: "distinct ks" "set ks = {hd (fst p) |p. p \<in> set ps \<and> 1 < length (fst p)}"
    and gs: "list_all2 (\<lambda>k g. group (bucket_of ps k) = Inr g) ks gs"
    and t: "t = map (PName \<circ> snd) (filter (\<lambda>p. length (fst p) = 1) ps) @ map PNode gs"
    by (rule group_unfold)
  have "list_all2 (\<lambda>k g. level_ok d (bucket_of ps k) g) ks gs"
    using gs
  proof (rule list.rel_mono_strong)
    fix k g assume "k \<in> set ks" "group (bucket_of ps k) = Inr g"
    moreover from this(1) have "k \<in> {hd (fst p) |p. p \<in> set ps \<and> 1 < length (fst p)}" by (simp only: ks(2))
    then obtain p where "p \<in> set ps" "hd (fst p) = k" "1 < length (fst p)" by blast
    then have "p \<in> set (filter (\<lambda>p. 1 < length (fst p) \<and> hd (fst p) = k) ps)" by simp
    then have "bucket_of ps k \<noteq> []" unfolding bucket_of_def map_is_Nil_conv by (metis emptyE empty_set)
    ultimately show "level_ok d (bucket_of ps k) g" by (intro Suc.IH) auto
  qed
  from levels_step [OF this ks(1)] show ?case
    by (auto simp: level_ok_def t children_of_group long_prefixes_Suc ks(2) simp del: map_map)
qed

subsection \<open>Properties\<close>

text \<open>C12: Splitting names by their prefixes loses and invents none: the tree, flattened again,
  is a permutation of the names. Two names sit below the same list exactly as deep as they share
  chunks: at every depth there is one list for each sequence of that many chunks that some name
  starts with and goes on after, and below it are exactly the names that start with these chunks
  and go on. The only failure is an \<open>IndexError\<close> for an empty name.\<close>

theorem split_by_prefixes_tree:
  "case split_by_prefixes names of
     Inl e \<Rightarrow> [] \<in> set names
   | Inr t \<Rightarrow> [] \<notin> set names \<and> mset (find_all t) = mset names \<and>
       (\<exists>pres. distinct pres \<and>
          set pres = {take (Suc d) (chunk_name n) |n. n \<in> set names \<and> Suc d < length (chunk_name n)} \<and>
          map (\<lambda>l. mset (find_all l)) (lists_at (Suc d) t) =
            map (\<lambda>pre. mset (filter (\<lambda>n. Suc d < length (chunk_name n) \<and> take (Suc d) (chunk_name n) = pre) names))
              pres)"
proof (cases "[] \<in> set names")
  case True
  then have "split_by_prefixes names = Inl IndexError"
    unfolding split_by_prefixes_def by (intro group_undefined) (auto simp: list_all_iff)
  with True show ?thesis by simp
next
  case False
  let ?ps = "map (\<lambda>name. (chunk_name name, name)) names"
  from False obtain t where t: "group ?ps = Inr t" "mset (find_all t) = mset names"
    using group_defined [of ?ps] by (auto simp: list_all_iff comp_def)
  have "level (Suc d) ?ps = (\<lambda>pre. mset (filter (\<lambda>n. Suc d < length (chunk_name n) \<and> take (Suc d) (chunk_name n) = pre) names))"
    by (simp add: level_def filter_map comp_def fun_eq_iff)
  moreover have "long_prefixes (Suc d) (map fst ?ps) =
      {take (Suc d) (chunk_name n) |n. n \<in> set names \<and> Suc d < length (chunk_name n)}"
    by (auto simp: long_prefixes_def)
  ultimately show ?thesis
    using group_levels [OF t(1), of "Suc d"] False t by (simp add: split_by_prefixes_def level_ok_def)
qed

end
