(* ===== verification/Conductor_Strategy.thy ===== *)
theory Conductor_Strategy
  imports Conductor_Process Conductor_Split Py_Str
begin

text \<open>
  How \<open>dv/formal/conductor.py\<close> looks for proofs: \<open>race\<close>, \<open>prepare_aiger\<close>, \<open>prove\<close>, \<open>explore\<close>,
  \<open>build_strategy_rec\<close>, \<open>run_strategy\<close>, the stored strategies, and \<open>construct_strategy\<close>.

  The provers and \<open>aig-manip\<close> are programs of their own: a \<open>prover\<close> tells what a command on
  the aiger file of some properties yields, the same at every call. The memory a proof is expected
  to need, which only the scheduler looks at, is not passed along. The failures are part of the
  result of a branch, where the code appends them to one list: those of a branch that loses a race
  are not among them here (with \<open>race\<close> as it is written no branch loses; it raises). Waiting (\<open>asyncio.sleep\<close>, the head start of one
  task) is left out; what is kept of concurrency is which task of a race a result comes from.
\<close>

subsection \<open>\<open>race\<close>\<close>

datatype cond_error =
    AssertionError | ValueError | ExceptionGroup | CoroutineReused | Unreachable
  | SplitIndexError | IndexErr | SysExit int

text \<open>How an awaited task ends.\<close>

datatype 'a outcome = Returns "'a option" | Raises cond_error

text \<open>
  \<open>wrapper\<close> reads the loop variable \<open>task\<close> when it runs, which is after the loop: every wrapper
  awaits the last task, and a coroutine that is awaited a second time raises a
  \<open>RuntimeError\<close>.
\<close>

definition wrappers :: "'a outcome list \<Rightarrow> 'a outcome list" where
  "wrappers tasks = map (\<lambda>i. if i = 0 then last tasks else Raises CoroutineReused) [0..<length tasks]"

definition winners :: "'a outcome list \<Rightarrow> 'a list" where
  "winners ws = List.map_filter (\<lambda>w. case w of Returns r \<Rightarrow> r | Raises _ \<Rightarrow> None) ws"

definition raises :: "'a outcome \<Rightarrow> bool" where
  "raises w = (case w of Returns _ \<Rightarrow> False | Raises _ \<Rightarrow> True)"

definition race :: "'a outcome list \<Rightarrow> cond_error + 'a option" where
  "race tasks = (let ws = wrappers tasks
     in if list_ex raises ws then Inl ExceptionGroup
        else Inr (if winners ws = [] then None else Some (last (winners ws))))"

subsection \<open>Commands\<close>

definition aiger_name :: "nat \<Rightarrow> string" where
  "aiger_name idx = ''build/aiger-'' @ nat_repr 10 idx @ ''.aig''"

definition aiger_cmd :: "nat \<Rightarrow> int \<Rightarrow> string list \<Rightarrow> string" where
  "aiger_cmd idx step props =
     ''build/aig-manip build/all.aig select '' @ aiger_name idx @ '' build/all.ywmap '' @
     int_str step @ '' '' @ py_join '' '' props"

record prover =
  select_code :: "int \<Rightarrow> string list \<Rightarrow> int option"
  run_engine :: "string \<Rightarrow> int \<Rightarrow> string list \<Rightarrow> rat option \<Rightarrow> process_result"

text \<open>\<open>prepare_aiger\<close>, up to the name of the file it makes.\<close>

definition prepare_aiger :: "prover \<Rightarrow> int \<Rightarrow> string list \<Rightarrow> cond_error + unit" where
  "prepare_aiger env step props =
     (if select_code env step props = Some 0 then Inr () else Inl AssertionError)"

datatype verdict = Unsat | Sat | Undetermined | KilledByOS | TimedOut | UnknownCode int

text \<open>The verdict \<open>proof_done\<close> reports.\<close>

definition proof_done :: "process_result \<Rightarrow> verdict" where
  "proof_done res = (case r_code res of
       None \<Rightarrow> TimedOut
     | Some n \<Rightarrow> if n = 20 then Unsat else if n = 10 then Sat else if n = 30 then Undetermined
                else if n = -9 then KilledByOS else UnknownCode n)"

definition prove :: "prover \<Rightarrow> string \<Rightarrow> int \<Rightarrow> string list \<Rightarrow> rat option \<Rightarrow> cond_error + process_result" where
  "prove env engine_config step props tmo =
     res_bind (prepare_aiger env step props) (\<lambda>_. Inr (run_engine env engine_config step props tmo))"

subsection \<open>\<open>explore\<close>\<close>

text \<open>The race functions are arguments, so that what does not depend on how a winner is chosen is
  proved for any race; the code uses \<open>race\<close>.\<close>

type_synonym 'a race_fun = "'a outcome list \<Rightarrow> cond_error + 'a option"

definition explore_one ::
    "prover \<Rightarrow> int \<Rightarrow> string list \<Rightarrow> rat option \<Rightarrow> string \<Rightarrow> (string \<times> process_result) outcome" where
  "explore_one env step props tmo engine_config =
     (let result = run_engine env engine_config step props tmo
      in Returns (if r_code result = Some 10 \<or> r_code result = Some 20
                  then Some (engine_config, result) else None))"

definition explore ::
    "(string \<times> process_result) race_fun \<Rightarrow> prover \<Rightarrow> int \<Rightarrow> string list \<Rightarrow> (string \<times> rat) list \<Rightarrow>
     rat option \<Rightarrow> cond_error + (string \<times> process_result) option" where
  "explore race_e env step props configs tmo =
     res_bind (prepare_aiger env step props) (\<lambda>_.
       race_e (map (\<lambda>(config, mem). explore_one env step props tmo config) configs))"

definition ENGINES :: "bool \<Rightarrow> (string \<times> rat) list" where
  "ENGINES difficult =
     (if difficult then [(''rIC3 -e kind --no-preproc'', 10)]
      else [(''rIC3'', 10), (''rIC3 -e kind --no-preproc'', 10)])"

subsection \<open>\<open>build_strategy_rec\<close>\<close>

record strategy =
  s_step :: int
  s_props :: "string list"
  s_config :: string
  s_procres :: process_result

type_synonym built = "strategy list \<times> (int \<times> string) list"

fun psize :: "ptree list \<Rightarrow> nat" where
  "psize [] = 0"
| "psize (PName n # ts) = Suc (psize ts)"
| "psize (PNode us # ts) = Suc (psize us + psize ts)"

definition rest_of :: "ptree list \<Rightarrow> string list" where
  "rest_of tree = List.map_filter (\<lambda>t. case t of PName n \<Rightarrow> Some n | PNode _ \<Rightarrow> None) tree"

text \<open>The trees \<open>with_split\<close> recurses on.\<close>

definition split_trees :: "ptree list \<Rightarrow> ptree list list" where
  "split_trees tree =
     (if children_of tree = [] then map (\<lambda>n. [PName n]) (rest_of tree)
      else children_of tree @ [map PName (rest_of tree)])"

definition to_outcome :: "cond_error + 'a option \<Rightarrow> 'a outcome" where
  "to_outcome r = (case r of Inl e \<Rightarrow> Raises e | Inr x \<Rightarrow> Returns x)"

definition without_split ::
    "(string \<times> process_result) race_fun \<Rightarrow> prover \<Rightarrow> bool \<Rightarrow> int \<Rightarrow> string list \<Rightarrow> built outcome" where
  "without_split race_e env difficult step all_props =
     to_outcome (res_bind (explore race_e env step all_props (ENGINES difficult) (Some 120)) (\<lambda>res.
       Inr (case res of
              Some (config, r) \<Rightarrow>
                if r_code r = Some 20
                then Some ([\<lparr>s_step = step, s_props = all_props, s_config = config, s_procres = r\<rparr>], [])
                else None
            | None \<Rightarrow> None)))"

definition gather :: "built list \<Rightarrow> built" where
  "gather bs = (concat (map fst bs), concat (map snd bs))"

lemma psize_append [simp]: "psize (ts @ us) = psize ts + psize us"
  by (induction ts rule: psize.induct) auto

lemma psize_names [simp]: "psize (map PName ns) = length ns"
  by (induction ns) auto

lemma split_trees_smaller:
  assumes "t \<in> set (split_trees tree)" "1 < length (find_all tree)" "length tree \<noteq> 1"
  shows "psize t < psize tree"
proof -
  have len: "length tree \<le> psize tree" by (induction tree rule: psize.induct) auto
  from assms(2) have "tree \<noteq> []" by auto
  with assms(3) have two: "1 < length tree" by (cases tree) auto
  have child: "psize us < psize tree" if "us \<in> set (children_of tree)" for us
    using that by (induction tree rule: psize.induct) (auto simp: children_of_def map_filter_simps)
  have rest: "length (rest_of tree) + length (children_of tree) \<le> psize tree"
    by (induction tree rule: psize.induct) (auto simp: children_of_def rest_of_def map_filter_simps)
  show ?thesis
  proof (cases "children_of tree = []")
    case True
    with assms(1) two len show ?thesis by (auto simp: split_trees_def)
  next
    case False
    with rest have "length (rest_of tree) < psize tree" by (cases "children_of tree") auto
    with assms(1) False child show ?thesis by (auto simp: split_trees_def)
  qed
qed

function build_strategy_rec ::
    "(string \<times> process_result) race_fun \<Rightarrow> built race_fun \<Rightarrow> prover \<Rightarrow> bool \<Rightarrow> int \<Rightarrow> ptree list \<Rightarrow>
     cond_error + built" where
  "build_strategy_rec race_e race_b env difficult step tree =
     (let all_props = find_all tree
      in if length all_props = 0 then Inr ([], [])
         else if length all_props = 1 then
           res_bind (explore race_e env step all_props (ENGINES difficult)
                       (Some (if difficult then 1800 else 600))) (\<lambda>res.
             Inr (case res of
                    Some (config, r) \<Rightarrow>
                      if r_code r = Some 20
                      then ([\<lparr>s_step = step, s_props = all_props, s_config = config, s_procres = r\<rparr>], [])
                      else ([], [])
                  | None \<Rightarrow> ([], [(step, hd all_props)])))
         else if length tree = 1 then
           (case hd tree of
              PNode t \<Rightarrow> build_strategy_rec race_e race_b env difficult step t
            | PName _ \<Rightarrow> Inl Unreachable)
         else
           res_bind (race_b
               [without_split race_e env difficult step all_props,
                to_outcome (res_bind
                  (res_map (\<lambda>t. build_strategy_rec race_e race_b env difficult step t) (split_trees tree))
                  (\<lambda>bs. Inr (Some (gather bs))))]) (\<lambda>winner.
             case winner of None \<Rightarrow> Inl AssertionError | Some b \<Rightarrow> Inr b))"
  by auto
termination
proof (relation "measure (\<lambda>(_, _, _, _, _, tree). psize tree)", goal_cases)
  case (2 _ _ _ _ _ tree all_props t)
  then show ?case by (cases tree) auto
next
  case (3 _ _ _ _ _ tree all_props t)
  then have "1 < length (find_all tree)" by (cases "length (find_all tree)") auto
  with 3 show ?case by (auto intro: split_trees_smaller)
qed simp

declare build_strategy_rec.simps [simp del]

subsection \<open>What is asked of a race\<close>

text \<open>
  A race that declares a winner declares what one of its tasks returned, and nobody wins only
  if every task returned \<open>None\<close>. This is all that the exploration relies on.
\<close>

locale racing =
  fixes race :: "'a race_fun"
  assumes winner_returned: "race tasks = Inr (Some x) \<Longrightarrow> Returns (Some x) \<in> set tasks"
    and nobody_wins: "race tasks = Inr None \<Longrightarrow> set tasks \<subseteq> {Returns None}"
begin

lemma winner_of_two:
  "race [t, u] = Inr (Some x) \<Longrightarrow> t = Returns (Some x) \<or> u = Returns (Some x)"
  using winner_returned [of "[t, u]" x] by auto

lemma winner_of_map:
  assumes "race (map f xs) = Inr (Some y)"
  obtains x where "x \<in> set xs" "f x = Returns (Some y)"
  using winner_returned [OF assms] that by (metis imageE set_map)

lemma loser_of_map:
  "race (map f xs) = Inr None \<Longrightarrow> x \<in> set xs \<Longrightarrow> f x = Returns None"
  using nobody_wins [of "map f xs"] by auto

end

lemma winners_simps [simp]:
  "winners [] = []" "winners (Raises e # ws) = winners ws"
  "winners (Returns None # ws) = winners ws" "winners (Returns (Some x) # ws) = x # winners ws"
  by (simp_all add: winners_def map_filter_simps)

lemma race_Nil [simp]: "race [] = Inr None"
  by (simp add: race_def wrappers_def)

lemma race_one [simp]:
  "race [t] = (case t of Returns r \<Rightarrow> Inr r | Raises e \<Rightarrow> Inl ExceptionGroup)"
proof (cases t)
  case (Returns r)
  then show ?thesis by (cases r) (simp_all add: race_def wrappers_def raises_def)
qed (simp add: race_def wrappers_def raises_def)

lemma race_many [simp]: "race (t # u # ts) = Inl ExceptionGroup"
proof -
  have "wrappers (t # u # ts) ! 1 = Raises CoroutineReused" "1 < length (wrappers (t # u # ts))"
    by (simp_all add: wrappers_def del: upt_Suc)
  then have "Raises CoroutineReused \<in> set (wrappers (t # u # ts))" by (metis nth_mem)
  then have "list_ex raises (wrappers (t # u # ts))" by (force simp: list_ex_iff raises_def)
  then show ?thesis by (simp add: race_def)
qed

lemma race_cases: "race ts = Inr r \<Longrightarrow> ts = [] \<and> r = None \<or> ts = [Returns r]"
  by (cases ts rule: remdups_adj.cases) (auto split: outcome.splits)

interpretation code_race: racing race
  by unfold_locales (auto dest: race_cases)

text \<open>The documented race, \<open>tasks\<close> in the order they complete: the first to return something
  wins.\<close>

fun race_documented :: "'a outcome list \<Rightarrow> cond_error + 'a option" where
  "race_documented [] = Inr None"
| "race_documented (Raises e # ts) = Inl ExceptionGroup"
| "race_documented (Returns None # ts) = race_documented ts"
| "race_documented (Returns (Some x) # ts) = Inr (Some x)"

lemma race_documented_winner: "race_documented ts = Inr (Some x) \<Longrightarrow> Returns (Some x) \<in> set ts"
  by (induction ts rule: race_documented.induct) auto

lemma race_documented_nobody: "race_documented ts = Inr None \<Longrightarrow> set ts \<subseteq> {Returns None}"
  by (induction ts rule: race_documented.induct) auto

interpretation doc_race: racing race_documented
  by unfold_locales (fact race_documented_winner race_documented_nobody)+

subsection \<open>What the exploration finds\<close>

text \<open>A strategy step is sound if the engine it names answered 20 on its properties.\<close>

definition proves :: "prover \<Rightarrow> bool \<Rightarrow> int \<Rightarrow> strategy \<Rightarrow> bool" where
  "proves env difficult step s \<longleftrightarrow> s_step s = step \<and> r_code (s_procres s) = Some 20 \<and>
     s_config s \<in> set (map fst (ENGINES difficult)) \<and>
     list_ex (\<lambda>tmo. s_procres s = run_engine env (s_config s) step (s_props s) (Some tmo)) [120, 600, 1800]"

text \<open>A property is refuted if some engine answered 10 on it alone.\<close>

definition refuted :: "prover \<Rightarrow> bool \<Rightarrow> int \<Rightarrow> string \<Rightarrow> bool" where
  "refuted env difficult step p \<longleftrightarrow>
     list_ex (\<lambda>(c, m). r_code (run_engine env c step [p] (Some (if difficult then 1800 else 600))) = Some 10)
       (ENGINES difficult)"

definition accounted :: "prover \<Rightarrow> bool \<Rightarrow> int \<Rightarrow> built \<Rightarrow> string \<Rightarrow> bool" where
  "accounted env difficult step b p \<longleftrightarrow>
     p \<in> set (concat (map s_props (fst b))) \<or> (step, p) \<in> set (snd b) \<or> refuted env difficult step p"

definition built_ok :: "prover \<Rightarrow> bool \<Rightarrow> int \<Rightarrow> string list \<Rightarrow> built \<Rightarrow> bool" where
  "built_ok env difficult step props b \<longleftrightarrow>
     list_all (proves env difficult step) (fst b) \<and>
     set (concat (map s_props (fst b))) \<subseteq> set props \<and>
     list_all (accounted env difficult step b) props"

lemma explore_winner:
  assumes "racing race_e" "explore race_e env step props configs tmo = Inr (Some (c, r))"
  shows "c \<in> set (map fst configs) \<and> r = run_engine env c step props tmo \<and>
    (r_code r = Some 10 \<or> r_code r = Some 20)"
proof -
  from assms(2) have "race_e (map (\<lambda>(config, mem). explore_one env step props tmo config) configs) = Inr (Some (c, r))"
    by (auto simp: explore_def res_bind_eq_Inr)
  then obtain x where "x \<in> set configs" "(\<lambda>(config, mem). explore_one env step props tmo config) x = Returns (Some (c, r))"
    by (rule racing.winner_of_map [OF assms(1)])
  then show ?thesis by (force simp: explore_one_def Let_def split: prod.splits if_splits)
qed

lemma to_outcome_Returns [simp]: "to_outcome m = Returns x \<longleftrightarrow> m = Inr x"
  by (cases m) (auto simp: to_outcome_def)

lemma without_split_winner:
  assumes "racing race_e" "without_split race_e env difficult step props = Returns (Some b)"
  shows "built_ok env difficult step props b"
proof -
  from assms(2) obtain c r where e: "explore race_e env step props (ENGINES difficult) (Some 120) = Inr (Some (c, r))"
    and r: "r_code r = Some 20"
    and b: "b = ([\<lparr>s_step = step, s_props = props, s_config = c, s_procres = r\<rparr>], [])"
    by (auto simp: without_split_def res_bind_eq_Inr split: option.splits if_splits)
  from explore_winner [OF assms(1) e] r show ?thesis
    by (simp add: b built_ok_def proves_def accounted_def list_all_iff)
qed

lemma find_all_children:
  "set (find_all tree) = set (rest_of tree) \<union> \<Union> (set ` find_all ` set (children_of tree))"
  by (induction tree rule: find_all.induct) (auto simp: rest_of_def children_of_def map_filter_simps)

lemma find_all_split_trees: "set (concat (map find_all (split_trees tree))) = set (find_all tree)"
  using find_all_children [of tree] by (auto simp: split_trees_def comp_def)

lemma accounted_append:
  "accounted env difficult step b p \<or> accounted env difficult step c p \<Longrightarrow>
     accounted env difficult step (fst b @ fst c, snd b @ snd c) p"
  by (auto simp: accounted_def)

lemma built_ok_append:
  assumes "built_ok env difficult step ps b" "built_ok env difficult step qs c"
  shows "built_ok env difficult step (ps @ qs) (fst b @ fst c, snd b @ snd c)"
proof -
  from assms have "list_all (accounted env difficult step (fst b @ fst c, snd b @ snd c)) (ps @ qs)"
    unfolding built_ok_def list_all_iff by (intro ballI accounted_append) auto
  with assms show ?thesis by (simp add: built_ok_def le_supI1 le_supI2)
qed

lemma gather_ok:
  assumes "list_all2 (\<lambda>t b. built_ok env difficult step (find_all t) b) ts bs"
  shows "built_ok env difficult step (concat (map find_all ts)) (gather bs)"
  using assms
proof (induction rule: list_all2_induct)
  case Nil
  then show ?case by (simp add: built_ok_def gather_def)
next
  case (Cons t ts b bs)
  then show ?case using built_ok_append by (fastforce simp: gather_def)
qed

lemma built_ok_cong: "set props = set props' \<Longrightarrow> built_ok env d step props b = built_ok env d step props' b"
  by (simp add: built_ok_def list_all_iff)

lemma one_prop_built:
  assumes "racing race_e"
    "res_bind (explore race_e env step [p] (ENGINES difficult) (Some (if difficult then 1800 else 600))) (\<lambda>res.
       Inr (case res of
              Some (config, r) \<Rightarrow>
                if r_code r = Some 20
                then ([\<lparr>s_step = step, s_props = [p], s_config = config, s_procres = r\<rparr>], [])
                else ([], [])
            | None \<Rightarrow> ([], [(step, p)]))) = Inr b"
  shows "built_ok env difficult step [p] b"
proof -
  from assms(2) obtain res where
    e: "explore race_e env step [p] (ENGINES difficult) (Some (if difficult then 1800 else 600)) = Inr res"
    and b: "b = (case res of
              Some (config, r) \<Rightarrow>
                if r_code r = Some 20
                then ([\<lparr>s_step = step, s_props = [p], s_config = config, s_procres = r\<rparr>], [])
                else ([], [])
            | None \<Rightarrow> ([], [(step, p)]))"
    by (auto simp: res_bind_eq_Inr)
  show ?thesis
  proof (cases res)
    case None
    then show ?thesis by (simp add: b built_ok_def accounted_def)
  next
    case (Some cr)
    obtain c r where cr: "cr = (c, r)" by (cases cr)
    from explore_winner [OF assms(1) e [unfolded Some cr]] show ?thesis
      by (cases difficult)
        (auto simp: b Some cr built_ok_def accounted_def proves_def refuted_def list_ex_iff)
  qed
qed

lemma built_rec_ok:
  assumes "racing race_e" "racing race_b"
    "build_strategy_rec race_e race_b env difficult step tree = Inr b"
  shows "built_ok env difficult step (find_all tree) b"
  using assms
proof (induction race_e race_b env difficult step tree arbitrary: b rule: build_strategy_rec.induct)
  case (1 race_e race_b env difficult step tree)
  note run = 1(5) [unfolded build_strategy_rec.simps [of race_e race_b env difficult step tree] Let_def]
  consider (none) "find_all tree = []" | (one) p where "find_all tree = [p]"
    | (many) "length (find_all tree) \<noteq> 0" "length (find_all tree) \<noteq> 1"
    by (metis One_nat_def length_0_conv length_Suc_conv)
  then show ?case
  proof cases
    case none
    with run show ?thesis by (auto simp: built_ok_def)
  next
    case one
    show ?thesis
      unfolding one by (rule one_prop_built [OF 1(3)]) (use run [unfolded one list.sel] in simp)
  next
    case many
    show ?thesis
    proof (cases "length tree = 1")
      case True
      with run many obtain t where t: "tree = [PNode t]"
        "build_strategy_rec race_e race_b env difficult step t = Inr b"
        by (cases tree) (auto split: ptree.splits)
      have "built_ok env difficult step (find_all t) b"
        by (rule 1(1) [OF refl _ _ _ _ 1(3,4) t(2)]) (use many t(1) in auto)
      with t(1) show ?thesis by simp
    next
      case False
      let ?subs = "res_map (\<lambda>t. build_strategy_rec race_e race_b env difficult step t) (split_trees tree)"
      from run many False have "race_b [without_split race_e env difficult step (find_all tree),
          to_outcome (res_bind ?subs (\<lambda>bs. Inr (Some (gather bs))))] = Inr (Some b)"
        by (auto simp: res_bind_eq_Inr split: option.splits)
      from racing.winner_of_two [OF 1(4) this] show ?thesis
      proof
        assume "without_split race_e env difficult step (find_all tree) = Returns (Some b)"
        with 1(3) show ?thesis by (rule without_split_winner)
      next
        assume "to_outcome (res_bind ?subs (\<lambda>bs. Inr (Some (gather bs)))) = Returns (Some b)"
        then obtain bs where bs: "?subs = Inr bs" "b = gather bs" by (auto simp: res_bind_eq_Inr)
        from bs(1) have "list_all2 (\<lambda>t b. build_strategy_rec race_e race_b env difficult step t = Inr b) (split_trees tree) bs"
          by (simp add: res_map_eq_Inr)
        then have "list_all2 (\<lambda>t b. built_ok env difficult step (find_all t) b) (split_trees tree) bs"
        proof (rule list.rel_mono_strong)
          fix t b assume "t \<in> set (split_trees tree)" "build_strategy_rec race_e race_b env difficult step t = Inr b"
          with 1(2) [OF refl _ _ False _ 1(3,4)] many show "built_ok env difficult step (find_all t) b" by simp
        qed
        from gather_ok [OF this] show ?thesis
          unfolding bs(2) by (simp only: built_ok_cong [OF find_all_split_trees])
      qed
    qed
  qed
qed

lemma built_rec_code_race:
  "(\<exists>b. build_strategy_rec race race env False step tree = Inr b) \<longleftrightarrow> find_all tree = []"
proof (induction "psize tree" arbitrary: tree rule: less_induct)
  case less
  let ?r = "race :: built race_fun" and ?e = "race :: (string \<times> process_result) race_fun"
  note run = build_strategy_rec.simps [of ?e ?r env False step tree, unfolded Let_def]
  show ?case
  proof (cases "length (find_all tree) \<le> 1")
    case True
    then consider "find_all tree = []" | p where "find_all tree = [p]"
      by (metis One_nat_def Suc_le_eq length_0_conv length_Suc_conv less_one le_neq_implies_less)
    then show ?thesis
      by cases (auto simp: run explore_def ENGINES_def res_bind_eq_Inr)
  next
    case False
    show ?thesis
    proof (cases "length tree = 1")
      case True
      with False obtain t where t: "tree = [PNode t]" by (cases tree rule: find_all.cases) auto
      then have "psize t < psize tree" by simp
      from less.hyps [OF this] False show ?thesis unfolding run by (simp add: t)
    qed (use False in \<open>auto simp: run res_bind_eq_Inr\<close>)
  qed
qed

subsection \<open>Stored strategies\<close>

text \<open>The JSON list a step is written as: its \<open>ProcessResult\<close> is a list whose last two entries,
  the outputs, may be missing in files of an older version.\<close>

type_synonym encoded =
  "int \<times> string list \<times> string \<times> (int option \<times> rat \<times> rat \<times> string \<times> string option list)"

definition encode_strategy :: "strategy \<Rightarrow> encoded" where
  "encode_strategy s = (s_step s, s_props s, s_config s,
     (r_code (s_procres s), r_max_mem (s_procres s), r_dt (s_procres s), r_reason (s_procres s),
      [r_stdout (s_procres s), r_stderr (s_procres s)]))"

definition decode_strategy :: "encoded \<Rightarrow> strategy" where
  "decode_strategy e = (case e of (step, props, config, (cd, max_mem, dt, why, outputs)) \<Rightarrow>
     \<lparr>s_step = step, s_props = props, s_config = config,
      s_procres = \<lparr>r_code = cd, r_reason = why, r_max_mem = max_mem, r_dt = dt,
        r_stdout = (if 0 < length outputs then outputs ! 0 else None),
        r_stderr = (if 1 < length outputs then outputs ! 1 else None)\<rparr>\<rparr>)"

lemma decode_encode [simp]: "decode_strategy (encode_strategy s) = s"
  by (simp add: decode_strategy_def encode_strategy_def)

datatype stored = NotFound | BadJson | Stored "encoded list"

definition load_strategy :: "bool \<Rightarrow> (int \<Rightarrow> stored) \<Rightarrow> int \<Rightarrow> strategy list option" where
  "load_strategy fresh files step =
     (if fresh then None
      else case files step of Stored es \<Rightarrow> Some (map decode_strategy es) | _ \<Rightarrow> None)"

text \<open>\<open>store_strategy\<close>: the files afterwards (\<open>writable\<close> tells whether the file can be written; the
  exception is caught) and the list that is returned, decoded again.\<close>

definition store_strategy ::
    "bool \<Rightarrow> bool \<Rightarrow> (int \<Rightarrow> stored) \<Rightarrow> int \<Rightarrow> strategy list \<Rightarrow> (int \<Rightarrow> stored) \<times> strategy list" where
  "store_strategy no_store writable files step strat =
     (let es = map encode_strategy strat
      in (if no_store \<or> \<not> writable then files else files(step := Stored es), map decode_strategy es))"

text \<open>\<open>missing_from\<close>; the set has no order, the list keeps that of \<open>props\<close>.\<close>

definition missing_from :: "strategy list \<Rightarrow> string list \<Rightarrow> string list" where
  "missing_from strat props =
     (let done = concat (map s_props strat) in remdups (filter (\<lambda>p. p \<notin> set done) props))"

subsection \<open>\<open>run_strategy\<close>\<close>

definition depth_marker :: string where
  "depth_marker = ''[INFO ] k-induction proofed in depth ''"

definition run_config :: "strategy \<Rightarrow> cond_error + string" where
  "run_config s =
     (case r_stderr (s_procres s) of
        None \<Rightarrow> Inr (s_config s)
      | Some err \<Rightarrow>
          if str_in '' -e kind '' (s_config s) then
            (case split_str depth_marker err of
               [_, depth] \<Rightarrow>
                 (case py_int 10 (py_strip depth) of
                    None \<Rightarrow> Inl ValueError
                  | Some n \<Rightarrow> Inr (s_config s @ '' --start '' @ int_str n))
             | _ \<Rightarrow> Inr (s_config s))
          else Inr (s_config s))"

definition run_strategy :: "prover \<Rightarrow> strategy list \<Rightarrow> cond_error + (process_result \<times> strategy) list" where
  "run_strategy env strat =
     (let sorted = sort_key (\<lambda>s. - r_dt (s_procres s)) strat
      in res_bind (res_map run_config sorted) (\<lambda>confs.
           res_bind (res_map (\<lambda>(conf, s). prove env conf (s_step s) (s_props s) None) (zip confs sorted))
             (\<lambda>results. Inr (zip results sorted))))"

subsection \<open>\<open>construct_strategy\<close>\<close>

record options =
  fresh :: bool
  no_store :: bool
  hard :: bool
  no_run :: bool
  by_step_opt :: bool
  check_complete :: bool
  missing :: bool
  first_step :: int
  bmc_start :: int
  bmc_step :: int
  properties :: "string list"

definition construct_strategy ::
    "prover \<Rightarrow> options \<Rightarrow> bool \<Rightarrow> (int \<Rightarrow> stored) \<Rightarrow> int \<Rightarrow> string list \<Rightarrow>
     cond_error + (int \<Rightarrow> stored) \<times> bool \<times> strategy list \<times> string list" where
  "construct_strategy env opts writable files step props =
     (let strat = (case load_strategy (fresh opts) files step of None \<Rightarrow> [] | Some s \<Rightarrow> s);
          not_done = missing_from strat props
      in if not_done = [] then Inr (files, False, strat, [])
         else
           res_bind
             (if hard opts then
                res_bind (res_map (\<lambda>prop. build_strategy_rec race race env True step [PName prop]) not_done)
                  (\<lambda>bs. Inr (gather bs))
              else
                (case split_by_prefixes not_done of
                   Inl _ \<Rightarrow> Inl SplitIndexError
                 | Inr blocks \<Rightarrow> build_strategy_rec race race env (hard opts) step blocks))
             (\<lambda>(new, failures).
                let (files', strat') = store_strategy (no_store opts) writable files step (strat @ new)
                in Inr (files', True, strat', map snd failures)))"

lemma missing_from_set: "set (missing_from strat props) = set props - set (concat (map s_props strat))"
  by (auto simp: missing_from_def Let_def)

text \<open>The one engine \<open>--hard\<close> runs on a property, and the strategy step it may become.\<close>

definition hard_run :: "prover \<Rightarrow> int \<Rightarrow> string \<Rightarrow> process_result" where
  "hard_run env step p = run_engine env ''rIC3 -e kind --no-preproc'' step [p] (Some 1800)"

definition hard_step :: "prover \<Rightarrow> int \<Rightarrow> string \<Rightarrow> strategy" where
  "hard_step env step p =
     \<lparr>s_step = step, s_props = [p], s_config = ''rIC3 -e kind --no-preproc'', s_procres = hard_run env step p\<rparr>"

lemma build_hard:
  assumes "select_code env step [p] = Some 0"
  shows "build_strategy_rec race race env True step [PName p] =
    Inr (if r_code (hard_run env step p) = Some 20 then [hard_step env step p] else [],
         if r_code (hard_run env step p) \<in> {Some 10, Some 20} then [] else [(step, p)])"
  using assms
  by (subst build_strategy_rec.simps)
    (auto simp: explore_def prepare_aiger_def ENGINES_def explore_one_def Let_def hard_step_def hard_run_def)

lemma gather_map:
  "gather (map (\<lambda>p. (if P p then [f p] else [], if Q p then [] else [g p])) ps) =
     (map f (filter P ps), map g (filter (\<lambda>p. \<not> Q p) ps))"
  by (induction ps) (auto simp: gather_def)

lemma run_strategy_pairs:
  assumes "run_strategy env strat = Inr rs"
  shows "mset (map snd rs) = mset strat \<and> sorted (map (\<lambda>rs. - r_dt (s_procres (snd rs))) rs) \<and>
    list_all (\<lambda>(r, s). \<exists>conf. run_config s = Inr conf \<and>
      r = run_engine env conf (s_step s) (s_props s) None) rs"
proof -
  let ?sorted = "sort_key (\<lambda>s. - r_dt (s_procres s)) strat"
  from assms obtain confs results where c: "res_map run_config ?sorted = Inr confs"
    and r: "res_map (\<lambda>(conf, s). prove env conf (s_step s) (s_props s) None) (zip confs ?sorted) = Inr results"
    and rs: "rs = zip results ?sorted"
    by (auto simp: run_strategy_def Let_def res_bind_eq_Inr)
  from c have c2: "list_all2 (\<lambda>s conf. run_config s = Inr conf) ?sorted confs"
    by (simp add: res_map_eq_Inr)
  from r have r2: "list_all2 (\<lambda>x r. (\<lambda>(conf, s). prove env conf (s_step s) (s_props s) None) x = Inr r)
      (zip confs ?sorted) results"
    by (simp add: res_map_eq_Inr)
  from list_all2_lengthD [OF c2] have len: "length confs = length ?sorted" by simp
  with r2 have len2: "length results = length ?sorted" by (auto dest: list_all2_lengthD)
  with rs have snd: "map snd rs = ?sorted" by simp
  moreover have "list_all (\<lambda>(r, s). \<exists>conf. run_config s = Inr conf \<and>
      r = run_engine env conf (s_step s) (s_props s) None) rs"
    unfolding list_all_length
  proof (intro allI impI)
    fix n assume "n < length rs"
    then have n: "n < length ?sorted" "n < length confs" "n < length results" using rs len len2 by auto
    from list_all2_nthD [OF c2 n(1)] have "run_config (?sorted ! n) = Inr (confs ! n)" .
    moreover from list_all2_nthD [OF r2, of n] n have
      "prove env (confs ! n) (s_step (?sorted ! n)) (s_props (?sorted ! n)) None = Inr (results ! n)"
      by simp
    then have "results ! n = run_engine env (confs ! n) (s_step (?sorted ! n)) (s_props (?sorted ! n)) None"
      by (auto simp: prove_def res_bind_eq_Inr)
    ultimately show "case rs ! n of (r, s) \<Rightarrow> \<exists>conf. run_config s = Inr conf \<and>
      r = run_engine env conf (s_step s) (s_props s) None"
      using n by (simp add: rs)
  qed
  moreover have "sorted (map (\<lambda>rs. - r_dt (s_procres (snd rs))) rs)"
  proof -
    have "map (\<lambda>rs. - r_dt (s_procres (snd rs))) rs = map (\<lambda>s. - r_dt (s_procres s)) (map snd rs)" by simp
    then show ?thesis by (simp only: snd sorted_sort_key)
  qed
  moreover have "mset (map snd rs) = mset strat" by (simp only: snd mset_sort)
  ultimately show ?thesis by blast
qed

lemma run_strategy_steps:
  "res_bind (run_strategy env strat) (\<lambda>rs. Inr (acc @ map snd rs)) =
     res_bind (res_map run_config (sort_key (\<lambda>s. - r_dt (s_procres s)) strat)) (\<lambda>_.
       res_bind (res_map (\<lambda>s. prepare_aiger env (s_step s) (s_props s)) (sort_key (\<lambda>s. - r_dt (s_procres s)) strat))
         (\<lambda>_. Inr (acc @ sort_key (\<lambda>s. - r_dt (s_procres s)) strat)))"
proof -
  let ?sorted = "sort_key (\<lambda>s. - r_dt (s_procres s)) strat"
  have run: "res_bind (res_map (\<lambda>(conf, s). prove env conf (s_step s) (s_props s) None) (zip confs ss))
        (\<lambda>results. Inr (acc @ map snd (zip results ss))) =
      res_bind (res_map (\<lambda>s. prepare_aiger env (s_step s) (s_props s)) ss) (\<lambda>_. Inr (acc @ ss))"
    if "length confs = length ss" for confs ss acc
    using that
  proof (induction confs ss arbitrary: acc rule: list_induct2)
    case Nil
    then show ?case by simp
  next
    case (Cons conf confs s ss)
    show ?case
    proof (cases "prepare_aiger env (s_step s) (s_props s)")
      case (Inr u)
      with Cons.IH [of "acc @ [s]"] show ?thesis
        by (cases "res_map (\<lambda>(conf, s). prove env conf (s_step s) (s_props s) None) (zip confs ss)";
            cases "res_map (\<lambda>s. prepare_aiger env (s_step s) (s_props s)) ss")
          (simp_all add: prove_def)
    qed (simp add: prove_def)
  qed
  show ?thesis
  proof (cases "res_map run_config ?sorted")
    case (Inr confs)
    then have "length confs = length ?sorted" by (metis list_all2_lengthD res_map_eq_Inr)
    from run [OF this] Inr show ?thesis by (simp add: run_strategy_def Let_def res_bind_assoc)
  qed (simp add: run_strategy_def Let_def)
qed

subsection \<open>Properties\<close>

text \<open>C8: Whatever a race picks among what its tasks return, the strategy built for a tree of
  properties is sound and complete: each of its steps carries an engine that answered 20 on
  exactly the step's properties, it names no other properties, and each property of the tree
  is in some step, or refuted on its own by an engine, or listed as a failure.\<close>

theorem build_strategy_sound_complete:
  assumes "racing race_e" "racing race_b"
    "build_strategy_rec race_e race_b env difficult step tree = Inr b"
  shows "list_all (proves env difficult step) (fst b) \<and>
    set (concat (map s_props (fst b))) \<subseteq> set (find_all tree) \<and>
    list_all (accounted env difficult step b) (find_all tree)"
  using built_rec_ok [OF assms] by (simp add: built_ok_def)

definition sample_prover :: prover where
  "sample_prover = \<lparr>select_code = \<lambda>_ _. Some 0, run_engine = \<lambda>_ _ _ _.
     \<lparr>r_code = Some 20, r_reason = ''OK'', r_max_mem = 1, r_dt = 2, r_stdout = None, r_stderr = None\<rparr>\<rparr>"

theorem build_strategy_sound_complete_witness:
  "\<exists>b. build_strategy_rec race_documented race_documented sample_prover False 3 [PNode [PName ''a'', PName ''b'']] = Inr b \<and>
     list_all (proves sample_prover False 3) (fst b) \<and>
     set (concat (map s_props (fst b))) \<subseteq> {''a'', ''b''} \<and>
     list_all (accounted sample_prover False 3 b) [''a'', ''b'']"
proof -
  obtain b where b: "build_strategy_rec race_documented race_documented sample_prover False 3 [PNode [PName ''a'', PName ''b'']] = Inr b"
    by (simp add: build_strategy_rec.simps without_split_def explore_def prepare_aiger_def sample_prover_def
        ENGINES_def explore_one_def Let_def to_outcome_def)
  from build_strategy_sound_complete [OF doc_race.racing_axioms doc_race.racing_axioms b] b show ?thesis by simp
qed

text \<open>C9: With the race as it is written, exploring without \<open>--hard\<close> never finds anything: two
  engines race for every property, all wrappers await the last of them, and the second to do so
  raises. Building a strategy returns only for a tree without properties.\<close>

theorem explore_without_hard_fails:
  "(\<exists>b. build_strategy_rec race race env False step tree = Inr b) \<longleftrightarrow> find_all tree = []"
  by (rule built_rec_code_race)

text \<open>C10: With \<open>--hard\<close>, where only one engine runs and no race has a second task, constructing
  the strategy of a step keeps what is stored and runs the engine once on each property no
  stored step is for: exactly those it answers 20 on become steps, with that answer; those it
  answers neither 10 nor 20 on are reported as failures; those it refutes (10) are in neither
  list. The strategy is written back unless that is switched off or fails.\<close>

theorem construct_hard_accounts:
  assumes "hard opts" "list_all (\<lambda>p. select_code env step [p] = Some 0) props"
  shows "let old = (case load_strategy (fresh opts) files step of None \<Rightarrow> [] | Some s \<Rightarrow> s);
             todo = missing_from old props;
             proved = map (\<lambda>p. \<lparr>s_step = step, s_props = [p], s_config = ''rIC3 -e kind --no-preproc'',
                                s_procres = hard_run env step p\<rparr>)
                       (filter (\<lambda>p. r_code (hard_run env step p) = Some 20) todo);
             failed = filter (\<lambda>p. r_code (hard_run env step p) \<notin> {Some 10, Some 20}) todo
         in distinct todo \<and> set todo = set props - set (concat (map s_props old)) \<and>
            construct_strategy env opts writable files step props =
              (if todo = [] then Inr (files, False, old, [])
               else Inr (if no_store opts \<or> \<not> writable then files
                         else files(step := Stored (map encode_strategy (old @ proved))),
                         True, old @ proved, failed))"
proof -
  define old where "old = (case load_strategy (fresh opts) files step of None \<Rightarrow> [] | Some s \<Rightarrow> s)"
  have "res_map (\<lambda>p. build_strategy_rec race race env True step [PName p]) (missing_from old props) =
      Inr (map (\<lambda>p. (if r_code (hard_run env step p) = Some 20 then [hard_step env step p] else [],
         if r_code (hard_run env step p) \<in> {Some 10, Some 20} then [] else [(step, p)])) (missing_from old props))"
    using assms(2) missing_from_set [of old props]
    by (intro res_map_Inr_on build_hard) (auto simp: list_all_iff)
  moreover have "distinct (missing_from old props)" by (simp add: missing_from_def Let_def)
  ultimately show ?thesis
    using assms(1) missing_from_set [of old props]
    by (simp add: construct_strategy_def Let_def gather_map store_strategy_def comp_def hard_step_def
        flip: old_def)
qed

definition sample_options :: options where
  "sample_options = \<lparr>fresh = False, no_store = True, hard = True, no_run = False, by_step_opt = False,
     check_complete = False, missing = False, first_step = 0, bmc_start = 4, bmc_step = 1, properties = []\<rparr>"

text \<open>A prover that proves \<open>a\<close>, refutes \<open>b\<close> and does not decide the others.\<close>

definition mixed_prover :: prover where
  "mixed_prover = \<lparr>select_code = \<lambda>_ _. Some 0, run_engine = \<lambda>config step props tmo.
     \<lparr>r_code = Some (if props = [''a''] then 20 else if props = [''b''] then 10 else 30),
      r_reason = ''OK'', r_max_mem = 1, r_dt = 2, r_stdout = Some (''1'' @ newline # config),
      r_stderr = None\<rparr>\<rparr>"

theorem construct_hard_accounts_witness:
  "construct_strategy mixed_prover (sample_options\<lparr>no_store := False\<rparr>) True (\<lambda>_. NotFound) 3 [''a'', ''b'', ''c''] =
   Inr ((\<lambda>_. NotFound)(3 := Stored [encode_strategy (hard_step mixed_prover 3 ''a'')]), True,
        [hard_step mixed_prover 3 ''a''], [''c''])"
proof -
  have m: "missing_from [] [''a'', ''b'', ''c''] = [''a'', ''b'', ''c'']" by (simp add: missing_from_def)
  have c: "r_code (hard_run mixed_prover 3 p) = Some (if p = ''a'' then 20 else if p = ''b'' then 10 else 30)" for p
    by (simp add: hard_run_def mixed_prover_def)
  have sel: "select_code mixed_prover step ps = Some 0" for step ps by (simp add: mixed_prover_def)
  show ?thesis
    using construct_hard_accounts [of "sample_options\<lparr>no_store := False\<rparr>" mixed_prover 3
        "[''a'', ''b'', ''c'']" "\<lambda>_. NotFound" True]
    by (simp add: sample_options_def load_strategy_def m c sel hard_step_def)
qed

text \<open>C13: Running a strategy pairs every step with the result of its own engine on its own
  properties, although the steps are first sorted, slowest first: the pairs are a permutation of
  the strategy in that order, and the configuration that ran is the one of the step, with the
  depth of an earlier k-induction as \<open>--start\<close>.\<close>

theorem run_strategy_results:
  assumes "run_strategy env strat = Inr rs"
  shows "mset (map snd rs) = mset strat \<and> sorted (map (\<lambda>rs. - r_dt (s_procres (snd rs))) rs) \<and>
    list_all (\<lambda>(r, s). \<exists>conf. run_config s = Inr conf \<and>
      r = run_engine env conf (s_step s) (s_props s) None) rs"
  by (rule run_strategy_pairs [OF assms])

definition sample_step :: "rat \<Rightarrow> strategy" where
  "sample_step dt = \<lparr>s_step = 3, s_props = [''a''], s_config = ''rIC3'', s_procres =
     \<lparr>r_code = Some 20, r_reason = ''OK'', r_max_mem = 1, r_dt = dt, r_stdout = None, r_stderr = None\<rparr>\<rparr>"

theorem run_strategy_results_witness:
  "\<exists>rs. run_strategy sample_prover [sample_step 1, sample_step 2] = Inr rs \<and>
     mset (map snd rs) = {#sample_step 1, sample_step 2#}"
proof -
  obtain rs where rs: "run_strategy sample_prover [sample_step 1, sample_step 2] = Inr rs"
    by (simp add: run_strategy_def run_config_def sample_step_def prove_def prepare_aiger_def sample_prover_def
        insort_key.simps sort_key_def)
  from run_strategy_results [OF rs] rs show ?thesis by auto
qed

end
