(* ===== verification/Conductor_Main.thy ===== *)
theory Conductor_Main
  imports Conductor_Strategy
begin

text \<open>
  The modes of \<open>dv/formal/conductor.py\<close> and its \<open>main\<close>: which properties are selected and how
  they are grouped by step, bounded model checking, the account of stored proofs, running them
  and exploring for new ones. \<open>SysExit\<close> is a call of \<open>exit\<close>. What is only logged is left out,
  except where a mode does nothing but report (\<open>info_mode\<close>).
\<close>

subsection \<open>Properties of the design\<close>

definition SKIPPED_PROPS :: "string list" where
  "SKIPPED_PROPS = [''MType_Div_Data'', ''MType_Rem_Data'', ''MType_Mul_Data'', ''MType_RemU_Data'',
     ''MType_MulH_Data'', ''MType_DivU_Data'', ''MType_MulHU_Data'', ''MType_MulHSH_Data'']"

text \<open>\<open>name.split("$")[1][5:]\<close> is \<open>Step<n>_<rest>\<close>.\<close>

definition preproc_name :: "string \<Rightarrow> cond_error + int \<times> string" where
  "preproc_name name =
     (case split_chr CHR ''$'' name of
        _ # part # _ \<Rightarrow>
          (let first = drop 5 part
           in if \<not> starts_with ''Step'' first then Inl AssertionError
              else (case split_once CHR ''_'' first of
                      None \<Rightarrow> Inl ValueError
                    | Some (step, rest) \<Rightarrow>
                        (case py_int 10 (drop 4 step) of
                           None \<Rightarrow> Inl ValueError
                         | Some n \<Rightarrow> Inr (n, rest))))
      | _ \<Rightarrow> Inl IndexErr)"

text \<open>The position a Python index denotes.\<close>

definition py_index :: "int \<Rightarrow> nat \<Rightarrow> nat option" where
  "py_index i len =
     (if 0 \<le> i \<and> i < int len then Some (nat i)
      else if i < 0 \<and> - int len \<le> i then Some (nat (int len + i)) else None)"

text \<open>\<open>while step >= len(by_step): by_step.append([])\<close>\<close>

definition pad_to :: "int \<Rightarrow> string list list \<Rightarrow> string list list" where
  "pad_to step bs = bs @ replicate (nat (step + 1) - length bs) []"

definition add_to_step :: "string list list \<Rightarrow> int \<times> string \<Rightarrow> cond_error + string list list" where
  "add_to_step bs p = (case p of (step, name) \<Rightarrow>
     let bs' = pad_to step bs
     in case py_index step (length bs') of
          None \<Rightarrow> Inl IndexErr
        | Some i \<Rightarrow> Inr (bs'[i := bs' ! i @ [name]]))"

definition group_by_step :: "(int \<times> string) list \<Rightarrow> int option \<Rightarrow> cond_error + string list list" where
  "group_by_step names mx =
     res_bind (res_fold add_to_step [] names) (\<lambda>bs.
       Inr (case mx of None \<Rightarrow> bs | Some m \<Rightarrow> pad_to m bs))"

text \<open>The properties a run is about: those named on the command line and, with \<open>--missing\<close>,
  those a stored strategy leaves out; all of them if none is named.\<close>

definition select_props ::
    "options \<Rightarrow> (int \<Rightarrow> stored) \<Rightarrow> (int \<times> string) list \<Rightarrow> cond_error + (int \<times> string) list" where
  "select_props opts files names =
     res_bind (group_by_step names None) (\<lambda>by_step.
       res_bind (res_map (\<lambda>prop. case find_first (\<lambda>sn. snd sn = prop) names of
                            None \<Rightarrow> Inl (SysExit 1)
                          | Some sn \<Rightarrow> Inr (fst sn, prop)) (properties opts)) (\<lambda>props.
         Inr (if missing opts then
                props @ concat (map (\<lambda>(step, sprops).
                  case load_strategy (fresh opts) files step of
                    None \<Rightarrow> []
                  | Some strat \<Rightarrow> map (Pair step) (missing_from strat sprops))
                  (zip (map int [0..<length by_step]) by_step))
              else if props = [] then names else props)))"

subsection \<open>Bounded model checking\<close>

definition bmc_cmd :: "int option \<Rightarrow> int option \<Rightarrow> string" where
  "bmc_cmd start_at end_at =
     ''rIC3 -e bmc --no-preproc --witness'' @
     (case start_at of None \<Rightarrow> [] | Some i \<Rightarrow> '' --start '' @ int_str i) @
     (case end_at of None \<Rightarrow> [] | Some i \<Rightarrow> '' --end '' @ int_str i)"

text \<open>The state is \<open>cex_id\<close> and the witness files written so far, by their number.\<close>

type_synonym bmc_state = "nat \<times> (nat \<times> string) list"

definition bmc ::
    "prover \<Rightarrow> bmc_state \<Rightarrow> int \<Rightarrow> string list \<Rightarrow> int option \<Rightarrow> int option \<Rightarrow> cond_error + process_result \<times> bmc_state" where
  "bmc env st step props start_at end_at =
     res_bind (prove env (bmc_cmd start_at end_at) step props None) (\<lambda>res.
       if r_code res = Some 10 then
         (case r_stdout res of
            None \<Rightarrow> Inl AssertionError
          | Some out \<Rightarrow>
              (case split_once newline out of
                 None \<Rightarrow> Inl IndexErr
               | Some (_, witness) \<Rightarrow> Inr (res, Suc (fst st), snd st @ [(fst st, witness)])))
       else Inr (res, st))"

text \<open>\<open>bmc_mode\<close>; \<open>rounds\<close> is how often the endless loop over growing depths is gone through.\<close>

definition bmc_mode :: "prover \<Rightarrow> options \<Rightarrow> nat \<Rightarrow> (int \<times> string) list \<Rightarrow> cond_error + bmc_state" where
  "bmc_mode env opts rounds props =
     (case props of
        [(step, prop)] \<Rightarrow>
          res_bind (bmc env (0, []) step [prop] (Some (bmc_start opts)) None) (\<lambda>r. Inr (snd r))
      | _ \<Rightarrow>
          res_fold (\<lambda>st (i, step, prop).
              res_bind (bmc env st step [prop] (Some i) (Some i)) (\<lambda>r. Inr (snd r)))
            (0, [])
            (if props = [] then []
             else concat (map (\<lambda>k. map (Pair (bmc_start opts + int k * bmc_step opts)) props) [0..<rounds])))"

subsection \<open>Accounts of stored proofs\<close>

text \<open>\<open>info_mode\<close>: the number of proof steps, and per step the properties no stored proof is for.\<close>

definition stored_or_empty :: "options \<Rightarrow> (int \<Rightarrow> stored) \<Rightarrow> int \<Rightarrow> strategy list" where
  "stored_or_empty opts files step =
     (case load_strategy (fresh opts) files step of None \<Rightarrow> [] | Some s \<Rightarrow> s)"

definition info_mode :: "options \<Rightarrow> (int \<Rightarrow> stored) \<Rightarrow> string list list \<Rightarrow> nat \<times> string list list" where
  "info_mode opts files by_step =
     (let strats = map (\<lambda>i. stored_or_empty opts files (int i)) [0..<length by_step]
      in (sum_list (map length strats),
          map (\<lambda>(strat, props). filter (\<lambda>p. p \<notin> set (concat (map s_props strat))) props)
            (zip strats by_step)))"

subsection \<open>\<open>prove_mode\<close> and \<open>explore_mode\<close>\<close>

definition collect_strategy ::
    "prover \<Rightarrow> options \<Rightarrow> (int \<Rightarrow> stored) \<Rightarrow> strategy list \<Rightarrow> int \<Rightarrow> cond_error + strategy list" where
  "collect_strategy env opts files acc step =
     (if step < first_step opts then Inr acc
      else let strat = stored_or_empty opts files step
        in if strat = [] then Inr acc
           else if by_step_opt opts then
             res_bind (run_strategy env strat) (\<lambda>results. Inr (acc @ map snd results))
           else Inr (acc @ strat))"

definition prove_mode ::
    "prover \<Rightarrow> options \<Rightarrow> (int \<Rightarrow> stored) \<Rightarrow> (int \<times> string) list \<Rightarrow> string list list \<Rightarrow> cond_error + unit" where
  "prove_mode env opts files all_props by_step =
     res_bind (res_fold (collect_strategy env opts files) [] (map int [0..<length by_step])) (\<lambda>all_strategies.
       if check_complete opts \<and>
          \<not> set (map snd all_props) \<subseteq> set (concat (map s_props all_strategies)) then Inl (SysExit 1)
       else if by_step_opt opts then Inr ()
       else res_bind (run_strategy env all_strategies) (\<lambda>results.
         if list_ex (\<lambda>rs. r_code (fst rs) \<noteq> Some 20) results then Inl (SysExit 1) else Inr ()))"

definition explore_step ::
    "prover \<Rightarrow> options \<Rightarrow> bool \<Rightarrow> (int \<Rightarrow> stored) \<times> string list \<Rightarrow> int \<times> string list \<Rightarrow>
     cond_error + (int \<Rightarrow> stored) \<times> string list" where
  "explore_step env opts writable st sp = (case (st, sp) of ((files, all_failures), (step, props)) \<Rightarrow>
     if step < first_step opts then Inr (files, all_failures)
     else res_bind (construct_strategy env opts writable files step props)
       (\<lambda>(files', new, strat, failures).
          if \<not> no_run opts \<and> (\<not> new \<or> length strat \<noteq> 1) then
            res_bind (run_strategy env strat) (\<lambda>_. Inr (files', all_failures @ failures))
          else Inr (files', all_failures @ failures)))"

definition explore_mode ::
    "prover \<Rightarrow> options \<Rightarrow> bool \<Rightarrow> (int \<Rightarrow> stored) \<Rightarrow> string list list \<Rightarrow>
     cond_error + (int \<Rightarrow> stored) \<times> string list" where
  "explore_mode env opts writable files by_step =
     res_fold (explore_step env opts writable) (files, []) (zip (map int [0..<length by_step]) by_step)"

subsection \<open>\<open>main\<close>\<close>

datatype mode = Bmc nat | Info | Prove | Explore

definition prepare_main ::
    "options \<Rightarrow> (int \<Rightarrow> stored) \<Rightarrow> string list \<Rightarrow>
     cond_error + (int \<times> string) list \<times> string list list \<times> string list list" where
  "prepare_main opts files asserts =
     res_bind (res_map preproc_name asserts) (\<lambda>all_names.
       if all_names = [] then Inl ValueError
       else
         let max_step = Max (set (map fst all_names));
             names = filter (\<lambda>sn. \<not> ends_with ''_Cover'' (snd sn)) all_names
         in res_bind (select_props opts files names) (\<lambda>chosen.
              let skipped = filter (\<lambda>sn. snd sn \<in> set SKIPPED_PROPS) chosen;
                  props = filter (\<lambda>sn. snd sn \<notin> set SKIPPED_PROPS) chosen
              in res_bind (group_by_step skipped (Some max_step)) (\<lambda>skipped_by_step.
                   res_bind (group_by_step props (Some max_step)) (\<lambda>by_step.
                     Inr (props, by_step, skipped_by_step)))))"

definition conductor_main ::
    "prover \<Rightarrow> options \<Rightarrow> bool \<Rightarrow> (int \<Rightarrow> stored) \<Rightarrow> mode \<Rightarrow> string list \<Rightarrow> cond_error + unit" where
  "conductor_main env opts writable files m asserts =
     res_bind (prepare_main opts files asserts) (\<lambda>(props, by_step, skipped_by_step).
       case m of
         Bmc rounds \<Rightarrow> res_bind (bmc_mode env opts rounds props) (\<lambda>_. Inr ())
       | Info \<Rightarrow> Inr ()
       | Prove \<Rightarrow> prove_mode env opts files props by_step
       | Explore \<Rightarrow> res_bind (explore_mode env opts writable files by_step) (\<lambda>_. Inr ()))"

subsection \<open>Grouping by step\<close>

definition steps_upto :: "nat \<Rightarrow> (int \<times> string) list \<Rightarrow> string list list" where
  "steps_upto n names = map (\<lambda>i. map snd (filter (\<lambda>sn. fst sn = int i) names)) [0..<n]"

definition steps_below :: "nat \<Rightarrow> (int \<times> string) list \<Rightarrow> bool" where
  "steps_below n names = list_all (\<lambda>sn. 0 \<le> fst sn \<and> fst sn < int n) names"

lemma length_steps_upto [simp]: "length (steps_upto n names) = n"
  by (simp add: steps_upto_def)

lemma pad_steps_upto:
  assumes "steps_below n names"
  shows "pad_to m (steps_upto n names) = steps_upto (max n (nat (m + 1))) names"
proof (rule nth_equalityI)
  show "length (pad_to m (steps_upto n names)) = length (steps_upto (max n (nat (m + 1))) names)"
    by (simp add: pad_to_def)
  fix i assume "i < length (pad_to m (steps_upto n names))"
  then have i: "i < max n (nat (m + 1))" by (simp add: pad_to_def split: if_splits)
  show "pad_to m (steps_upto n names) ! i = steps_upto (max n (nat (m + 1))) names ! i"
  proof (cases "i < n")
    case True
    with i show ?thesis by (simp add: pad_to_def nth_append steps_upto_def)
  next
    case False
    with assms have "filter (\<lambda>sn. fst sn = int i) names = []"
      by (auto simp: steps_below_def list_all_iff filter_empty_conv)
    with False i show ?thesis by (auto simp: pad_to_def nth_append steps_upto_def)
  qed
qed

lemma add_steps_upto:
  assumes "steps_below n names" "0 \<le> step"
  shows "add_to_step (steps_upto n names) (step, name) =
    Inr (steps_upto (max n (nat (step + 1))) (names @ [(step, name)]))"
proof -
  define k where "k = max n (nat (step + 1))"
  have "py_index step k = Some (nat step)" using assms(2) by (auto simp: py_index_def k_def)
  moreover have "(steps_upto k names)[nat step := steps_upto k names ! nat step @ [name]] =
      steps_upto k (names @ [(step, name)])"
  proof (rule nth_equalityI)
    fix i assume "i < length ((steps_upto k names)[nat step := steps_upto k names ! nat step @ [name]])"
    then have "i < k" by simp
    then show "(steps_upto k names)[nat step := steps_upto k names ! nat step @ [name]] ! i =
        steps_upto k (names @ [(step, name)]) ! i"
      using assms(2) by (cases "i = nat step") (auto simp: steps_upto_def nth_list_update)
  qed simp
  ultimately show ?thesis
    using assms(1) by (simp add: add_to_step_def Let_def pad_steps_upto flip: k_def)
qed

lemma group_fold:
  "list_all (\<lambda>sn. 0 \<le> fst sn) names \<Longrightarrow>
     \<exists>n. res_fold add_to_step [] names = Inr (steps_upto n names) \<and> steps_below n names"
proof (induction names rule: rev_induct)
  case Nil
  show ?case by (rule exI [of _ 0]) (simp add: steps_upto_def steps_below_def)
next
  case (snoc sn names)
  then obtain n where n: "res_fold add_to_step [] names = Inr (steps_upto n names)" "steps_below n names"
    by auto
  obtain step name where sn: "sn = (step, name)" by (cases sn)
  from snoc.prems have "0 \<le> step" by (simp add: sn)
  with add_steps_upto [OF n(2)] have "res_fold add_to_step [] (names @ [sn]) =
      Inr (steps_upto (max n (nat (step + 1))) (names @ [sn]))"
    by (simp add: res_fold_append n sn)
  moreover have "steps_below (max n (nat (step + 1))) (names @ [sn])"
    using n(2) \<open>0 \<le> step\<close> by (auto simp: steps_below_def list_all_iff sn)
  ultimately show ?case by blast
qed

subsection \<open>Running all stored steps\<close>

text \<open>The files of a strategy step can be prepared and its engine answers 20.\<close>

definition step_proved :: "prover \<Rightarrow> strategy \<Rightarrow> bool" where
  "step_proved env s \<longleftrightarrow> select_code env (s_step s) (s_props s) = Some 0 \<and>
     (case run_config s of
        Inl _ \<Rightarrow> False
      | Inr conf \<Rightarrow> r_code (run_engine env conf (s_step s) (s_props s) None) = Some 20)"

lemma run_steps_proved:
  "(\<exists>confs results. res_map run_config ss = Inr confs \<and>
      res_map (\<lambda>(conf, s). prove env conf (s_step s) (s_props s) None) (zip confs ss) = Inr results \<and>
      list_all (\<lambda>r. r_code r = Some 20) results) \<longleftrightarrow> list_all (step_proved env) ss"
proof (induction ss)
  case Nil
  show ?case by simp
next
  case (Cons s ss)
  show ?case
  proof (cases "run_config s")
    case (Inr conf)
    show ?thesis
    proof (cases "step_proved env s")
      case True
      then have "prove env conf (s_step s) (s_props s) None =
          Inr (run_engine env conf (s_step s) (s_props s) None)"
        "r_code (run_engine env conf (s_step s) (s_props s) None) = Some 20"
        by (simp_all add: step_proved_def Inr prove_def prepare_aiger_def)
      with Inr True show ?thesis
        unfolding list.pred_inject Cons.IH [symmetric] by (auto simp: res_bind_eq_Inr)
    next
      case False
      with Inr have "r_code r \<noteq> Some 20" if "prove env conf (s_step s) (s_props s) None = Inr r" for r
        using that by (auto simp: step_proved_def prove_def prepare_aiger_def split: if_splits)
      with Inr False show ?thesis by (auto simp: res_bind_eq_Inr)
    qed
  qed (simp add: step_proved_def)
qed

lemma list_all_zip_fst:
  "length xs = length ys \<Longrightarrow> list_all P xs = list_all (\<lambda>p. P (fst p)) (zip xs ys)"
  by (induction rule: list_induct2) auto

lemma not_list_all: "(\<not> list_all P xs) = list_ex (\<lambda>x. \<not> P x) xs"
  by (simp add: list_all_iff list_ex_iff)

lemma run_strategy_proved:
  "(\<exists>rs. run_strategy env strat = Inr rs \<and> \<not> list_ex (\<lambda>rs. r_code (fst rs) \<noteq> Some 20) rs) \<longleftrightarrow>
   list_all (step_proved env) strat"
proof -
  let ?ss = "sort_key (\<lambda>s. - r_dt (s_procres s)) strat"
  have len: "list_ex (\<lambda>rs. r_code (fst rs) \<noteq> Some 20) (zip results ?ss) =
      (\<not> list_all (\<lambda>r. r_code r = Some 20) results)"
    if "res_map run_config ?ss = Inr confs"
      "res_map (\<lambda>(conf, s). prove env conf (s_step s) (s_props s) None) (zip confs ?ss) = Inr results"
    for confs results
  proof -
    from that [unfolded res_map_eq_Inr, THEN list_all2_lengthD]
    have "length results = length ?ss" by simp
    from list_all_zip_fst [OF this, of "\<lambda>r. r_code r = Some 20"] show ?thesis
      by (simp only: not_list_all)
  qed
  have "(\<exists>rs. run_strategy env strat = Inr rs \<and> \<not> list_ex (\<lambda>rs. r_code (fst rs) \<noteq> Some 20) rs) \<longleftrightarrow>
      list_all (step_proved env) ?ss"
    unfolding run_steps_proved [symmetric]
    by (auto simp: run_strategy_def Let_def res_bind_eq_Inr len)
  then show ?thesis by (simp add: list_all_iff)
qed

lemma collect_all:
  assumes "\<not> by_step_opt opts"
  shows "res_fold (collect_strategy env opts files) acc steps =
    Inr (acc @ concat (map (stored_or_empty opts files) (filter (\<lambda>n. first_step opts \<le> n) steps)))"
proof (induction steps arbitrary: acc)
  case Nil
  then show ?case by simp
next
  case (Cons n steps)
  have "collect_strategy env opts files acc n =
      Inr (acc @ (if first_step opts \<le> n then stored_or_empty opts files n else []))"
    using assms by (auto simp: collect_strategy_def Let_def)
  then show ?case by (simp add: Cons.IH)
qed

subsection \<open>What bounded model checking writes\<close>

text \<open>The runs of a mode in their order, and the witness a run prints after its first line.\<close>

definition bmc_runs :: "options \<Rightarrow> nat \<Rightarrow> (int \<times> string) list \<Rightarrow> (string \<times> int \<times> string) list" where
  "bmc_runs opts rounds props =
     (if length props = 1 then map (Pair (bmc_cmd (Some (bmc_start opts)) None)) props
      else concat (map (\<lambda>k. let depth = bmc_start opts + int k * bmc_step opts
             in map (Pair (bmc_cmd (Some depth) (Some depth))) props) [0..<rounds]))"

definition witness_of :: "prover \<Rightarrow> string \<times> int \<times> string \<Rightarrow> string option" where
  "witness_of env = (\<lambda>(cmd, step, prop).
     let r = run_engine env cmd step [prop] None
     in if r_code r = Some 10 then Option.bind (r_stdout r) (\<lambda>out. map_option snd (split_once newline out))
        else None)"

lemma bmc_step_witness:
  "bmc env st step [prop] a b = Inr (res, st') \<Longrightarrow>
   st' = (case witness_of env (bmc_cmd a b, step, prop) of None \<Rightarrow> st
          | Some w \<Rightarrow> (Suc (fst st), snd st @ [(fst st, w)]))"
  by (auto simp: bmc_def witness_of_def prove_def prepare_aiger_def res_bind_eq_Inr
      split: if_splits option.splits)

lemma bmc_fold_witnesses:
  assumes "res_fold (\<lambda>st (i, step, prop).
      res_bind (bmc env st step [prop] (Some i) (Some i)) (\<lambda>r. Inr (snd r))) st xs = Inr st'"
  defines "found \<equiv> List.map_filter (\<lambda>(i, sp). witness_of env (bmc_cmd (Some i) (Some i), sp)) xs"
  shows "st' = (fst st + length found, snd st @ enumerate (fst st) found)"
  using assms(1) unfolding found_def
proof (induction xs arbitrary: st)
  case Nil
  then show ?case by (simp add: map_filter_simps)
next
  case (Cons x xs)
  obtain i step pr where x: "x = (i, step, pr)" by (cases x)
  from Cons.prems obtain res st1 where
    b: "bmc env st step [pr] (Some i) (Some i) = Inr (res, st1)"
    and rest: "res_fold (\<lambda>st (i, step, prop).
      res_bind (bmc env st step [prop] (Some i) (Some i)) (\<lambda>r. Inr (snd r))) st1 xs = Inr st'"
    by (auto simp: x res_bind_eq_Inr)
  show ?case
    using bmc_step_witness [OF b] Cons.IH [OF rest]
    by (cases "witness_of env (bmc_cmd (Some i) (Some i), step, pr)")
      (simp_all add: x map_filter_simps)
qed

subsection \<open>Properties\<close>

text \<open>Grouping by step, for the steps that occur (none is negative): list \<open>i\<close> of the result
  is exactly the names of step \<open>i\<close> in their order, every step has a list, and there are lists up
  to the maximum that is asked for.\<close>

theorem group_by_step_spec:
  assumes "list_all (\<lambda>sn. 0 \<le> fst sn) names"
  shows "\<exists>bs. group_by_step names mx = Inr bs \<and>
    bs = map (\<lambda>i. map snd (filter (\<lambda>sn. fst sn = int i) names)) [0..<length bs] \<and>
    list_all (\<lambda>sn. fst sn < int (length bs)) names \<and>
    (case mx of None \<Rightarrow> True | Some m \<Rightarrow> m < int (length bs))"
proof -
  from group_fold [OF assms] obtain n where
    n: "res_fold add_to_step [] names = Inr (steps_upto n names)" "steps_below n names" by blast
  define k where "k = (case mx of None \<Rightarrow> n | Some m \<Rightarrow> max n (nat (m + 1)))"
  have "group_by_step names mx = Inr (steps_upto k names)"
    using n by (cases mx) (simp_all add: group_by_step_def k_def pad_steps_upto)
  moreover have "steps_upto k names = map (\<lambda>i. map snd (filter (\<lambda>sn. fst sn = int i) names)) [0..<length (steps_upto k names)]"
    by (simp add: steps_upto_def)
  moreover have "list_all (\<lambda>sn. fst sn < int (length (steps_upto k names))) names"
    using n(2) by (cases mx) (auto simp: k_def steps_below_def list_all_iff)
  moreover have "case mx of None \<Rightarrow> True | Some m \<Rightarrow> m < int (length (steps_upto k names))"
    by (cases mx) (auto simp: k_def)
  ultimately show ?thesis by blast
qed

theorem group_by_step_spec_witness:
  "\<exists>bs. group_by_step [(2, ''a''), (0, ''b''), (2, ''c'')] (Some 3) = Inr bs \<and>
    list_all (\<lambda>sn. fst sn < int (length bs)) [(2, ''a''), (0, ''b''), (2, ''c'')] \<and> 3 < int (length bs)"
  using group_by_step_spec [of "[(2, ''a''), (0, ''b''), (2, ''c'')]" "Some 3"] by auto

text \<open>C11: \<open>prove\<close> with \<open>--check-complete\<close> and without \<open>--by-step\<close> ends without an error
  exactly when, taking the strategies stored for the steps from \<open>--start\<close> on together, every
  selected property is named by some strategy step (by its name alone: which step of the design
  the strategy step is for is not compared) and, for every strategy step, the files can be
  prepared, it has a configuration to run with, and its engine answers 20.\<close>

theorem prove_complete_exact:
  assumes "check_complete opts" "\<not> by_step_opt opts"
  shows "prove_mode env opts files all_props by_step = Inr () \<longleftrightarrow>
    (let sts = concat (map (stored_or_empty opts files)
                 (filter (\<lambda>n. first_step opts \<le> n) (map int [0..<length by_step])))
     in set (map snd all_props) \<subseteq> set (concat (map s_props sts)) \<and>
        list_all (\<lambda>s. select_code env (s_step s) (s_props s) = Some 0 \<and>
          (case run_config s of
             Inl _ \<Rightarrow> False
           | Inr conf \<Rightarrow> r_code (run_engine env conf (s_step s) (s_props s) None) = Some 20)) sts)"
proof -
  define sts where "sts = concat (map (stored_or_empty opts files)
                 (filter (\<lambda>n. first_step opts \<le> n) (map int [0..<length by_step])))"
  have "prove_mode env opts files all_props by_step = Inr () \<longleftrightarrow>
      set (map snd all_props) \<subseteq> set (concat (map s_props sts)) \<and>
      (\<exists>rs. run_strategy env sts = Inr rs \<and> \<not> list_ex (\<lambda>rs. r_code (fst rs) \<noteq> Some 20) rs)"
    using assms(1,2)
    by (auto simp: prove_mode_def collect_all [OF assms(2)] res_bind_eq_Inr split: if_splits simp flip: sts_def)
  then show ?thesis
    unfolding run_strategy_proved step_proved_def [abs_def] by (simp only: Let_def sts_def)
qed

text \<open>C14: Run step by step, \<open>prove\<close> does not look at what the engines answer: two provers that
  agree on preparing the aiger files give the same exit, so that refuted properties go unnoticed
  there.\<close>

theorem prove_by_step_blind:
  assumes "by_step_opt opts" "select_code env = select_code env'"
  shows "prove_mode env opts files all_props by_step = prove_mode env' opts files all_props by_step"
proof -
  have map_snd: "res_bind (run_strategy e strat) (\<lambda>rs. Inr (acc @ map snd rs)) =
      res_bind (res_map run_config (sort_key (\<lambda>s. - r_dt (s_procres s)) strat)) (\<lambda>_.
        res_bind (res_map (\<lambda>s. prepare_aiger e (s_step s) (s_props s)) (sort_key (\<lambda>s. - r_dt (s_procres s)) strat))
          (\<lambda>_. Inr (acc @ sort_key (\<lambda>s. - r_dt (s_procres s)) strat)))" for e strat acc
    by (rule run_strategy_steps)
  have "prepare_aiger env = prepare_aiger env'" by (intro ext) (simp add: prepare_aiger_def assms(2))
  then have "collect_strategy env opts files = collect_strategy env' opts files"
    using assms(1) by (intro ext) (simp add: collect_strategy_def map_snd Let_def)
  then show ?thesis by (simp add: prove_mode_def assms(1) cong: if_cong)
qed

definition stored_sample :: "int \<Rightarrow> stored" where
  "stored_sample step = (if step = 0 then Stored [encode_strategy (sample_step 1)] else NotFound)"

theorem prove_complete_exact_witness:
  "prove_mode sample_prover (sample_options\<lparr>check_complete := True\<rparr>) stored_sample [(0, ''a'')] [[''a'']] = Inr () \<and>
   prove_mode sample_prover (sample_options\<lparr>check_complete := True\<rparr>) stored_sample
     [(0, ''a''), (1, ''z'')] [[''a''], [''z'']] \<noteq> Inr ()"
proof -
  have stored: "stored_or_empty (sample_options\<lparr>check_complete := True\<rparr>) stored_sample n =
      (if n = 0 then [sample_step 1] else [])" for n
    by (simp add: stored_or_empty_def load_strategy_def stored_sample_def sample_options_def)
  have step: "run_config (sample_step 1) = Inr ''rIC3''" "s_props (sample_step 1) = [''a'']"
    "select_code sample_prover i ps = Some 0" "r_code (run_engine sample_prover c i ps None) = Some 20"
    for i ps c
    by (simp_all add: run_config_def sample_step_def sample_prover_def)
  have opts: "check_complete (sample_options\<lparr>check_complete := True\<rparr>)"
    "\<not> by_step_opt (sample_options\<lparr>check_complete := True\<rparr>)"
    "first_step (sample_options\<lparr>check_complete := True\<rparr>) = 0"
    by (simp_all add: sample_options_def)
  show ?thesis
    using prove_complete_exact [OF opts(1,2), of sample_prover stored_sample "[(0, ''a'')]" "[[''a'']]"]
      prove_complete_exact [OF opts(1,2), of sample_prover stored_sample "[(0, ''a''), (1, ''z'')]" "[[''a''], [''z'']]"]
    by (simp add: Let_def opts stored step)
qed

theorem prove_by_step_blind_witness:
  "prove_mode sample_prover (sample_options\<lparr>by_step_opt := True\<rparr>) stored_sample [(0, ''a'')] [[''a'']] =
   prove_mode (sample_prover\<lparr>run_engine := \<lambda>_ _ _ _. (s_procres (sample_step 1))\<lparr>r_code := Some 10\<rparr>\<rparr>)
     (sample_options\<lparr>by_step_opt := True\<rparr>) stored_sample [(0, ''a'')] [[''a'']]"
  by (rule prove_by_step_blind) (simp_all add: sample_options_def sample_prover_def)

text \<open>C15: However many rounds bounded model checking has gone through, witness file number \<open>i\<close>
  holds what the \<open>i\<close>-th run that answered 10 printed after its first line, in the order of the
  runs: no counterexample is lost or overwrites another.\<close>

theorem bmc_witnesses_numbered:
  assumes "bmc_mode env opts rounds props = Inr (k, ws)"
  shows "ws = enumerate 0 (List.map_filter (witness_of env) (bmc_runs opts rounds props)) \<and> k = length ws"
proof (cases "length props = 1")
  case True
  then obtain step pr where sp: "props = [(step, pr)]" by (auto simp: length_Suc_conv)
  with assms obtain res where
    "bmc env (0, []) step [pr] (Some (bmc_start opts)) None = Inr (res, (k, ws))"
    by (auto simp: bmc_mode_def res_bind_eq_Inr)
  from bmc_step_witness [OF this] show ?thesis
    by (auto simp: bmc_runs_def sp map_filter_simps split: option.splits)
next
  case False
  let ?xs = "concat (map (\<lambda>k. map (Pair (bmc_start opts + int k * bmc_step opts)) props) [0..<rounds])"
  have runs: "List.map_filter (\<lambda>(i, sp). witness_of env (bmc_cmd (Some i) (Some i), sp)) ?xs =
      List.map_filter (witness_of env) (bmc_runs opts rounds props)"
    using False by (simp add: bmc_runs_def List.map_filter_def filter_concat map_concat filter_map comp_def
       Let_def split_def)
  from False assms have "res_fold (\<lambda>st (i, step, prop).
      res_bind (bmc env st step [prop] (Some i) (Some i)) (\<lambda>r. Inr (snd r))) (0, [])
      (if props = [] then [] else ?xs) = Inr (k, ws)"
    by (cases props rule: remdups_adj.cases) (auto simp: bmc_mode_def)
  also have "(if props = [] then [] else ?xs) = ?xs" by simp
  finally show ?thesis by (auto dest: bmc_fold_witnesses simp: runs)
qed

theorem bmc_witnesses_numbered_witness:
  "bmc_mode mixed_prover sample_options 2 [(0, ''a''), (1, ''b'')] =
     Inr (2, [(0, bmc_cmd (Some 4) (Some 4)), (1, bmc_cmd (Some 5) (Some 5))]) \<and>
   List.map_filter (witness_of mixed_prover) (bmc_runs sample_options 2 [(0, ''a''), (1, ''b'')]) =
     [bmc_cmd (Some 4) (Some 4), bmc_cmd (Some 5) (Some 5)]"
proof -
  have r: "r_code (run_engine mixed_prover c step [''a''] None) = Some 20"
    "r_code (run_engine mixed_prover c step [''b''] None) = Some 10"
    "r_stdout (run_engine mixed_prover c step ps None) = Some (CHR ''1'' # newline # c)"
    "select_code mixed_prover step ps = Some 0"
    "split_once newline (CHR ''1'' # newline # c) = Some (''1'', c)" for c step ps
    by (simp_all add: mixed_prover_def split_once_def)
  have "bmc_mode mixed_prover sample_options 2 [(0, ''a''), (1, ''b'')] =
     Inr (2, [(0, bmc_cmd (Some 4) (Some 4)), (1, bmc_cmd (Some 5) (Some 5))])"
    by (simp add: bmc_mode_def bmc_def prove_def prepare_aiger_def r sample_options_def numeral_2_eq_2)
  moreover from arg_cong [OF conjunct1 [OF bmc_witnesses_numbered [OF this]], of "map snd"]
  have "map snd [(0::nat, bmc_cmd (Some 4) (Some 4)), (1, bmc_cmd (Some 5) (Some 5))] =
      map snd (enumerate 0 (List.map_filter (witness_of mixed_prover)
        (bmc_runs sample_options 2 [(0, ''a''), (1, ''b'')])))"
    .
  ultimately show ?thesis by simp
qed

end
