(* ===== verification/Locked_Metadata.thy ===== *)
theory Locked_Metadata
  imports Py_Base "HOL-Library.Sublist"
begin

text \<open>
  \<open>LockedMetadata\<close> of \<open>dv/uvm/core_ibex/scripts/metadata.py\<close>, by which the scripts of a
  regression, run in parallel by \<open>make\<close>, change the one metadata file. Each use of the class is
  a process with its list of operations still to do, in the order of \<open>__enter__\<close>, the body of
  the \<open>with\<close> statement and \<open>__exit__\<close>; every operation is a step of its own, and the steps of
  all processes are interleaved in any way. What the body does to its copy, up to its end or to
  the exception that leaves it (\<open>__exit__\<close> writes the copy back in both cases), is \<open>change\<close>.

  The file is opened for writing, and so emptied, before the pickle is written to it; \<open>None\<close>
  on disk is a file that is empty or not completely written. The lock belongs to the file handle:
  a process that dies of an exception in \<open>__enter__\<close> gives it back. Being killed or failing to
  write in \<open>__exit__\<close> is not modelled.
\<close>

subsection \<open>The operations of one use\<close>

datatype lock_op =
    SetAlarm | OpenFile | LockFile | LoadPickle | AlarmOff
  | Body
  | Truncate | Dump | UnlockFile | CloseFile

definition enter_ops :: "lock_op list" where
  "enter_ops = [SetAlarm, OpenFile, LockFile, LoadPickle, AlarmOff]"

definition exit_ops :: "lock_op list" where
  "exit_ops = [Truncate, Dump, UnlockFile, CloseFile]"

definition locked_use :: "lock_op list" where
  "locked_use = enter_ops @ [Body] @ exit_ops"

datatype lock_failure = TimedOutWaiting | EndOfFile

record 'a lock_state =
  on_disk :: "'a option"
  lock_holder :: "nat option"
  todo :: "nat \<Rightarrow> lock_op list"
  loaded :: "nat \<Rightarrow> 'a option"
  commits :: "nat list"
  failed :: "(nat \<times> lock_failure) list"

definition release :: "nat \<Rightarrow> 'a lock_state \<Rightarrow> 'a lock_state" where
  "release i s = s\<lparr>lock_holder := (if lock_holder s = Some i then None else lock_holder s)\<rparr>"

text \<open>An exception leaves \<open>__enter__\<close>: the process ends, and its handle is closed.\<close>

definition give_up :: "nat \<Rightarrow> lock_failure \<Rightarrow> 'a lock_state \<Rightarrow> 'a lock_state" where
  "give_up i e s = release i (s\<lparr>todo := (todo s)(i := []), failed := failed s @ [(i, e)]\<rparr>)"

text \<open>One operation of process \<open>i\<close>; \<open>None\<close> while it has to wait for the lock.\<close>

fun run_op :: "(nat \<Rightarrow> 'a \<Rightarrow> 'a) \<Rightarrow> nat \<Rightarrow> lock_op \<Rightarrow> 'a lock_state \<Rightarrow> 'a lock_state option" where
  "run_op change i SetAlarm s = Some s"
| "run_op change i OpenFile s = Some s"
| "run_op change i LockFile s =
     (if lock_holder s = None then Some (s\<lparr>lock_holder := Some i\<rparr>) else None)"
| "run_op change i LoadPickle s =
     Some (case on_disk s of
             None \<Rightarrow> give_up i EndOfFile s
           | Some md \<Rightarrow> s\<lparr>loaded := (loaded s)(i := Some md)\<rparr>)"
| "run_op change i AlarmOff s = Some s"
| "run_op change i Body s = Some (s\<lparr>loaded := (loaded s)(i := map_option (change i) (loaded s i))\<rparr>)"
| "run_op change i Truncate s = Some (s\<lparr>on_disk := None\<rparr>)"
| "run_op change i Dump s = Some (s\<lparr>on_disk := loaded s i, commits := commits s @ [i]\<rparr>)"
| "run_op change i UnlockFile s = Some (release i s)"
| "run_op change i CloseFile s = Some (release i s)"

definition next_op :: "(nat \<Rightarrow> 'a \<Rightarrow> 'a) \<Rightarrow> nat \<Rightarrow> 'a lock_state \<Rightarrow> 'a lock_state option" where
  "next_op change i s =
     (case todo s i of
        [] \<Rightarrow> None
      | op # ops \<Rightarrow> run_op change i op (s\<lparr>todo := (todo s)(i := ops)\<rparr>))"

text \<open>The alarm is set and not yet switched off.\<close>

definition armed :: "lock_op list \<Rightarrow> bool" where
  "armed ops \<longleftrightarrow> AlarmOff \<in> set ops \<and> SetAlarm \<notin> set ops"

inductive lock_step :: "(nat \<Rightarrow> 'a \<Rightarrow> 'a) \<Rightarrow> 'a lock_state \<Rightarrow> 'a lock_state \<Rightarrow> bool" for change where
  op: "next_op change i s = Some s' \<Longrightarrow> lock_step change s s'"
| alarm: "armed (todo s i) \<Longrightarrow> lock_step change s (give_up i TimedOutWaiting s)"

inductive_cases lock_stepE: "lock_step change s s'"

text \<open>The file holds \<open>md0\<close>, and \<open>n\<close> processes are about to use it.\<close>

definition lock_start :: "nat \<Rightarrow> 'a \<Rightarrow> 'a lock_state" where
  "lock_start n md0 = \<lparr>on_disk = Some md0, lock_holder = None,
     todo = (\<lambda>i. if i < n then locked_use else []), loaded = (\<lambda>_. None), commits = [], failed = []\<rparr>"

subsection \<open>The invariant\<close>

definition holding :: "lock_op list \<Rightarrow> bool" where
  "holding ops \<longleftrightarrow> UnlockFile \<in> set ops \<and> LockFile \<notin> set ops"

text \<open>What the file and the process's copy hold before an operation of the one with the lock;
  \<open>base\<close> is the metadata with all committed changes.\<close>

fun phase_ok :: "('a \<Rightarrow> 'a) \<Rightarrow> 'a \<Rightarrow> 'a option \<Rightarrow> 'a option \<Rightarrow> lock_op list \<Rightarrow> bool" where
  "phase_ok f base disk copy (LoadPickle # ops) \<longleftrightarrow> disk = Some base"
| "phase_ok f base disk copy (AlarmOff # ops) \<longleftrightarrow> disk = Some base \<and> copy = Some base"
| "phase_ok f base disk copy (Body # ops) \<longleftrightarrow> disk = Some base \<and> copy = Some base"
| "phase_ok f base disk copy (Truncate # ops) \<longleftrightarrow> disk = Some base \<and> copy = Some (f base)"
| "phase_ok f base disk copy (Dump # ops) \<longleftrightarrow> disk = None \<and> copy = Some (f base)"
| "phase_ok f base disk copy (UnlockFile # ops) \<longleftrightarrow> disk = Some base"
| "phase_ok f base disk copy ops \<longleftrightarrow> True"

definition lock_ok :: "(nat \<Rightarrow> 'a \<Rightarrow> 'a) \<Rightarrow> nat \<Rightarrow> 'a \<Rightarrow> 'a lock_state \<Rightarrow> bool" where
  "lock_ok change n md0 s \<longleftrightarrow>
     (\<forall>i. suffix (todo s i) locked_use \<and> (todo s i \<noteq> [] \<longrightarrow> i < n \<and> i \<notin> fst ` set (failed s))) \<and>
     (\<forall>i. lock_holder s = Some i \<longleftrightarrow> holding (todo s i)) \<and>
     (\<forall>i. phase_ok (change i) (fold change (commits s) md0) (on_disk s) (loaded s i) (todo s i)) \<and>
     (lock_holder s = None \<longrightarrow> on_disk s = Some (fold change (commits s) md0)) \<and>
     distinct (commits s) \<and> list_all (\<lambda>ie. snd ie = TimedOutWaiting) (failed s) \<and>
     set (commits s) = {i. i < n \<and> Dump \<notin> set (todo s i) \<and> i \<notin> fst ` set (failed s)}"

lemma locked_use_eq:
  "locked_use = [SetAlarm, OpenFile, LockFile, LoadPickle, AlarmOff, Body, Truncate, Dump, UnlockFile, CloseFile]"
  by (simp add: locked_use_def enter_ops_def exit_ops_def)

lemma start_ok: "lock_ok change n md0 (lock_start n md0)"
  by (auto simp: lock_ok_def lock_start_def locked_use_eq holding_def)

lemma lock_okD:
  assumes "lock_ok change n md0 s"
  shows "suffix (todo s i) locked_use" "todo s i \<noteq> [] \<Longrightarrow> i < n \<and> i \<notin> fst ` set (failed s)"
    "lock_holder s = Some i \<longleftrightarrow> holding (todo s i)"
    "phase_ok (change i) (fold change (commits s) md0) (on_disk s) (loaded s i) (todo s i)"
  using assms unfolding lock_ok_def by blast+

lemma idle_ok:
  "suffix ops locked_use \<Longrightarrow> \<not> holding ops \<Longrightarrow> phase_ok f b d c ops"
  by (auto simp: locked_use_eq holding_def suffix_Cons)

text \<open>The invariant of the whole state follows from what process \<open>i\<close> does: the others keep their
  operations and copies, and none of them is between \<open>lock\<close> and \<open>unlock\<close> if \<open>i\<close> is.\<close>

lemma lock_ok_frame:
  assumes ok: "lock_ok change n md0 s"
    and todo: "todo s' = (todo s)(i := ops)" "suffix ops locked_use"
    and loaded: "\<And>j. j \<noteq> i \<Longrightarrow> loaded s' j = loaded s j"
    and holder: "lock_holder s' = (if holding ops then Some i else if lock_holder s = Some i then None else lock_holder s)"
      "holding ops \<Longrightarrow> lock_holder s = None \<or> lock_holder s = Some i"
    and disk: "lock_holder s \<noteq> Some i \<Longrightarrow> on_disk s' = on_disk s \<and> commits s' = commits s"
      "lock_holder s = Some i \<Longrightarrow> \<not> holding ops \<Longrightarrow> on_disk s' = Some (fold change (commits s') md0)"
    and phase: "phase_ok (change i) (fold change (commits s') md0) (on_disk s') (loaded s' i) ops"
    and commits: "distinct (commits s')"
      "set (commits s') = {j. j < n \<and> Dump \<notin> set (todo s' j) \<and> j \<notin> fst ` set (failed s')}"
    and failed: "set (failed s') \<subseteq> set (failed s) \<union> {(i, TimedOutWaiting)}"
      "ops \<noteq> [] \<Longrightarrow> i < n \<and> i \<notin> fst ` set (failed s')"
  shows "lock_ok change n md0 s'"
proof -
  have excl: "\<not> holding (todo s j)" if "lock_holder s = Some i \<or> holding ops" "j \<noteq> i" for j
    using lock_okD(3) [OF ok, of j] holder(2) that by auto
  have holder': "lock_holder s' = Some j \<longleftrightarrow> holding (todo s' j)" for j
  proof (cases "j = i")
    case True
    then show ?thesis using holder(1) by (simp add: todo)
  next
    case False
    with excl [of j] lock_okD(3) [OF ok, of j] holder(1) show ?thesis by (auto simp: todo)
  qed
  have phase': "phase_ok (change j) (fold change (commits s') md0) (on_disk s') (loaded s' j) (todo s' j)" for j
  proof (cases "j = i")
    case True
    with phase show ?thesis by (simp add: todo)
  next
    case False
    show ?thesis
    proof (cases "lock_holder s = Some i")
      case True
      with excl [of j] False lock_okD(1) [OF ok, of j] show ?thesis by (simp add: todo idle_ok)
    next
      case holder: False
      with disk(1) loaded [OF False] False lock_okD(4) [OF ok, of j] show ?thesis by (simp add: todo)
    qed
  qed
  have free: "on_disk s' = Some (fold change (commits s') md0)" if "lock_holder s' = None"
  proof (cases "lock_holder s = Some i")
    case True
    with holder(1) that disk(2) show ?thesis by (auto split: if_splits)
  next
    case False
    with holder(1) that disk(1) ok show ?thesis by (auto simp: lock_ok_def split: if_splits)
  qed
  have failed': "j < n \<and> j \<notin> fst ` set (failed s')" if "todo s' j \<noteq> []" for j
    using that failed lock_okD(2) [OF ok, of j] by (cases "j = i") (auto simp: todo)
  have "list_all (\<lambda>ie. snd ie = TimedOutWaiting) (failed s')"
    using ok failed(1) by (auto simp: lock_ok_def list_all_iff)
  moreover have "suffix (todo s' j) locked_use" for j
    using todo lock_okD(1) [OF ok, of j] by simp
  ultimately show ?thesis
    unfolding lock_ok_def using holder' phase' free failed' commits by blast
qed

lemma next_op_ok:
  assumes "next_op change i s = Some s'" "lock_ok change n md0 s"
  shows "lock_ok change n md0 s'"
proof -
  note ok = assms(2)
  from assms(1) obtain op ops where todo: "todo s i = op # ops"
    and run: "run_op change i op (s\<lparr>todo := (todo s)(i := ops)\<rparr>) = Some s'"
    by (auto simp: next_op_def split: list.splits)
  from lock_okD [OF ok, of i] todo have i: "i < n" "i \<notin> fst ` set (failed s)"
    and suf: "suffix (op # ops) locked_use" and hold: "lock_holder s = Some i \<longleftrightarrow> holding (op # ops)"
    and phase: "phase_ok (change i) (fold change (commits s) md0) (on_disk s) (loaded s i) (op # ops)"
    by auto
  from ok have commits: "distinct (commits s)"
      "set (commits s) = {j. j < n \<and> Dump \<notin> set (todo s j) \<and> j \<notin> fst ` set (failed s)}"
    by (simp_all add: lock_ok_def)
  have commits': "{j. j < n \<and> Dump \<notin> set (((todo s)(i := ops)) j) \<and> j \<notin> fst ` set (failed s)} =
      (if op = Dump \<and> Dump \<notin> set ops then insert i (set (commits s)) else set (commits s))"
    using i todo by (auto simp: commits(2))
  from ok have free: "lock_holder s = None \<Longrightarrow> on_disk s = Some (fold change (commits s) md0)"
    by (simp add: lock_ok_def)
  have fresh: "op = Dump \<Longrightarrow> i \<notin> set (commits s)" using todo by (simp add: commits(2))
  note suffix_use = suf [unfolded locked_use_eq suffix_Cons suffix_Nil]
  note frame = lock_ok_frame [OF ok, where s' = s' and i = i and ops = ops, OF _ suffix_ConsD [OF suf]]
  from run have run': "s' = the (run_op change i op (s\<lparr>todo := (todo s)(i := ops)\<rparr>))" by simp
  show ?thesis
    by (cases op; intro frame; insert suffix_use run' run hold phase commits(1) commits' i fresh free;
        simp add: holding_def release_def subset_insertI split: if_splits)
qed

lemma give_up_ok:
  assumes "armed (todo s i)" "lock_ok change n md0 s"
  shows "lock_ok change n md0 (give_up i TimedOutWaiting s)"
proof -
  note ok = assms(2)
  from assms(1) have ne: "todo s i \<noteq> []" by (auto simp: armed_def)
  note d = lock_okD [OF ok, of i]
  from assms(1) d(1) have dump: "Dump \<in> set (todo s i)"
    by (auto simp: armed_def locked_use_eq suffix_Cons)
  from assms(1) d(1,4) have disk: "holding (todo s i) \<Longrightarrow> on_disk s = Some (fold change (commits s) md0)"
    by (auto simp: armed_def locked_use_eq suffix_Cons holding_def)
  from ok have commits: "distinct (commits s)"
      "set (commits s) = {j. j < n \<and> Dump \<notin> set (todo s j) \<and> j \<notin> fst ` set (failed s)}"
    by (simp_all add: lock_ok_def)
  show ?thesis
  proof (rule lock_ok_frame [OF ok, where i = i and ops = "[]"])
    show "set (commits (give_up i TimedOutWaiting s)) = {j. j < n \<and>
        Dump \<notin> set (todo (give_up i TimedOutWaiting s) j) \<and> j \<notin> fst ` set (failed (give_up i TimedOutWaiting s))}"
      using dump by (auto simp: give_up_def release_def commits(2))
  qed (use disk d(3) commits(1) in \<open>auto simp: give_up_def release_def holding_def\<close>)
qed

lemma lock_steps_ok: "(lock_step change)\<^sup>*\<^sup>* (lock_start n md0) s \<Longrightarrow> lock_ok change n md0 s"
  by (induction rule: rtranclp_induct) (auto intro: start_ok next_op_ok give_up_ok elim!: lock_stepE)

subsection \<open>Schedules\<close>

text \<open>Running the processes as a schedule names them; one that has to wait is passed over.\<close>

fun run_schedule :: "(nat \<Rightarrow> 'a \<Rightarrow> 'a) \<Rightarrow> nat list \<Rightarrow> 'a lock_state \<Rightarrow> 'a lock_state" where
  "run_schedule change [] s = s"
| "run_schedule change (i # is) s =
     run_schedule change is (case next_op change i s of None \<Rightarrow> s | Some s' \<Rightarrow> s')"

lemma run_schedule_steps: "(lock_step change)\<^sup>*\<^sup>* s (run_schedule change is s)"
  by (induction "is" arbitrary: s)
    (auto split: option.splits intro: converse_rtranclp_into_rtranclp lock_step.op)

subsection \<open>Properties\<close>

text \<open>C22: No update of the metadata is lost. However the operations of any number of processes
  that use the metadata are interleaved: the process that holds the lock is the only one between
  its \<open>lock\<close> and its \<open>unlock\<close>; whenever nobody holds it, the file is complete and holds the
  changes of all committed processes, applied one after another in the order of the commits;
  every process has committed once, except those that have not got that far and those whose
  alarm went off; and no process ever finds the file empty.\<close>

theorem locked_metadata_serial:
  assumes "(lock_step change)\<^sup>*\<^sup>* (lock_start n md0) s"
  shows "(lock_holder s = Some i) = (LockFile \<notin> set (todo s i) \<and> UnlockFile \<in> set (todo s i)) \<and>
    (case lock_holder s of None \<Rightarrow> on_disk s = Some (fold change (commits s) md0) | Some j \<Rightarrow> j < n) \<and>
    distinct (commits s) \<and>
    set (commits s) = {i. i < n \<and> Dump \<notin> set (todo s i) \<and> i \<notin> fst ` set (failed s)} \<and>
    list_all (\<lambda>ie. snd ie = TimedOutWaiting) (failed s)"
proof -
  note ok = lock_steps_ok [OF assms]
  have "lock_holder s = Some j \<Longrightarrow> j < n" for j
    using lock_okD(2,3) [OF ok, of j] by (cases "todo s j = []") (auto simp: holding_def)
  with ok show ?thesis by (auto simp: lock_ok_def holding_def split: option.split)
qed

text \<open>Two of three processes, interleaved; the second has to wait for the first.\<close>

definition sample_schedule :: "nat list" where
  "sample_schedule = [0, 1, 0, 1, 0, 1, 0, 0, 0, 1, 0, 0, 1, 0, 0, 1, 1, 1, 1, 1, 1, 1, 1]"

theorem locked_metadata_serial_witness:
  "commits (run_schedule (\<lambda>i ns. ns @ [i]) sample_schedule (lock_start 3 [])) = [0, 1] \<and>
   on_disk (run_schedule (\<lambda>i ns. ns @ [i]) sample_schedule (lock_start 3 [])) = Some [0, 1 :: nat]"
proof -
  let ?f = "\<lambda>i ns. ns @ [i :: nat]"
  let ?s = "run_schedule ?f sample_schedule (lock_start 3 [])"
  have run: "lock_holder ?s = None" "commits ?s = [0, 1]" by code_simp+
  have "case lock_holder ?s of None \<Rightarrow> on_disk ?s = Some (fold ?f (commits ?s) []) | Some j \<Rightarrow> j < 3"
    using locked_metadata_serial [OF run_schedule_steps, of ?f sample_schedule 3 "[]"] by blast
  then show ?thesis by (simp only: run option.case) simp
qed

end
