(* ===== verification/Shlex.thy ===== *)
theory Shlex
  imports Py_Str
begin

text \<open>
  The standard library's \<open>shlex.quote\<close> and \<open>shlex.split\<close>, through which every command line
  of the flow passes: \<open>ibex_config.py\<close> prints quoted options, \<open>riscvdv_interface.py\<close> splits
  the substituted command, \<open>scripts_lib.run_one\<close> and \<open>sv2v_in_place.py\<close> print the command
  they run. \<open>lex\<close> is the state machine of \<open>shlex.read_token\<close> in POSIX mode with
  \<open>whitespace_split\<close> and no comment characters, as \<open>split\<close> sets it up, one equation per
  state; \<open>''No closing quotation''\<close> and \<open>''No escaped character''\<close> are its two errors.

  The contract clients use is the locale \<open>argv_codec\<close>: splitting the quoted words, joined by
  blanks, gives back the words. It is interpreted on \<open>shlex_quote\<close> and \<open>shlex_split\<close>.
\<close>

subsection \<open>quote\<close>

text \<open>The characters \<open>[\w@%+=:,./-]\<close> that need no quotes.\<close>

definition shlex_safe :: "char \<Rightarrow> bool" where
  "shlex_safe c \<longleftrightarrow> is_word c \<or> c \<in> set ''@%+=:,./-''"

definition shlex_quote :: "string \<Rightarrow> string" where
  "shlex_quote s =
     (if s = [] then [CHR 0x27, CHR 0x27]
      else if list_all shlex_safe s then s
      else [CHR 0x27] @ py_replace [CHR 0x27] [CHR 0x27, CHR 0x22, CHR 0x27, CHR 0x22, CHR 0x27] s
             @ [CHR 0x27])"

subsection \<open>split\<close>

datatype shlex_error = NoClosingQuotation | NoEscapedCharacter

text \<open>
  The lexer's state: between tokens, inside a word, inside a quoted part (with the quote
  character), after a backslash (with the quote character if the backslash was read inside
  double quotes).
\<close>

datatype lex_state = LSpace | LWord | LQuote char | LEsc "char option"

definition lex_white :: "char \<Rightarrow> bool" where
  "lex_white c \<longleftrightarrow> c \<in> {CHR '' '', CHR 0x09, CHR 0x0D, CHR 0x0A}"

definition lex_quotes :: "char \<Rightarrow> bool" where
  "lex_quotes c \<longleftrightarrow> c = CHR 0x27 \<or> c = CHR 0x22"

fun lex :: "lex_state \<Rightarrow> string \<Rightarrow> bool \<Rightarrow> string \<Rightarrow> shlex_error + string list" where
  "lex LSpace tok q [] = Inr []"
| "lex LSpace tok q (c # s) =
     (if lex_white c then lex LSpace [] False s
      else if c = CHR 0x5C then lex (LEsc None) [] False s
      else if lex_quotes c then lex (LQuote c) [] False s
      else lex LWord [c] False s)"
| "lex LWord tok q [] = Inr (if tok = [] \<and> \<not> q then [] else [tok])"
| "lex LWord tok q (c # s) =
     (if lex_white c then
        (if tok = [] \<and> \<not> q then lex LSpace [] False s
         else map_sum id (Cons tok) (lex LSpace [] False s))
      else if lex_quotes c then lex (LQuote c) tok q s
      else if c = CHR 0x5C then lex (LEsc None) tok q s
      else lex LWord (tok @ [c]) q s)"
| "lex (LQuote d) tok q [] = Inl NoClosingQuotation"
| "lex (LQuote d) tok q (c # s) =
     (if c = d then lex LWord tok True s
      else if c = CHR 0x5C \<and> d = CHR 0x22 then lex (LEsc (Some d)) tok True s
      else lex (LQuote d) (tok @ [c]) True s)"
| "lex (LEsc e) tok q [] = Inl NoEscapedCharacter"
| "lex (LEsc None) tok q (c # s) = lex LWord (tok @ [c]) q s"
| "lex (LEsc (Some d)) tok q (c # s) =
     lex (LQuote d) (if c \<noteq> CHR 0x5C \<and> c \<noteq> d then tok @ [CHR 0x5C, c] else tok @ [c]) q s"

definition shlex_split :: "string \<Rightarrow> shlex_error + string list" where
  "shlex_split s = lex LSpace [] False s"

subsection \<open>The round trip\<close>

lemma safe_plain:
  "shlex_safe c \<Longrightarrow> \<not> lex_white c \<and> \<not> lex_quotes c \<and> c \<noteq> CHR 0x5C"
  by (auto simp: shlex_safe_def lex_white_def lex_quotes_def char_class)

lemma lex_safe: "list_all shlex_safe w \<Longrightarrow> lex LWord tok q (w @ s) = lex LWord (tok @ w) q s"
  by (induction w arbitrary: tok) (auto dest: safe_plain)

abbreviation requote :: "string \<Rightarrow> string" where
  "requote \<equiv> py_replace [CHR 0x27] [CHR 0x27, CHR 0x22, CHR 0x27, CHR 0x22, CHR 0x27]"

text \<open>Reading the body of a quoted word: an inner quote closes, opens double quotes, reopens.\<close>

lemma lex_requote:
  "lex (LQuote (CHR 0x27)) tok True (requote w @ CHR 0x27 # s) = lex LWord (tok @ w) True s"
proof (induction w arbitrary: tok)
  case Nil
  then show ?case by simp
next
  case (Cons c w)
  have step: "requote (c # w) =
      (if c = CHR 0x27 then [CHR 0x27, CHR 0x22, CHR 0x27, CHR 0x22, CHR 0x27] else [c]) @ requote w"
    by (simp only: py_replace_char list.map concat.simps)
  show ?case
    unfolding step
    by (cases "c = CHR 0x27")
      (simp_all add: Cons.IH lex_white_def lex_quotes_def del: py_replace.simps)
qed

lemma lex_requote_start:
  "lex (LQuote (CHR 0x27)) [] False (requote w @ CHR 0x27 # s) = lex LWord w True s"
proof (cases w)
  case Nil
  then show ?thesis by simp
next
  case (Cons c r)
  have "lex (LQuote (CHR 0x27)) [] False (requote w @ CHR 0x27 # s) =
        lex (LQuote (CHR 0x27)) [] True (requote w @ CHR 0x27 # s)"
    by (cases "c = CHR 0x27") (simp_all add: Cons)
  then show ?thesis by (simp add: lex_requote)
qed

lemma lex_quote:
  "\<exists>q. (w = [] \<longrightarrow> q) \<and> lex LSpace [] False (shlex_quote w @ s) = lex LWord w q s"
proof (cases "w \<noteq> [] \<and> list_all shlex_safe w")
  case True
  then obtain c r where w: "w = c # r" by (cases w) auto
  with True have "lex LSpace [] False (shlex_quote w @ s) = lex LWord w False s"
    using lex_safe [of r "[c]" False s]
    by (simp add: shlex_quote_def) (auto dest!: safe_plain)
  with w show ?thesis by blast
next
  case False
  then have "shlex_quote w = [CHR 0x27] @ requote w @ [CHR 0x27]"
    by (auto simp: shlex_quote_def)
  then have "lex LSpace [] False (shlex_quote w @ s) = lex LWord w True s"
    by (simp add: lex_requote_start lex_white_def lex_quotes_def del: py_replace.simps)
  then show ?thesis by blast
qed

theorem shlex_split_join: "shlex_split (py_join '' '' (map shlex_quote ws)) = Inr ws"
proof (induction ws)
  case Nil
  then show ?case by (simp add: shlex_split_def)
next
  case (Cons w ws)
  show ?case
  proof (cases ws)
    case Nil
    then show ?thesis using lex_quote [of w "[]"] by (auto simp: shlex_split_def)
  next
    case (Cons v vs)
    then show ?thesis using Cons.IH lex_quote [of w "'' '' @ py_join '' '' (map shlex_quote ws)"]
      by (auto simp: shlex_split_def lex_white_def)
  qed
qed

text \<open>A printed command line survives the \<open>strip\<close> of what was read from a process.\<close>

lemma quote_ends:
  "shlex_quote w \<noteq> [] \<and> \<not> is_space (hd (shlex_quote w)) \<and> \<not> is_space (last (shlex_quote w))"
proof -
  have "\<not> is_space c" if "shlex_safe c" for c
    using that by (auto simp: shlex_safe_def is_space_def dest: word_not_space)
  moreover have "\<not> is_space (CHR 0x27)" by (simp add: is_space_def)
  ultimately show ?thesis
    by (auto simp: shlex_quote_def list_all_iff)
qed

lemma join_hd: "ws \<noteq> [] \<Longrightarrow> hd ws \<noteq> [] \<Longrightarrow> hd (py_join sep ws) = hd (hd ws)"
  by (cases ws rule: list.exhaust; cases "tl ws") auto

lemma join_last:
  "ws \<noteq> [] \<Longrightarrow> last ws \<noteq> [] \<Longrightarrow> py_join sep ws \<noteq> [] \<and> last (py_join sep ws) = last (last ws)"
proof (induction ws)
  case Nil
  then show ?case by simp
next
  case (Cons w ws)
  then show ?case by (cases ws) auto
qed

lemma strip_line:
  assumes "s \<noteq> []" "\<not> is_space (hd s)" "\<not> is_space (last s)"
  shows "py_strip (s @ [newline]) = s"
proof -
  have "is_space newline" by (simp add: is_space_def)
  moreover have "dropWhile is_space (rev s) = rev s"
    using assms by (cases s rule: rev_cases) auto
  ultimately show ?thesis using assms(1,2)
    by (cases s) (auto simp: strip_p_def rstrip_p_def lstrip_p_def)
qed

lemma strip_quoted_line:
  "py_strip (py_join '' '' (map shlex_quote ws) @ [newline]) = py_join '' '' (map shlex_quote ws)"
proof (cases "ws = []")
  case True
  then show ?thesis by (simp add: strip_p_def rstrip_p_def lstrip_p_def is_space_def)
next
  case False
  then show ?thesis
    using join_last [of "map shlex_quote ws" "'' ''"] join_hd [of "map shlex_quote ws" "'' ''"]
      quote_ends
    by (intro strip_line) (simp_all add: hd_map last_map)
qed

subsection \<open>The interface\<close>

locale argv_codec =
  fixes quote :: "string \<Rightarrow> string"
    and split :: "string \<Rightarrow> 'e + string list"
  assumes split_quote: "split (py_join '' '' (map quote ws)) = Inr ws"
begin

lemma quote_inj: "map quote xs = map quote ys \<Longrightarrow> xs = ys"
  by (metis split_quote sum.inject(2))

lemma split_one: "split (quote w) = Inr [w]"
  using split_quote [of "[w]"] by simp

text \<open>Clients build a command line as a loop that appends the quoted words of one item at a time.\<close>

lemma split_concat_items:
  "split (py_join '' '' (concat (map (\<lambda>x. map quote (f x)) xs))) = Inr (concat (map f xs))"
  using split_quote [of "concat (map f xs)"] by (simp add: map_concat comp_def)

lemma split_map_items:
  "split (py_join '' '' (map (\<lambda>x. quote (f x)) xs)) = Inr (map f xs)"
  using split_quote [of "map f xs"] by (simp add: comp_def)

end

interpretation shx: argv_codec shlex_quote shlex_split
  by unfold_locales (rule shlex_split_join)

end
