(* ===== verification/Py_Val.thy ===== *)
theory Py_Val
  imports Py_Str
begin

text \<open>
  The values a YAML document of the flow holds once \<open>yaml.load\<close> has read it: null, booleans,
  integers, strings, lists and mappings with string keys (no document of the flow has floats
  or non-string keys). \<open>py_str\<close> and \<open>py_repr\<close> are Python's \<open>str\<close> and \<open>repr\<close> on them and
  \<open>py_eq\<close> its \<open>==\<close>, for which \<open>True == 1\<close> and \<open>False == 0\<close>.
\<close>

datatype yval =
    YNone
  | YBool bool
  | YInt int
  | YStr string
  | YList "yval list"
  | YDict "(string \<times> yval) list"

text \<open>The escapes of \<open>repr\<close> of a string, for ASCII.\<close>

definition repr_chr :: "char \<Rightarrow> char \<Rightarrow> string" where
  "repr_chr q c =
     (if c = q \<or> c = CHR 0x5C then [CHR 0x5C, c]
      else if c = CHR 0x09 then [CHR 0x5C, CHR ''t'']
      else if c = CHR 0x0A then [CHR 0x5C, CHR ''n'']
      else if c = CHR 0x0D then [CHR 0x5C, CHR ''r'']
      else if code c < 32 \<or> 127 \<le> code c
        then [CHR 0x5C, CHR ''x'', digit_chr (code c div 16), digit_chr (code c mod 16)]
      else [c])"

definition repr_str :: "string \<Rightarrow> string" where
  "repr_str s =
     (let q = (if CHR 0x27 \<in> set s \<and> CHR 0x22 \<notin> set s then CHR 0x22 else CHR 0x27)
      in [q] @ concat (map (repr_chr q) s) @ [q])"

fun py_repr :: "yval \<Rightarrow> string" where
  "py_repr YNone = ''None''"
| "py_repr (YBool b) = (if b then ''True'' else ''False'')"
| "py_repr (YInt i) = int_str i"
| "py_repr (YStr s) = repr_str s"
| "py_repr (YList xs) = ''['' @ py_join '', '' (map py_repr xs) @ '']''"
| "py_repr (YDict d) =
     ''{'' @ py_join '', '' (map (\<lambda>(k, v). repr_str k @ '': '' @ py_repr v) d) @ ''}''"

definition py_str :: "yval \<Rightarrow> string" where
  "py_str v = (case v of YStr s \<Rightarrow> s | _ \<Rightarrow> py_repr v)"

text \<open>
  \<open>==\<close> where at least one side is a boolean, an integer, a string or null, which is all the
  scripts compare; on two containers it is equality of the model's values.
\<close>

definition num_of :: "yval \<Rightarrow> int option" where
  "num_of v = (case v of YBool b \<Rightarrow> Some (if b then 1 else 0) | YInt i \<Rightarrow> Some i | _ \<Rightarrow> None)"

definition py_eq :: "yval \<Rightarrow> yval \<Rightarrow> bool" where
  "py_eq a b =
     (case num_of a of
        Some i \<Rightarrow> num_of b = Some i
      | None \<Rightarrow> num_of b = None \<and> a = b)"

lemma py_eq_refl [simp]: "py_eq a a"
  by (simp add: py_eq_def split: option.splits)

lemma py_eq_sym: "py_eq a b \<Longrightarrow> py_eq b a"
  by (auto simp: py_eq_def split: option.splits)

lemma py_eq_trans: "py_eq a b \<Longrightarrow> py_eq b c \<Longrightarrow> py_eq a c"
  by (auto simp: py_eq_def split: option.splits)

text \<open>\<open>bool(v)\<close>: the truth value.\<close>

fun py_truth :: "yval \<Rightarrow> bool" where
  "py_truth YNone = False"
| "py_truth (YBool b) = b"
| "py_truth (YInt i) = (i \<noteq> 0)"
| "py_truth (YStr s) = (s \<noteq> [])"
| "py_truth (YList xs) = (xs \<noteq> [])"
| "py_truth (YDict d) = (d \<noteq> [])"

text \<open>\<open>int(v)\<close> of a value: \<open>None\<close> where Python raises.\<close>

definition int_of_val :: "yval \<Rightarrow> int option" where
  "int_of_val v = (case v of YStr s \<Rightarrow> py_int 10 s | _ \<Rightarrow> num_of v)"

end
