(* ===== verification/Ibex_Config.thy ===== *)
theory Ibex_Config
  imports Shlex Py_Val
begin

text \<open>
  \<open>util/ibex_config.py\<close>: reading the named core configurations of \<open>ibex_configs.yaml\<close> and
  printing one of them as options for fusesoc, for a query, or for a simulator.

  State: a \<open>config\<close> is an object of class \<open>Config\<close> (its \<open>params\<close> is the dictionary it was
  built from). \<open>config_init\<close> is the constructor, \<open>configs_init\<close> that of \<open>Configs\<close>,
  \<open>parse_config\<close> the loader, and \<open>fusesoc_output\<close>, \<open>query_output\<close>, \<open>sim_output\<close> the
  \<open>output\<close> methods. The YAML library and the file system are the argument \<open>load\<close>.
\<close>

subsection \<open>Reading one configuration\<close>

datatype ftype = TBool | TStr | TInt

definition known_fields :: "(string \<times> ftype) list" where
  "known_fields =
     [(''RV32E'', TBool),
      (''RV32M'', TStr),
      (''RV32B'', TStr),
      (''RegFile'', TStr),
      (''BranchTargetALU'', TBool),
      (''WritebackStage'', TBool),
      (''ICache'', TBool),
      (''ICacheECC'', TBool),
      (''ICacheScramble'', TBool),
      (''BranchPredictor'', TBool),
      (''DbgTriggerEn'', TBool),
      (''SecureIbex'', TBool),
      (''PMPEnable'', TBool),
      (''PMPGranularity'', TInt),
      (''PMPNumRegions'', TInt),
      (''MHPMCounterNum'', TInt),
      (''MHPMCounterWidth'', TInt)]"

definition known_keys :: "string list" where
  "known_keys = map fst known_fields"

text \<open>The errors the constructor raises (all are \<open>ValueError\<close>s but \<open>NoSuchKey\<close>, a \<open>KeyError\<close>).\<close>

datatype config_error =
    ConfigNotADict
  | UnknownKeys "string list"
  | MissingKeys "string list"
  | NoSuchKey string
  | BoolOutOfRange string int
  | NotABool string yval
  | NotAnInt string yval
  | NotAString string yval

definition read_bool :: "string \<Rightarrow> (string, yval) dict \<Rightarrow> config_error + bool" where
  "read_bool fld yml =
     res_bind (res_of_option (NoSuchKey fld) (dget yml fld)) (\<lambda>val.
       case val of
         YBool b \<Rightarrow> Inr b
       | YInt i \<Rightarrow> (if 0 \<le> i \<and> i \<le> 1 then Inr (i \<noteq> 0) else Inl (BoolOutOfRange fld i))
       | _ \<Rightarrow> Inl (NotABool fld val))"

text \<open>
  \<open>read_int\<close> returns the value it read: a YAML boolean is an \<open>int\<close> for Python, so the
  attribute is a \<open>yval\<close> that holds an integer or a boolean.
\<close>

definition read_int :: "string \<Rightarrow> (string, yval) dict \<Rightarrow> config_error + yval" where
  "read_int fld yml =
     res_bind (res_of_option (NoSuchKey fld) (dget yml fld)) (\<lambda>val.
       case val of
         YInt i \<Rightarrow> Inr val
       | YBool b \<Rightarrow> Inr val
       | _ \<Rightarrow> Inl (NotAnInt fld val))"

definition read_str :: "string \<Rightarrow> (string, yval) dict \<Rightarrow> config_error + string" where
  "read_str fld yml =
     res_bind (res_of_option (NoSuchKey fld) (dget yml fld)) (\<lambda>val.
       case val of
         YStr s \<Rightarrow> Inr s
       | _ \<Rightarrow> Inl (NotAString fld val))"

record config =
  params :: "(string, yval) dict"
  rv32e :: bool
  rv32m :: string
  rv32b :: string
  reg_file :: string
  branch_target_alu :: bool
  writeback_stage :: bool
  icache :: bool
  icache_ecc :: bool
  icache_scramble :: bool
  branch_predictor :: bool
  dbg_trigger_en :: bool
  secure_ibex :: bool
  pmp_enable :: bool
  pmp_granularity :: yval
  pmp_num_regions :: yval
  mhpm_counter_num :: yval
  mhpm_counter_width :: yval

text \<open>
  The constructor. The message for missing keys prints \<open>extra_keys\<close>, as the source does.
\<close>

definition config_reads :: "(string, yval) dict \<Rightarrow> config_error + config" where
  "config_reads yml =
     res_bind (read_bool ''RV32E'' yml) (\<lambda>v_rv32e.
     res_bind (read_str ''RV32M'' yml) (\<lambda>v_rv32m.
     res_bind (read_str ''RV32B'' yml) (\<lambda>v_rv32b.
     res_bind (read_str ''RegFile'' yml) (\<lambda>v_reg_file.
     res_bind (read_bool ''BranchTargetALU'' yml) (\<lambda>v_branch_target_alu.
     res_bind (read_bool ''WritebackStage'' yml) (\<lambda>v_writeback_stage.
     res_bind (read_bool ''ICache'' yml) (\<lambda>v_icache.
     res_bind (read_bool ''ICacheECC'' yml) (\<lambda>v_icache_ecc.
     res_bind (read_bool ''ICacheScramble'' yml) (\<lambda>v_icache_scramble.
     res_bind (read_bool ''BranchPredictor'' yml) (\<lambda>v_branch_predictor.
     res_bind (read_bool ''DbgTriggerEn'' yml) (\<lambda>v_dbg_trigger_en.
     res_bind (read_bool ''SecureIbex'' yml) (\<lambda>v_secure_ibex.
     res_bind (read_bool ''PMPEnable'' yml) (\<lambda>v_pmp_enable.
     res_bind (read_int ''PMPGranularity'' yml) (\<lambda>v_pmp_granularity.
     res_bind (read_int ''PMPNumRegions'' yml) (\<lambda>v_pmp_num_regions.
     res_bind (read_int ''MHPMCounterNum'' yml) (\<lambda>v_mhpm_counter_num.
     res_bind (read_int ''MHPMCounterWidth'' yml) (\<lambda>v_mhpm_counter_width.
     Inr \<lparr>params = yml, rv32e = v_rv32e, rv32m = v_rv32m, rv32b = v_rv32b,
          reg_file = v_reg_file, branch_target_alu = v_branch_target_alu,
          writeback_stage = v_writeback_stage, icache = v_icache, icache_ecc = v_icache_ecc,
          icache_scramble = v_icache_scramble, branch_predictor = v_branch_predictor,
          dbg_trigger_en = v_dbg_trigger_en, secure_ibex = v_secure_ibex,
          pmp_enable = v_pmp_enable, pmp_granularity = v_pmp_granularity,
          pmp_num_regions = v_pmp_num_regions, mhpm_counter_num = v_mhpm_counter_num,
          mhpm_counter_width = v_mhpm_counter_width\<rparr>)))))))))))))))))"

definition config_init :: "yval \<Rightarrow> config_error + config" where
  "config_init y =
     (case y of
        YDict yml \<Rightarrow>
          (let extra_keys = filter (\<lambda>k. k \<notin> set known_keys) (dkeys yml);
               missing_keys = filter (\<lambda>k. k \<notin> set (dkeys yml)) known_keys
           in if extra_keys \<noteq> [] then Inl (UnknownKeys extra_keys)
              else if missing_keys \<noteq> [] then Inl (MissingKeys extra_keys)
              else config_reads yml)
      | _ \<Rightarrow> Inl ConfigNotADict)"

subsection \<open>Reading the file\<close>

datatype configs_error = ConfigsNotADict | InConfig string config_error

definition configs_init :: "yval \<Rightarrow> configs_error + (string, config) dict" where
  "configs_init y =
     (case y of
        YDict yml \<Rightarrow>
          res_fold (\<lambda>cfgs (cfg_name, cfg_yaml).
              case config_init cfg_yaml of
                Inl err \<Rightarrow> Inl (InConfig cfg_name err)
              | Inr c \<Rightarrow> Inr (dset cfg_name c cfgs)) [] yml
      | _ \<Rightarrow> Inl ConfigsNotADict)"

text \<open>What opening and loading a file gives: \<open>open\<close> fails, the text is no YAML, or a value.\<close>

datatype load_result = OpenFails | YamlError | Loaded yval

datatype parse_error =
    OpenError string
  | ConfigException_yaml
  | ConfigException_configs string configs_error
  | ConfigNotFound string

definition default_config_file :: string where
  "default_config_file = ''ibex_configs.yaml''"

definition get_config_file_location :: "(string, string) dict \<Rightarrow> string" where
  "get_config_file_location environ =
     (case dget environ ''IBEX_CONFIG_FILE'' of None \<Rightarrow> default_config_file | Some f \<Rightarrow> f)"

definition parse_config ::
    "(string \<Rightarrow> load_result) \<Rightarrow> string \<Rightarrow> string \<Rightarrow> parse_error + config" where
  "parse_config load config_name config_filename =
     (case load config_filename of
        OpenFails \<Rightarrow> Inl (OpenError config_filename)
      | YamlError \<Rightarrow> Inl ConfigException_yaml
      | Loaded yml \<Rightarrow>
          (case configs_init yml of
             Inl err \<Rightarrow> Inl (ConfigException_configs config_filename err)
           | Inr configs \<Rightarrow> res_of_option (ConfigNotFound config_name) (dget configs config_name)))"

subsection \<open>Printing a configuration\<close>

datatype output_error = ParamKeyError string | ParamTypeError string | IntError string

definition fusesoc_output :: "config \<Rightarrow> output_error + string" where
  "fusesoc_output c =
     res_bind
       (res_map (\<lambda>(fld, typ).
          res_bind (res_of_option (ParamKeyError fld) (dget (params c) fld)) (\<lambda>val.
            Inr (shlex_quote (''--'' @ fld @ ''='' @ py_str val))))
          known_fields)
       (\<lambda>fusesoc_cmd. Inr (py_join '' '' fusesoc_cmd))"

definition query_output :: "config \<Rightarrow> string list \<Rightarrow> string" where
  "query_output c flds =
     py_join [newline]
       (map (\<lambda>fld. case dget (params c) fld of
               Some val \<Rightarrow> fld @ ''='' @ py_str val
             | None \<Rightarrow> fld @ '' not found in config'') flds)"

record sim_opts =
  cmd_name :: string
  description :: string
  param_set_fn :: "string \<Rightarrow> string \<Rightarrow> string list"
  define_set_fn :: "string \<Rightarrow> string \<Rightarrow> string list"
  hierarchy_sep :: string

text \<open>The options one field contributes, before quoting.\<close>

definition sim_field_opts ::
    "sim_opts \<Rightarrow> config \<Rightarrow> string \<Rightarrow> string \<Rightarrow> string \<times> ftype \<Rightarrow> output_error + string list" where
  "sim_field_opts so c ins_hier_path string_define_prefix = (\<lambda>(fld, typ).
     res_bind (res_of_option (ParamKeyError fld) (dget (params c) fld)) (\<lambda>val.
       if typ = TStr then
         (case val of
            YStr s \<Rightarrow> Inr (define_set_fn so (string_define_prefix @ fld) s)
          | _ \<Rightarrow> Inl (ParamTypeError fld))
       else
         res_bind (res_of_option (IntError fld) (int_of_val val)) (\<lambda>val_as_int.
           Inr (param_set_fn so (ins_hier_path @ fld) (int_str val_as_int)))))"

definition sim_output :: "sim_opts \<Rightarrow> config \<Rightarrow> string \<Rightarrow> string \<Rightarrow> output_error + string" where
  "sim_output so c arg_ins_hier_path arg_string_define_prefix =
     (let ins_hier_path = (if arg_ins_hier_path \<noteq> [] then arg_ins_hier_path @ hierarchy_sep so else [])
      in res_bind
           (res_fold (\<lambda>opts ft.
              res_bind (sim_field_opts so c ins_hier_path arg_string_define_prefix ft) (\<lambda>new.
                Inr (opts @ map shlex_quote new))) [] known_fields)
           (\<lambda>opts. Inr (py_join '' '' opts)))"

subsection \<open>The outputters and \<open>main\<close>\<close>

datatype outputter = FusesocOpts | QueryOpts | SimOpts sim_opts

definition vcs_opts :: sim_opts where
  "vcs_opts = \<lparr>cmd_name = ''vcs_opts'', description = ''VCS compile'',
     param_set_fn = (\<lambda>p v. [''-pvalue+'' @ p @ ''='' @ v]),
     define_set_fn = (\<lambda>d v. [''+define+'' @ d @ ''='' @ v]), hierarchy_sep = ''.''\<rparr>"

definition riviera_sim_opts :: sim_opts where
  "riviera_sim_opts = \<lparr>cmd_name = ''riviera_sim_opts'', description = ''Riviera simulate'',
     param_set_fn = (\<lambda>p v. [''-g/'' @ p @ ''='' @ v]),
     define_set_fn = (\<lambda>d v. []), hierarchy_sep = ''/''\<rparr>"

definition riviera_compile_opts :: sim_opts where
  "riviera_compile_opts = \<lparr>cmd_name = ''riviera_compile_opts'', description = ''Riviera compile'',
     param_set_fn = (\<lambda>p v. []),
     define_set_fn = (\<lambda>d v. [''+define+'' @ d @ ''='' @ v]), hierarchy_sep = ''/''\<rparr>"

definition questa_sim_opts :: sim_opts where
  "questa_sim_opts = \<lparr>cmd_name = ''questa_sim_opts'', description = ''Questa simulate'',
     param_set_fn = (\<lambda>p v. [''-g/'' @ p @ ''='' @ v]),
     define_set_fn = (\<lambda>d v. []), hierarchy_sep = ''/''\<rparr>"

definition questa_compile_opts :: sim_opts where
  "questa_compile_opts = \<lparr>cmd_name = ''questa_compile_opts'', description = ''Questa compile'',
     param_set_fn = (\<lambda>p v. []),
     define_set_fn = (\<lambda>d v. [''+define+'' @ d @ ''='' @ v]), hierarchy_sep = ''/''\<rparr>"

definition xlm_opts :: sim_opts where
  "xlm_opts = \<lparr>cmd_name = ''xlm_opts'', description = ''Xcelium compile'',
     param_set_fn = (\<lambda>p v. [''-defparam'', p @ ''='' @ v]),
     define_set_fn = (\<lambda>d v. [''-define'', d @ ''='' @ v]), hierarchy_sep = ''.''\<rparr>"

definition dsim_opts :: sim_opts where
  "dsim_opts = \<lparr>cmd_name = ''dsim_opts'', description = ''DSim compile'',
     param_set_fn = (\<lambda>p v. [''-defparam'', p @ ''='' @ v]),
     define_set_fn = (\<lambda>d v. [''+define+'' @ d @ ''='' @ v]), hierarchy_sep = ''.''\<rparr>"

definition outputters :: "outputter list" where
  "outputters =
     [FusesocOpts, QueryOpts, SimOpts vcs_opts, SimOpts riviera_sim_opts,
      SimOpts riviera_compile_opts, SimOpts questa_sim_opts, SimOpts questa_compile_opts,
      SimOpts xlm_opts, SimOpts dsim_opts]"

text \<open>\<open>setup_args\<close>: the name of the subcommand each outputter registers.\<close>

fun subcommand :: "outputter \<Rightarrow> string" where
  "subcommand FusesocOpts = ''fusesoc_opts''"
| "subcommand QueryOpts = ''query_fields''"
| "subcommand (SimOpts so) = cmd_name so"

text \<open>The parsed command line.\<close>

record cli =
  cli_config_name :: string
  cli_config_filename :: string
  cli_output_type :: "string option"
  cli_fields :: "string list"
  cli_ins_hier_path :: string
  cli_string_define_prefix :: string

fun run_output :: "outputter \<Rightarrow> config \<Rightarrow> cli \<Rightarrow> output_error + string" where
  "run_output FusesocOpts c a = fusesoc_output c"
| "run_output QueryOpts c a = Inr (query_output c (cli_fields a))"
| "run_output (SimOpts so) c a = sim_output so c (cli_ins_hier_path a) (cli_string_define_prefix a)"

datatype main_error =
    NoOutputFormat
  | UnknownOutputType string
  | MainParse parse_error
  | MainOutput output_error

definition ibex_config_main :: "(string \<Rightarrow> load_result) \<Rightarrow> cli \<Rightarrow> main_error + string" where
  "ibex_config_main load a =
     (case cli_output_type a of
        None \<Rightarrow> Inl NoOutputFormat
      | Some ty \<Rightarrow>
          (case find_first (\<lambda>ou. subcommand ou = ty) outputters of
             None \<Rightarrow> Inl (UnknownOutputType ty)
           | Some ou \<Rightarrow>
               (case parse_config load (cli_config_name a) (cli_config_filename a) of
                  Inl e \<Rightarrow> Inl (MainParse e)
                | Inr c \<Rightarrow> map_sum MainOutput id (run_output ou c a))))"

text \<open>
  The command lines \<open>argparse\<close> reads, in the form the flow writes them: options with their
  full name and their value as words of their own, the file before the name, then the output
  type and its options. Words that start with \<open>-\<close> count as options. \<open>None\<close> stands
  for the usage message, after which the process exits with 2.
\<close>

definition option_like :: "string \<Rightarrow> bool" where
  "option_like w \<longleftrightarrow> starts_with ''-'' w"

fun sim_args :: "string list \<Rightarrow> cli \<Rightarrow> cli option" where
  "sim_args [] a = Some a"
| "sim_args [w] a = None"
| "sim_args (opt # v # ws) a =
     (if option_like v then None
      else if opt = ''--ins_hier_path'' then sim_args ws (a\<lparr>cli_ins_hier_path := v\<rparr>)
      else if opt = ''--string_define_prefix'' then sim_args ws (a\<lparr>cli_string_define_prefix := v\<rparr>)
      else None)"

fun sub_args :: "outputter \<Rightarrow> string list \<Rightarrow> cli \<Rightarrow> cli option" where
  "sub_args FusesocOpts ws a = (if ws = [] then Some a else None)"
| "sub_args QueryOpts ws a =
     (if ws \<noteq> [] \<and> \<not> list_ex option_like ws then Some (a\<lparr>cli_fields := ws\<rparr>) else None)"
| "sub_args (SimOpts so) ws a = sim_args ws a"

fun main_args :: "string list \<Rightarrow> cli \<Rightarrow> cli option" where
  "main_args [] a = None"
| "main_args (w # ws) a =
     (if w = ''--config_filename'' then
        (case ws of [] \<Rightarrow> None
         | v # ws' \<Rightarrow> if option_like v then None else main_args ws' (a\<lparr>cli_config_filename := v\<rparr>))
      else if option_like w then None
      else case ws of
             [] \<Rightarrow> Some (a\<lparr>cli_config_name := w\<rparr>)
           | ty # ws' \<Rightarrow>
               (case find_first (\<lambda>ou. subcommand ou = ty) outputters of
                  None \<Rightarrow> None
                | Some ou \<Rightarrow> sub_args ou ws' (a\<lparr>cli_config_name := w, cli_output_type := Some ty\<rparr>)))"

definition parse_args :: "(string, string) dict \<Rightarrow> string list \<Rightarrow> cli option" where
  "parse_args environ ws = main_args ws
     \<lparr>cli_config_name = [], cli_config_filename = get_config_file_location environ,
      cli_output_type = None, cli_fields = [], cli_ins_hier_path = [],
      cli_string_define_prefix = []\<rparr>"

text \<open>The script as a process: its exit code and what it prints on the standard output.\<close>

definition ibex_config_process ::
    "(string, string) dict \<Rightarrow> (string \<Rightarrow> load_result) \<Rightarrow> string list \<Rightarrow> int \<times> string" where
  "ibex_config_process environ load argv =
     (case parse_args environ (tl argv) of
        None \<Rightarrow> (2, [])
      | Some a \<Rightarrow>
          (case ibex_config_main load a of
             Inl NoOutputFormat \<Rightarrow> (1, ''ERROR: No output format specified.'' @ [newline])
           | Inl _ \<Rightarrow> (1, [])
           | Inr out \<Rightarrow> (0, out @ [newline])))"

subsection \<open>Lemmas: what a valid configuration holds\<close>

lemmas config_defs = config_init_def config_reads_def read_bool_def read_int_def read_str_def

text \<open>A value that the reader for a declared type accepts.\<close>

fun val_ok :: "ftype \<Rightarrow> yval \<Rightarrow> bool" where
  "val_ok TBool v = (num_of v = Some 0 \<or> num_of v = Some 1)"
| "val_ok TStr v = (case v of YStr s \<Rightarrow> True | _ \<Rightarrow> False)"
| "val_ok TInt v = (num_of v \<noteq> None)"

definition field_ok :: "(string, yval) dict \<Rightarrow> string \<times> ftype \<Rightarrow> bool" where
  "field_ok yml = (\<lambda>(fld, typ). case dget yml fld of None \<Rightarrow> False | Some v \<Rightarrow> val_ok typ v)"

text \<open>The check the reader for a declared type makes, as one function of the table's row.\<close>

fun read_check :: "(string, yval) dict \<Rightarrow> string \<times> ftype \<Rightarrow> config_error + unit" where
  "read_check yml (fld, TBool) = map_sum id (\<lambda>_. ()) (read_bool fld yml)"
| "read_check yml (fld, TStr) = map_sum id (\<lambda>_. ()) (read_str fld yml)"
| "read_check yml (fld, TInt) = map_sum id (\<lambda>_. ()) (read_int fld yml)"

lemma num_of_cases:
  "num_of v = Some i \<longleftrightarrow> v = YInt i \<or> v = YBool True \<and> i = 1 \<or> v = YBool False \<and> i = 0"
  by (cases v) (auto simp: num_of_def)

lemma read_check_Inr: "read_check yml ft = Inr u \<longleftrightarrow> field_ok yml ft"
proof (cases ft)
  case (Pair fld t)
  show ?thesis
    by (cases t; cases "dget yml fld")
      (auto simp: Pair field_ok_def read_bool_def read_str_def read_int_def num_of_def
        split: yval.splits if_splits)
qed

lemma read_check_Inl:
  assumes "read_check yml ft = Inl e"
  shows "\<not> field_ok yml ft" "e \<noteq> MissingKeys ks"
proof -
  show "\<not> field_ok yml ft"
    using assms read_check_Inr [of yml ft "()"] by auto
  obtain fld t where ft: "ft = (fld, t)" by (cases ft)
  show "e \<noteq> MissingKeys ks"
    using assms
    by (cases t; cases "dget yml fld")
      (auto simp: ft read_bool_def read_str_def read_int_def split: yval.splits if_splits)
qed

lemma config_reads_params: "config_reads yml = Inr c \<Longrightarrow> params c = yml"
  by (auto simp: config_reads_def res_bind_eq_Inr)

lemma bind_check:
  "res_bind (read_bool fld yml) f = res_bind (read_check yml (fld, TBool)) (\<lambda>_. f (projr (read_bool fld yml)))"
  "res_bind (read_str fld yml) g = res_bind (read_check yml (fld, TStr)) (\<lambda>_. g (projr (read_str fld yml)))"
  "res_bind (read_int fld yml) h = res_bind (read_check yml (fld, TInt)) (\<lambda>_. h (projr (read_int fld yml)))"
  by (simp_all add: res_bind_def split: sum.split)

text \<open>The seventeen reads of the constructor, as one traversal of the table.\<close>

definition mk_config :: "(string, yval) dict \<Rightarrow> config" where
  "mk_config yml =
     \<lparr>params = yml, rv32e = projr (read_bool ''RV32E'' yml), rv32m = projr (read_str ''RV32M'' yml),
      rv32b = projr (read_str ''RV32B'' yml), reg_file = projr (read_str ''RegFile'' yml),
      branch_target_alu = projr (read_bool ''BranchTargetALU'' yml),
      writeback_stage = projr (read_bool ''WritebackStage'' yml),
      icache = projr (read_bool ''ICache'' yml), icache_ecc = projr (read_bool ''ICacheECC'' yml),
      icache_scramble = projr (read_bool ''ICacheScramble'' yml),
      branch_predictor = projr (read_bool ''BranchPredictor'' yml),
      dbg_trigger_en = projr (read_bool ''DbgTriggerEn'' yml),
      secure_ibex = projr (read_bool ''SecureIbex'' yml),
      pmp_enable = projr (read_bool ''PMPEnable'' yml),
      pmp_granularity = projr (read_int ''PMPGranularity'' yml),
      pmp_num_regions = projr (read_int ''PMPNumRegions'' yml),
      mhpm_counter_num = projr (read_int ''MHPMCounterNum'' yml),
      mhpm_counter_width = projr (read_int ''MHPMCounterWidth'' yml)\<rparr>"

lemma config_reads_traversal:
  "config_reads yml = res_bind (res_map (read_check yml) known_fields) (\<lambda>_. Inr (mk_config yml))"
  unfolding config_reads_def known_fields_def mk_config_def
  by (simp add: bind_check res_bind_assoc del: read_check.simps)

lemma res_map_check:
  "(\<exists>us. res_map (read_check yml) fts = Inr us) \<longleftrightarrow> list_all (field_ok yml) fts"
  by (induction fts) (auto simp: res_bind_eq_Inr read_check_Inr)

lemma res_map_check_Inl:
  "res_map (read_check yml) fts = Inl e \<Longrightarrow>
   \<exists>pre ft post. fts = pre @ ft # post \<and> list_all (field_ok yml) pre \<and> read_check yml ft = Inl e"
proof (induction fts)
  case Nil
  then show ?case by simp
next
  case (Cons ft fts)
  show ?case
  proof (cases "read_check yml ft")
    case (Inl e')
    with Cons.prems show ?thesis by (intro exI [of _ "[]"]) simp
  next
    case (Inr u)
    with Cons obtain pre ft' post where
      "fts = pre @ ft' # post" "list_all (field_ok yml) pre" "read_check yml ft' = Inl e"
      by (auto simp: res_bind_eq_Inl)
    moreover from Inr have "field_ok yml ft" by (simp add: read_check_Inr)
    ultimately show ?thesis
      by (intro exI [of _ "ft # pre"] exI [of _ ft'] exI [of _ post]) simp
  qed
qed

lemma config_init_Inr:
  "config_init y = Inr c \<longleftrightarrow>
   (\<exists>yml. y = YDict yml \<and> set (dkeys yml) = set known_keys \<and>
      list_all (field_ok yml) known_fields \<and> c = mk_config yml)"
proof (cases y)
  case (YDict yml)
  have reads: "config_reads yml = Inr c \<longleftrightarrow>
      list_all (field_ok yml) known_fields \<and> c = mk_config yml"
    unfolding config_reads_traversal res_map_check [symmetric] by (auto simp: res_bind_eq_Inr)
  have keys: "set (dkeys yml) = set known_keys \<longleftrightarrow>
      filter (\<lambda>k. k \<notin> set known_keys) (dkeys yml) = [] \<and>
      filter (\<lambda>k. k \<notin> set (dkeys yml)) known_keys = []"
    unfolding filter_empty_conv by blast
  show ?thesis
    using reads by (simp add: YDict config_init_def keys Let_def del: set_map)
qed (simp_all add: config_init_def)

lemma config_init_params:
  "config_init y = Inr c \<Longrightarrow> y = YDict (params c) \<and> list_all (field_ok (params c)) known_fields"
  by (auto simp: config_init_Inr mk_config_def)

lemma field_okE:
  assumes "list_all (field_ok yml) fts" "(fld, t) \<in> set fts"
  obtains v where "dget yml fld = Some v" "val_ok t v"
  using assms by (fastforce simp: list_all_iff field_ok_def split: option.splits)

lemma val_ok_num: "val_ok t v \<Longrightarrow> t \<noteq> TStr \<Longrightarrow> int_of_val v = num_of v \<and> num_of v \<noteq> None"
  by (cases t; cases v) (auto simp: int_of_val_def num_of_def)

lemma val_ok_str: "val_ok TStr v \<Longrightarrow> v = YStr (py_str v)"
  by (auto simp: py_str_def split: yval.splits)

subsection \<open>Lemmas: the printed options\<close>

definition fusesoc_word :: "config \<Rightarrow> string \<times> ftype \<Rightarrow> string" where
  "fusesoc_word c = (\<lambda>(fld, t). ''--'' @ fld @ ''='' @ py_str (the (dget (params c) fld)))"

definition sim_words :: "sim_opts \<Rightarrow> config \<Rightarrow> string \<Rightarrow> string \<Rightarrow> string \<times> ftype \<Rightarrow> string list" where
  "sim_words so c hier prefix = (\<lambda>(fld, t).
     let v = the (dget (params c) fld) in
     if t = TStr then define_set_fn so (prefix @ fld) (py_str v)
     else param_set_fn so (hier @ fld) (int_str (the (num_of v))))"

lemma fusesoc_output_words:
  assumes "list_all (field_ok (params c)) known_fields"
  shows "fusesoc_output c = Inr (py_join '' '' (map (\<lambda>ft. shlex_quote (fusesoc_word c ft)) known_fields))"
proof -
  have "res_map (\<lambda>(fld, typ).
          res_bind (res_of_option (ParamKeyError fld) (dget (params c) fld)) (\<lambda>val.
            Inr (shlex_quote (''--'' @ fld @ ''='' @ py_str val)))) known_fields =
        Inr (map (\<lambda>ft. shlex_quote (fusesoc_word c ft)) known_fields)"
  proof (rule res_map_Inr_on)
    fix ft assume ft: "ft \<in> set known_fields"
    obtain fld t where "ft = (fld, t)" by (cases ft)
    moreover from this ft assms obtain v where "dget (params c) fld = Some v"
      by (auto elim: field_okE)
    ultimately show "(case ft of (fld, typ) \<Rightarrow>
          res_bind (res_of_option (ParamKeyError fld) (dget (params c) fld)) (\<lambda>val.
            Inr (shlex_quote (''--'' @ fld @ ''='' @ py_str val)))) =
        Inr (shlex_quote (fusesoc_word c ft))"
      by (simp add: fusesoc_word_def)
  qed
  then show ?thesis by (simp add: fusesoc_output_def)
qed

lemma sim_field_opts_ok:
  assumes "list_all (field_ok (params c)) known_fields" "ft \<in> set known_fields"
  shows "sim_field_opts so c hier prefix ft = Inr (sim_words so c hier prefix ft)"
proof -
  obtain fld t where ft: "ft = (fld, t)" by (cases ft)
  with assms obtain v where v: "dget (params c) fld = Some v" "val_ok t v"
    by (auto elim: field_okE)
  show ?thesis
  proof (cases "t = TStr")
    case True
    with v have "v = YStr (py_str v)" by (simp add: val_ok_str del: val_ok.simps)
    then obtain s where "v = YStr s" by blast
    then show ?thesis by (simp add: ft sim_field_opts_def sim_words_def v True py_str_def)
  next
    case False
    with v(2) have "int_of_val v = num_of v" "num_of v \<noteq> None"
      by (auto dest: val_ok_num)
    then show ?thesis using False by (auto simp: ft sim_field_opts_def sim_words_def v)
  qed
qed

lemma res_fold_quote:
  assumes "\<And>ft. ft \<in> set fts \<Longrightarrow> f ft = Inr (g ft)"
  shows "res_fold (\<lambda>opts ft. res_bind (f ft) (\<lambda>new. Inr (opts @ map q new))) acc fts =
         Inr (acc @ concat (map (\<lambda>ft. map q (g ft)) fts))"
  using assms by (induction fts arbitrary: acc) auto

lemma sim_output_words:
  assumes "list_all (field_ok (params c)) known_fields"
  shows "sim_output so c ihp prefix =
         Inr (py_join '' '' (concat (map (\<lambda>ft. map shlex_quote
           (sim_words so c (if ihp = [] then [] else ihp @ hierarchy_sep so) prefix ft)) known_fields)))"
  using assms by (simp add: sim_output_def Let_def sim_field_opts_ok res_fold_quote)

lemma configs_fold:
  "res_fold (\<lambda>cfgs (cfg_name, cfg_yaml).
      case config_init cfg_yaml of Inl err \<Rightarrow> Inl (InConfig cfg_name err)
        | Inr c \<Rightarrow> Inr (dset cfg_name c cfgs)) acc yml = Inr cfgs \<longleftrightarrow>
   list_all (\<lambda>(n, y). \<exists>c. config_init y = Inr c) yml \<and>
   cfgs = fold (\<lambda>(n, y). dset n (projr (config_init y))) yml acc"
proof (induction yml arbitrary: acc)
  case Nil
  then show ?case by auto
next
  case (Cons p yml)
  obtain k y where p: "p = (k, y)" by (cases p)
  show ?case by (cases "config_init y") (simp_all add: p Cons.IH)
qed

lemma dget_configs_fold:
  "distinct (dkeys yml) \<Longrightarrow>
   dget (fold (\<lambda>(n, y). dset n (projr (config_init y))) yml acc) n =
   (case dget yml n of None \<Rightarrow> dget acc n | Some y \<Rightarrow> Some (projr (config_init y)))"
proof (induction yml arbitrary: acc)
  case Nil
  then show ?case by simp
next
  case (Cons p yml)
  obtain k y where p: "p = (k, y)" by (cases p)
  with Cons.prems have "dget yml k = None" by (simp add: map_of_eq_None_iff)
  with Cons p show ?case by (auto split: option.splits)
qed

lemma parse_config_valid:
  assumes "parse_config load n f = Inr c"
  shows "\<exists>y. config_init y = Inr c"
proof -
  have fold: "dget (fold (\<lambda>(n, y). dset n (projr (config_init y))) yml acc) n = Some c \<Longrightarrow>
      dget acc n = Some c \<or> (\<exists>(k, y) \<in> set yml. projr (config_init y) = c)" for yml acc
  proof (induction yml arbitrary: acc)
    case Nil
    then show ?case by simp
  next
    case (Cons p yml)
    obtain k y where p: "p = (k, y)" by (cases p)
    from Cons.prems Cons.IH [of "dset k (projr (config_init y)) acc"]
    show ?case by (auto simp: p split: if_splits)
  qed
  from assms obtain y cfgs where "configs_init y = Inr cfgs" "dget cfgs n = Some c"
    by (auto simp: parse_config_def split: load_result.splits sum.splits option.splits)
  then show ?thesis
    by (cases y) (auto simp: configs_init_def configs_fold list_all_iff dest!: fold, fastforce)
qed

subsection \<open>Properties\<close>

text \<open>The entry \<open>small\<close> of \<open>ibex_configs.yaml\<close>, the concrete configuration of the witnesses.\<close>

definition small_config :: "(string, yval) dict" where
  "small_config =
     [(''RV32E'', YInt 0), (''RV32M'', YStr ''ibex_pkg::RV32MFast''),
      (''RV32B'', YStr ''ibex_pkg::RV32BNone''), (''RegFile'', YStr ''ibex_pkg::RegFileFF''),
      (''BranchTargetALU'', YInt 0), (''WritebackStage'', YInt 0), (''ICache'', YInt 0),
      (''ICacheECC'', YInt 0), (''ICacheScramble'', YInt 0), (''BranchPredictor'', YInt 0),
      (''DbgTriggerEn'', YInt 0), (''SecureIbex'', YInt 0), (''PMPEnable'', YInt 0),
      (''PMPGranularity'', YInt 0), (''PMPNumRegions'', YInt 4), (''MHPMCounterNum'', YInt 0),
      (''MHPMCounterWidth'', YInt 40)]"

lemma small_config_ok: "config_init (YDict small_config) = Inr (mk_config small_config)"
  unfolding config_init_Inr
  by (auto simp: small_config_def known_keys_def known_fields_def field_ok_def num_of_def)

lemma parse_config_single:
  "config_init y = Inr c \<Longrightarrow> parse_config (\<lambda>_. Loaded (YDict [(n, y)])) n f = Inr c"
  by (simp add: parse_config_def configs_init_def)

text \<open>C28: A configuration object is built from a YAML value exactly when the value is a mapping
  whose keys are the known fields, no more and no fewer, and every field holds a value of its
  declared type (a boolean field a boolean or 0/1, an integer field an integer, a string field
  a string).\<close>

theorem config_init_accepts_iff:
  "(\<exists>c. config_init y = Inr c) \<longleftrightarrow>
   (\<exists>yml. y = YDict yml \<and> set (dkeys yml) = set known_keys \<and> list_all (field_ok yml) known_fields)"
  unfolding config_init_Inr by blast

text \<open>When the keys are right but a value is ill-typed, the error is the one the reader of
  the first ill-typed field in the table's order raises: every field before it is well typed.\<close>

theorem config_init_first_bad_field:
  assumes "set (dkeys yml) = set known_keys" "config_init (YDict yml) = Inl e"
  shows "\<exists>pre ft post. known_fields = pre @ ft # post \<and> list_all (field_ok yml) pre \<and>
           \<not> field_ok yml ft \<and> read_check yml ft = Inl e"
proof -
  from assms have "config_reads yml = Inl e"
    by (auto simp: config_init_def Let_def filter_empty_conv simp del: set_map split: if_splits)
  then have "res_map (read_check yml) known_fields = Inl e"
    by (simp add: config_reads_traversal res_bind_eq_Inl)
  then obtain pre ft post where *: "known_fields = pre @ ft # post" "list_all (field_ok yml) pre"
    "read_check yml ft = Inl e" by (blast dest: res_map_check_Inl)
  moreover from *(3) have "\<not> field_ok yml ft" by (rule read_check_Inl)
  ultimately show ?thesis by blast
qed

theorem config_init_first_bad_field_witness:
  "\<exists>pre ft post. known_fields = pre @ ft # post \<and>
     list_all (field_ok (dset ''ICache'' (YInt 2) small_config)) pre \<and>
     \<not> field_ok (dset ''ICache'' (YInt 2) small_config) ft \<and>
     read_check (dset ''ICache'' (YInt 2) small_config) ft = Inl (BoolOutOfRange ''ICache'' 2)"
  by (rule config_init_first_bad_field)
    (auto simp: small_config_def known_keys_def known_fields_def config_defs Let_def)

text \<open>The error for a configuration with missing keys never names them: the list it carries
  is always empty, although some known key is missing.\<close>

theorem missing_keys_reported_empty:
  assumes "config_init y = Inl (MissingKeys ks)"
  shows "ks = [] \<and> (\<exists>yml k. y = YDict yml \<and> k \<in> set known_keys \<and> k \<notin> set (dkeys yml))"
  using assms
  by (auto simp: config_init_def Let_def config_reads_traversal res_bind_eq_Inl filter_empty_conv
      split: yval.splits if_splits dest!: res_map_check_Inl dest: read_check_Inl)

theorem missing_keys_reported_empty_witness:
  "([]::string list) = [] \<and>
   (\<exists>yml k. YDict [(''RV32E'', YInt 0)] = YDict yml \<and> k \<in> set known_keys \<and> k \<notin> set (dkeys yml))"
  by (rule missing_keys_reported_empty)
    (simp add: config_init_def Let_def known_keys_def known_fields_def)

text \<open>C29: The line printed for fusesoc is a faithful command line: splitting it as a shell does
  gives one option \<open>--FIELD=VALUE\<close> per known field, in the table's order, whatever characters
  the values hold.\<close>

theorem fusesoc_output_roundtrip:
  assumes "config_init y = Inr c"
  shows "\<exists>out. fusesoc_output c = Inr out \<and>
           shlex_split out = Inr (map (fusesoc_word c) known_fields)"
  using config_init_params [OF assms]
  by (simp add: fusesoc_output_words shx.split_map_items)

theorem fusesoc_output_roundtrip_witness:
  "\<exists>out. fusesoc_output (mk_config small_config) = Inr out \<and>
     shlex_split out = Inr (map (fusesoc_word (mk_config small_config)) known_fields)"
  by (rule fusesoc_output_roundtrip [OF small_config_ok])

text \<open>C30: The line printed for a simulator splits back into exactly the words the simulator's
  own functions make of each field: string fields through the define function under the
  prefixed name, the others through the parameter function under the hierarchical name with
  the value as an integer.\<close>

theorem sim_output_roundtrip:
  assumes "config_init y = Inr c"
  shows "\<exists>out. sim_output so c ihp prefix = Inr out \<and>
           shlex_split out = Inr (concat (map
             (sim_words so c (if ihp = [] then [] else ihp @ hierarchy_sep so) prefix) known_fields))"
  using config_init_params [OF assms]
  by (simp add: sim_output_words shx.split_concat_items)

theorem sim_output_roundtrip_witness:
  "\<exists>out. sim_output xlm_opts (mk_config small_config) ''tb.dut'' ''CFG_'' = Inr out \<and>
     shlex_split out = Inr (concat (map
       (sim_words xlm_opts (mk_config small_config)
          (if ''tb.dut'' = [] then [] else ''tb.dut'' @ hierarchy_sep xlm_opts) ''CFG_'') known_fields))"
  by (rule sim_output_roundtrip [OF small_config_ok])

text \<open>C31: Loading a named configuration succeeds exactly when every configuration of the file is
  valid and the named one is among them, and the result is that one: a single bad entry makes
  the whole file unusable.\<close>

theorem parse_config_iff:
  assumes "load f = Loaded (YDict yml)" "distinct (dkeys yml)"
  shows "parse_config load n f = Inr c \<longleftrightarrow>
         list_all (\<lambda>(k, y). \<exists>c'. config_init y = Inr c') yml \<and>
         (\<exists>y. dget yml n = Some y \<and> config_init y = Inr c)"
proof -
  have cfg: "configs_init (YDict yml) = Inr cfgs \<longleftrightarrow>
      list_all (\<lambda>(n, y). \<exists>c. config_init y = Inr c) yml \<and>
      cfgs = fold (\<lambda>(n, y). dset n (projr (config_init y))) yml []" for cfgs
    by (simp add: configs_init_def configs_fold)
  have val: "\<exists>c. config_init y = Inr c"
    if "list_all (\<lambda>(k, y). \<exists>c'. config_init y = Inr c') yml" "dget yml n = Some y" for y
    using that by (fastforce simp: list_all_iff dest: map_of_SomeD)
  have "parse_config load n f = Inr c \<longleftrightarrow>
      (\<exists>cfgs. configs_init (YDict yml) = Inr cfgs \<and> dget cfgs n = Some c)"
    by (auto simp: parse_config_def assms(1) split: sum.split)
  also have "\<dots> \<longleftrightarrow> list_all (\<lambda>(n, y). \<exists>c. config_init y = Inr c) yml \<and>
      (\<exists>y. dget yml n = Some y \<and> projr (config_init y) = c)"
    by (auto simp: cfg dget_configs_fold [OF assms(2)] split: option.splits)
  finally show ?thesis using val by auto
qed

theorem parse_config_iff_witness:
  "parse_config (\<lambda>f. Loaded (YDict [(''small'', YDict small_config)])) ''small'' ''f.yaml'' =
     Inr (mk_config small_config) \<longleftrightarrow>
   list_all (\<lambda>(k, y). \<exists>c'. config_init y = Inr c') [(''small'', YDict small_config)] \<and>
   (\<exists>y. dget [(''small'', YDict small_config)] ''small'' = Some y \<and>
      config_init y = Inr (mk_config small_config))"
  by (rule parse_config_iff) simp_all

end
