(* ===== verification/Ibex_Cmd.thy ===== *)
theory Ibex_Cmd
  imports Ibex_Config
begin

text \<open>
  \<open>dv/uvm/core_ibex/scripts/ibex_cmd.py\<close>: the simulator options of a configuration, the ISA
  strings of a configuration, and the filtering of the test lists by configuration.

  The subprocess that runs \<open>ibex_config.py\<close> is the argument \<open>run\<close>: it gives the exit code
  and the standard output of the command it is handed.
\<close>

subsection \<open>Simulator options\<close>

text \<open>For each simulator, (needs\_compile\_opts, needs\_sim\_opts).\<close>

definition SIM_CFGS :: "(string \<times> bool \<times> bool) list" where
  "SIM_CFGS =
     [(''vcs'', True, False), (''riviera'', True, True), (''questa'', True, True),
      (''xlm'', True, False), (''dsim'', True, False)]"

datatype cmd_error =
    GenError string
  | UnsupportedSimulator string
  | StageAssertion string
  | UnknownRV32B string
  | ParamNotFound string
  | RtlParamsNotADict
  | ParamNotIterable string
  | TestNameMissing

text \<open>\<open>_IBEX_ROOT/'util'/'ibex_config.py'\<close> and its arguments.\<close>

definition ibex_config_cmd :: "string \<Rightarrow> string \<Rightarrow> string \<Rightarrow> string list" where
  "ibex_config_cmd ibex_root config_name output_type =
     [ibex_root @ ''/util/ibex_config.py'',
      ''--config_filename'', ibex_root @ ''/ibex_configs.yaml'',
      config_name,
      output_type,
      ''--ins_hier_path'', ''core_ibex_tb_top'',
      ''--string_define_prefix'', ''IBEX_CFG_'']"

definition run_ibex_config ::
    "(string list \<Rightarrow> int \<times> string) \<Rightarrow> string \<Rightarrow> string \<Rightarrow> string \<Rightarrow> cmd_error + string" where
  "run_ibex_config run ibex_root config_name output_type =
     (let (returncode, stdout) = run (ibex_config_cmd ibex_root config_name output_type)
      in if returncode \<noteq> 0 then Inl (GenError stdout) else Inr (py_strip stdout))"

text \<open>Which subcommand of \<open>ibex_config.py\<close> a simulator and stage need: \<open>None\<close> when none.\<close>

definition x_opts_type :: "string \<Rightarrow> string \<Rightarrow> cmd_error + string option" where
  "x_opts_type simulator stage =
     (case dget SIM_CFGS simulator of
        None \<Rightarrow> Inl (UnsupportedSimulator simulator)
      | Some (needs_compile_opts, needs_sim_opts) \<Rightarrow>
          (let specify_which_opts = needs_compile_opts \<and> needs_sim_opts
           in if stage \<noteq> ''compile'' \<and> stage \<noteq> ''sim'' then Inl (StageAssertion stage)
              else let needs_opts = (if stage = ''compile'' then needs_compile_opts else needs_sim_opts)
                in if \<not> needs_opts then Inr None
                   else Inr (Some (if specify_which_opts then simulator @ ''_'' @ stage @ ''_opts''
                                   else simulator @ ''_opts''))))"

definition get_x_opts ::
    "(string list \<Rightarrow> int \<times> string) \<Rightarrow> string \<Rightarrow> string \<Rightarrow> string \<Rightarrow> string \<Rightarrow> cmd_error + string" where
  "get_x_opts run ibex_root config_name simulator stage =
     res_bind (x_opts_type simulator stage) (\<lambda>ty.
       case ty of None \<Rightarrow> Inr [] | Some output_type \<Rightarrow> run_ibex_config run ibex_root config_name output_type)"

definition get_compile_opts ::
    "(string list \<Rightarrow> int \<times> string) \<Rightarrow> string \<Rightarrow> string \<Rightarrow> string \<Rightarrow> cmd_error + string" where
  "get_compile_opts run ibex_root config_name simulator =
     get_x_opts run ibex_root config_name simulator ''compile''"

definition get_sim_opts ::
    "(string list \<Rightarrow> int \<times> string) \<Rightarrow> string \<Rightarrow> string \<Rightarrow> string \<Rightarrow> cmd_error + string" where
  "get_sim_opts run ibex_root config_name simulator =
     get_x_opts run ibex_root config_name simulator ''sim''"

definition get_config :: "(string \<Rightarrow> load_result) \<Rightarrow> string \<Rightarrow> string \<Rightarrow> parse_error + config" where
  "get_config load ibex_root cfg_name = parse_config load cfg_name (ibex_root @ ''/ibex_configs.yaml'')"

subsection \<open>ISA strings\<close>

definition bitmanip_mapping :: "(string \<times> string list) list" where
  "bitmanip_mapping =
     [(''ibex_pkg::RV32BNone'', []),
      (''ibex_pkg::RV32BBalanced'', [''Zba'', ''Zbb'', ''Zbs'', ''XZbf'', ''XZbt'']),
      (''ibex_pkg::RV32BOTEarlGrey'',
         [''Zba'', ''Zbb'', ''Zbc'', ''Zbs'', ''XZbf'', ''XZbp'', ''XZbr'', ''XZbt'']),
      (''ibex_pkg::RV32BFull'',
         [''Zba'', ''Zbb'', ''Zbc'', ''Zbs'', ''XZbe'', ''XZbf'', ''XZbp'', ''XZbr'', ''XZbt''])]"

definition get_isas_for_config :: "config \<Rightarrow> cmd_error + string \<times> string" where
  "get_isas_for_config cfg =
     (let has_multiplier = (rv32m cfg \<noteq> ''ibex_pkg::RV32MNone'');
          base_isa = ''rv32'' @ (if rv32e cfg then ''e'' else ''i'') @
                     (if has_multiplier then ''m'' else []) @ ''c''
      in case dget bitmanip_mapping (rv32b cfg) of
           None \<Rightarrow> Inl (UnknownRV32B (rv32b cfg))
         | Some bitmanip_isa \<Rightarrow>
             (let has_bitmanip = (rv32b cfg \<noteq> ''ibex_pkg::RV32BNone'');
                  toolchain_isa = base_isa @ (if has_bitmanip then ''b'' else [])
              in Inr (toolchain_isa, py_join ''_'' (base_isa # bitmanip_isa))))"

subsection \<open>Filtering the tests\<close>

type_synonym test_entry = "(string, yval) dict"

text \<open>\<open>[p_val]\<close> for a string or an integer, \<open>p_val\<close> otherwise, and \<open>config_val in p_val\<close>.\<close>

definition coerce_vals :: "yval \<Rightarrow> yval" where
  "coerce_vals p_val =
     (case p_val of YStr s \<Rightarrow> YList [p_val] | YInt i \<Rightarrow> YList [p_val] | YBool b \<Rightarrow> YList [p_val]
      | _ \<Rightarrow> p_val)"

definition val_in :: "string \<Rightarrow> yval \<Rightarrow> yval \<Rightarrow> cmd_error + bool" where
  "val_in p config_val p_val =
     (case p_val of
        YList vs \<Rightarrow> Inr (list_ex (py_eq config_val) vs)
      | YDict d \<Rightarrow> Inr (list_ex (\<lambda>k. py_eq config_val (YStr k)) (dkeys d))
      | _ \<Rightarrow> Inl (ParamNotIterable p))"

text \<open>
  The loop over the parameters of one test. The source appends the test to the result inside
  this loop, once for every parameter up to the first that does not match; the function
  returns the list of copies the loop appends. The warning about a parameter that does not
  match reads \<open>test['test']\<close>, a \<open>KeyError\<close> when the entry has no name.
\<close>

fun param_loop :: "config \<Rightarrow> test_entry \<Rightarrow> (string, yval) dict \<Rightarrow> cmd_error + test_entry list" where
  "param_loop cfg test [] = Inr []"
| "param_loop cfg test ((p, p_val0) # ps) =
     (let p_val = coerce_vals p_val0;
          config_val = (case dget (params cfg) p of Some YNone \<Rightarrow> None | v \<Rightarrow> v)
      in case config_val of
           None \<Rightarrow> Inl (ParamNotFound p)
         | Some cv \<Rightarrow>
             res_bind (val_in p cv p_val) (\<lambda>found.
               if \<not> found then
                 (case dget test ''test'' of None \<Rightarrow> Inl TestNameMissing | Some _ \<Rightarrow> Inr [])
               else res_bind (param_loop cfg test ps) (\<lambda>rest. Inr (test # rest))))"

definition filter_tests_by_config :: "config \<Rightarrow> test_entry list \<Rightarrow> cmd_error + test_entry list" where
  "filter_tests_by_config cfg test_list =
     res_fold (\<lambda>filtered test.
       case dget test ''rtl_params'' of
         None \<Rightarrow> Inr (filtered @ [test])
       | Some (YDict param_dict) \<Rightarrow>
           res_bind (param_loop cfg test param_dict) (\<lambda>copies. Inr (filtered @ copies))
       | Some _ \<Rightarrow> Inl RtlParamsNotADict) [] test_list"

subsection \<open>Lemmas\<close>

text \<open>
  What compatibility means: the parameter is one the configuration has and its value is among
  those the test allows.
\<close>

definition param_matches :: "config \<Rightarrow> string \<times> yval \<Rightarrow> bool" where
  "param_matches cfg = (\<lambda>(p, p_val).
     case dget (params cfg) p of None \<Rightarrow> False
     | Some cv \<Rightarrow> (case val_in p cv (coerce_vals p_val) of Inl _ \<Rightarrow> False | Inr b \<Rightarrow> b))"

text \<open>The parameter can be looked up and compared without an exception.\<close>

definition param_known :: "config \<Rightarrow> string \<times> yval \<Rightarrow> bool" where
  "param_known cfg = (\<lambda>(p, p_val).
     (case dget (params cfg) p of None \<Rightarrow> False | Some cv \<Rightarrow> cv \<noteq> YNone) \<and>
     (case coerce_vals p_val of YList _ \<Rightarrow> True | YDict _ \<Rightarrow> True | _ \<Rightarrow> False))"

definition rtl_params :: "test_entry \<Rightarrow> (string, yval) dict option" where
  "rtl_params test = (case dget test ''rtl_params'' of Some (YDict d) \<Rightarrow> Some d | _ \<Rightarrow> None)"

text \<open>The parameters the loop looks at: those that match, up to and with the first that does not.\<close>

fun visited :: "config \<Rightarrow> (string, yval) dict \<Rightarrow> (string, yval) dict" where
  "visited cfg [] = []"
| "visited cfg (p # ps) = p # (if param_matches cfg p then visited cfg ps else [])"

text \<open>
  The test is filtered without an exception: its parameters are a mapping, every parameter the
  loop looks at is known, and the entry has a name if one of them does not match.
\<close>

definition test_ok :: "config \<Rightarrow> test_entry \<Rightarrow> bool" where
  "test_ok cfg test =
     (case dget test ''rtl_params'' of None \<Rightarrow> True
      | Some (YDict ps) \<Rightarrow>
          list_all (param_known cfg) (visited cfg ps) \<and>
          (list_all (param_matches cfg) ps \<or> dget test ''test'' \<noteq> None)
      | Some _ \<Rightarrow> False)"

text \<open>What the loop keeps of one test: as many copies as there are leading matching parameters.\<close>

definition kept_copies :: "config \<Rightarrow> test_entry \<Rightarrow> nat" where
  "kept_copies cfg test =
     (case rtl_params test of None \<Rightarrow> 1
      | Some ps \<Rightarrow> length (takeWhile (param_matches cfg) ps))"

lemma param_loop_iff:
  "param_loop cfg test ps = Inr out \<longleftrightarrow>
   list_all (param_known cfg) (visited cfg ps) \<and>
   (list_all (param_matches cfg) ps \<or> dget test ''test'' \<noteq> None) \<and>
   out = replicate (length (takeWhile (param_matches cfg) ps)) test"
proof (induction ps arbitrary: out)
  case Nil
  then show ?case by auto
next
  case (Cons a ps)
  obtain p pv where a: "a = (p, pv)" by (cases a)
  show ?case
  proof (cases "param_known cfg a")
    case False
    then have "\<exists>e. param_loop cfg test (a # ps) = Inl e"
      by (auto simp: a param_known_def val_in_def Let_def split: option.splits yval.splits)
    with False show ?thesis by auto
  next
    case True
    then obtain cv where cv: "dget (params cfg) p = Some cv" "cv \<noteq> YNone"
      by (auto simp: a param_known_def split: option.splits)
    from True obtain b where b: "val_in p cv (coerce_vals pv) = Inr b"
      by (auto simp: a param_known_def val_in_def split: yval.splits)
    have m: "param_matches cfg a = b" using cv b by (simp add: a param_matches_def)
    from cv have "(case dget (params cfg) p of Some YNone \<Rightarrow> None | v \<Rightarrow> v) = Some cv"
      by (auto split: yval.splits)
    with b have loop: "param_loop cfg test (a # ps) =
        (if \<not> b then (case dget test ''test'' of None \<Rightarrow> Inl TestNameMissing | Some _ \<Rightarrow> Inr [])
         else res_bind (param_loop cfg test ps) (\<lambda>rest. Inr (test # rest)))"
      by (simp add: a Let_def)
    show ?thesis
      by (cases b) (auto simp: loop m True res_bind_eq_Inr Cons.IH split: option.splits)
  qed
qed

definition filter_step :: "config \<Rightarrow> test_entry list \<Rightarrow> test_entry \<Rightarrow> cmd_error + test_entry list" where
  "filter_step cfg = (\<lambda>filtered test.
       case dget test ''rtl_params'' of
         None \<Rightarrow> Inr (filtered @ [test])
       | Some (YDict param_dict) \<Rightarrow>
           res_bind (param_loop cfg test param_dict) (\<lambda>copies. Inr (filtered @ copies))
       | Some _ \<Rightarrow> Inl RtlParamsNotADict)"

lemma filter_step_iff:
  "filter_step cfg acc t = Inr out \<longleftrightarrow>
   test_ok cfg t \<and> out = acc @ replicate (kept_copies cfg t) t"
  by (auto simp: filter_step_def test_ok_def kept_copies_def rtl_params_def res_bind_eq_Inr
      param_loop_iff split: option.splits yval.splits)

lemma filter_fold_iff:
  "res_fold (filter_step cfg) acc tests = Inr out \<longleftrightarrow>
   list_all (test_ok cfg) tests \<and>
   out = acc @ concat (map (\<lambda>t. replicate (kept_copies cfg t) t) tests)"
  by (induction tests arbitrary: acc) (auto simp: res_bind_eq_Inr filter_step_iff)

lemma filter_tests_iff:
  "filter_tests_by_config cfg tests = Inr out \<longleftrightarrow>
   list_all (test_ok cfg) tests \<and>
   out = concat (map (\<lambda>t. replicate (kept_copies cfg t) t) tests)"
  by (simp add: filter_tests_by_config_def filter_fold_iff flip: filter_step_def)

text \<open>A test is compatible with a configuration when all its parameters match.\<close>

definition compatible :: "config \<Rightarrow> test_entry \<Rightarrow> bool" where
  "compatible cfg test =
     (case rtl_params test of None \<Rightarrow> True | Some ps \<Rightarrow> list_all (param_matches cfg) ps)"

definition single_param :: "test_entry \<Rightarrow> bool" where
  "single_param test = (case rtl_params test of None \<Rightarrow> True | Some ps \<Rightarrow> length ps = 1)"

lemma kept_copies_single:
  "single_param t \<Longrightarrow> kept_copies cfg t = (if compatible cfg t then 1 else 0)"
  by (auto simp: single_param_def kept_copies_def compatible_def length_Suc_conv
      split: option.splits)

lemma count_list_replicates: "count_list (replicate n x) y = (if x = y then n else 0)"
  by (induction n) auto

text \<open>The copies a list keeps are its compatible tests exactly when each test is kept so.\<close>

lemma concat_replicate_filter:
  "concat (map (\<lambda>t. replicate (n t) t) ts) = filter P ts \<longleftrightarrow>
   list_all (\<lambda>t. n t = (if P t then 1 else 0)) ts"
proof
  have count: "count_list (concat (map (\<lambda>t. replicate (n t) t) us)) t = count_list us t * n t"
    "count_list (filter P us) t = (if P t then count_list us t else 0)" for us t
    by (induction us) (auto simp: count_list_replicates)
  assume "concat (map (\<lambda>t. replicate (n t) t) ts) = filter P ts"
  then have "count_list ts t * n t = (if P t then count_list ts t else 0)" for t
    by (metis count)
  moreover have "count_list ts t \<noteq> 0" if "t \<in> set ts" for t
    using that by (simp add: count_list_0_iff)
  ultimately show "list_all (\<lambda>t. n t = (if P t then 1 else 0)) ts"
    unfolding list_all_iff by (metis mult_cancel1 mult.right_neutral mult_is_0)
next
  show "list_all (\<lambda>t. n t = (if P t then 1 else 0)) ts \<Longrightarrow>
    concat (map (\<lambda>t. replicate (n t) t) ts) = filter P ts"
    by (induction ts) auto
qed

lemma kept_once_iff:
  "kept_copies cfg t = (if compatible cfg t then 1 else 0) \<longleftrightarrow>
   (case rtl_params t of None \<Rightarrow> True
    | Some ps \<Rightarrow> if list_all (param_matches cfg) ps then length ps = 1
                 else \<not> param_matches cfg (hd ps))"
proof (cases "rtl_params t")
  case None
  then show ?thesis by (simp add: kept_copies_def compatible_def)
next
  case (Some ps)
  then show ?thesis
  proof (cases "list_all (param_matches cfg) ps")
    case True
    then have "takeWhile (param_matches cfg) ps = ps"
      by (simp only: takeWhile_eq_all_conv list_all_iff)
    with True Some show ?thesis by (simp add: kept_copies_def compatible_def del: takeWhile_eq_all_conv)
  next
    case False
    with Some show ?thesis by (cases ps) (auto simp: kept_copies_def compatible_def)
  qed
qed

lemmas all_sim_opts =
  vcs_opts_def riviera_sim_opts_def riviera_compile_opts_def questa_sim_opts_def
  questa_compile_opts_def xlm_opts_def dsim_opts_def

lemma cmd_names:
  "cmd_name vcs_opts = ''vcs_opts''" "cmd_name riviera_sim_opts = ''riviera_sim_opts''"
  "cmd_name riviera_compile_opts = ''riviera_compile_opts''"
  "cmd_name questa_sim_opts = ''questa_sim_opts''"
  "cmd_name questa_compile_opts = ''questa_compile_opts''"
  "cmd_name xlm_opts = ''xlm_opts''" "cmd_name dsim_opts = ''dsim_opts''"
  by (simp_all add: all_sim_opts)

lemma find_outputter:
  "find_first (\<lambda>ou. subcommand ou = ''vcs_opts'') outputters = Some (SimOpts vcs_opts)"
  "find_first (\<lambda>ou. subcommand ou = ''riviera_sim_opts'') outputters = Some (SimOpts riviera_sim_opts)"
  "find_first (\<lambda>ou. subcommand ou = ''riviera_compile_opts'') outputters = Some (SimOpts riviera_compile_opts)"
  "find_first (\<lambda>ou. subcommand ou = ''questa_sim_opts'') outputters = Some (SimOpts questa_sim_opts)"
  "find_first (\<lambda>ou. subcommand ou = ''questa_compile_opts'') outputters = Some (SimOpts questa_compile_opts)"
  "find_first (\<lambda>ou. subcommand ou = ''xlm_opts'') outputters = Some (SimOpts xlm_opts)"
  "find_first (\<lambda>ou. subcommand ou = ''dsim_opts'') outputters = Some (SimOpts dsim_opts)"
  by (simp_all add: outputters_def cmd_names)

lemma x_opts_table:
  "x_opts_type ''vcs'' ''compile'' = Inr (Some ''vcs_opts'')"
  "x_opts_type ''vcs'' ''sim'' = Inr None"
  "x_opts_type ''riviera'' ''compile'' = Inr (Some ''riviera_compile_opts'')"
  "x_opts_type ''riviera'' ''sim'' = Inr (Some ''riviera_sim_opts'')"
  "x_opts_type ''questa'' ''compile'' = Inr (Some ''questa_compile_opts'')"
  "x_opts_type ''questa'' ''sim'' = Inr (Some ''questa_sim_opts'')"
  "x_opts_type ''xlm'' ''compile'' = Inr (Some ''xlm_opts'')"
  "x_opts_type ''xlm'' ''sim'' = Inr None"
  "x_opts_type ''dsim'' ''compile'' = Inr (Some ''dsim_opts'')"
  "x_opts_type ''dsim'' ''sim'' = Inr None"
  by (simp_all add: x_opts_type_def SIM_CFGS_def)

lemma x_opts_type_cases:
  assumes "x_opts_type simulator stage = Inr ty"
  shows "simulator \<in> {''vcs'', ''riviera'', ''questa'', ''xlm'', ''dsim''} \<and> stage \<in> {''compile'', ''sim''}"
proof -
  from assms have "dget SIM_CFGS simulator \<noteq> None" and stage: "stage \<in> {''compile'', ''sim''}"
    by (auto simp: x_opts_type_def Let_def split: option.splits prod.splits if_splits)
  then have "simulator \<in> fst ` set SIM_CFGS" by (simp add: map_of_eq_None_iff)
  then show ?thesis using stage by (simp add: SIM_CFGS_def)
qed

lemma ibex_config_process_sim:
  assumes "parse_config load name (ibex_root @ ''/ibex_configs.yaml'') = Inr c"
    and "\<not> option_like ibex_root" "\<not> option_like name"
    and "find_first (\<lambda>ou. subcommand ou = ty) outputters = Some (SimOpts so)"
  shows "ibex_config_process env load (ibex_config_cmd ibex_root name ty) =
         (0, py_join '' '' (concat (map (\<lambda>ft. map shlex_quote
            (sim_words so c (''core_ibex_tb_top'' @ hierarchy_sep so) ''IBEX_CFG_'' ft)) known_fields)) @ [newline])"
proof -
  have nd: "\<not> option_like (ibex_root @ ''/ibex_configs.yaml'')"
    using assms(2) by (cases ibex_root) (auto simp: option_like_def)
  have nc: "name \<noteq> ''--config_filename''" using assms(3) by (auto simp: option_like_def)
  from parse_config_valid [OF assms(1)] have ok: "list_all (field_ok (params c)) known_fields"
    by (auto dest: config_init_params)
  have tail: "\<not> option_like ''core_ibex_tb_top''" "\<not> option_like ''IBEX_CFG_''"
    by (simp_all add: option_like_def)
  show ?thesis
    using assms nd nc tail
    by (simp add: ibex_config_process_def parse_args_def ibex_config_cmd_def ibex_config_main_def
        sim_output_words [OF ok])
qed


text \<open>The outputter a stage of a simulator asks for, and the words it prints.\<close>

definition stage_opts :: "string \<Rightarrow> string \<Rightarrow> sim_opts option" where
  "stage_opts simulator stage =
     (case x_opts_type simulator stage of
        Inr (Some ty) \<Rightarrow>
          (case find_first (\<lambda>ou. subcommand ou = ty) outputters of Some (SimOpts so) \<Rightarrow> Some so | _ \<Rightarrow> None)
      | _ \<Rightarrow> None)"

definition stage_words :: "string \<Rightarrow> config \<Rightarrow> string \<Rightarrow> string list" where
  "stage_words simulator c stage =
     (case stage_opts simulator stage of
        None \<Rightarrow> []
      | Some so \<Rightarrow> concat (map (sim_words so c (''core_ibex_tb_top'' @ hierarchy_sep so) ''IBEX_CFG_'')
                             known_fields))"

lemma get_x_opts_words:
  assumes "parse_config load name (ibex_root @ ''/ibex_configs.yaml'') = Inr c"
    and "\<not> option_like ibex_root" "\<not> option_like name"
    and "simulator \<in> set (map fst SIM_CFGS)" "stage \<in> {''compile'', ''sim''}"
  shows "\<exists>out. get_x_opts (ibex_config_process env load) ibex_root name simulator stage = Inr out \<and>
           shlex_split out = Inr (stage_words simulator c stage)"
proof -
  have sim: "simulator \<in> {''vcs'', ''riviera'', ''questa'', ''xlm'', ''dsim''}"
    using assms(4) by (simp add: SIM_CFGS_def)
  have "(x_opts_type simulator stage = Inr None \<and> stage_opts simulator stage = None) \<or>
    (\<exists>ty so. x_opts_type simulator stage = Inr (Some ty) \<and> stage_opts simulator stage = Some so \<and>
       find_first (\<lambda>ou. subcommand ou = ty) outputters = Some (SimOpts so))"
    using sim assms(5) by (elim insertE emptyE) (simp_all add: stage_opts_def x_opts_table find_outputter)
  then show ?thesis
  proof (elim disjE exE conjE)
    assume "x_opts_type simulator stage = Inr None" "stage_opts simulator stage = None"
    then show ?thesis by (simp add: get_x_opts_def stage_words_def shlex_split_def)
  next
    fix ty so
    assume *: "x_opts_type simulator stage = Inr (Some ty)" "stage_opts simulator stage = Some so"
      "find_first (\<lambda>ou. subcommand ou = ty) outputters = Some (SimOpts so)"
    define ws where "ws = concat (map (sim_words so c (''core_ibex_tb_top'' @ hierarchy_sep so) ''IBEX_CFG_'')
                             known_fields)"
    have "ibex_config_process env load (ibex_config_cmd ibex_root name ty) =
          (0, py_join '' '' (map shlex_quote ws) @ [newline])"
      by (simp add: ibex_config_process_sim [OF assms(1-3) *(3)] ws_def map_concat comp_def)
    then show ?thesis
      by (simp add: get_x_opts_def *(1,2) run_ibex_config_def strip_quoted_line stage_words_def
          shx.split_quote ws_def)
  qed
qed

text \<open>
  One of the words ends in the field's name, under the prefix for string fields or below the
  top-level instance for the others, an equals sign and the field's value.
\<close>

definition carries_field :: "config \<Rightarrow> string list \<Rightarrow> string \<times> ftype \<Rightarrow> bool" where
  "carries_field c ws = (\<lambda>(fld, typ).
     list_ex (\<lambda>w. list_ex (\<lambda>scope. ends_with
         (scope @ fld @ ''='' @ (if typ = TStr then py_str (the (dget (params c) fld))
                                else int_str (the (num_of (the (dget (params c) fld)))))) w)
       (if typ = TStr then [''IBEX_CFG_''] else [''core_ibex_tb_top.'', ''core_ibex_tb_top/''])) ws)"

lemma ends_with_self: "ends_with p p" "ends_with p s \<Longrightarrow> ends_with p (a # s)"
  by (auto simp: ends_with_iff)

lemma carries_field_mono:
  "carries_field c ws ft \<Longrightarrow> set ws \<subseteq> set ws' \<Longrightarrow> carries_field c ws' ft"
  by (cases ft) (auto simp only: carries_field_def list_ex_iff prod.case)

lemma stage_words_carry:
  assumes "simulator \<in> set (map fst SIM_CFGS)" "ft \<in> set known_fields"
  shows "carries_field c (stage_words simulator c ''compile'' @ stage_words simulator c ''sim'') ft"
proof -
  have sim: "simulator \<in> {''vcs'', ''riviera'', ''questa'', ''xlm'', ''dsim''}"
    using assms(1) by (simp add: SIM_CFGS_def)
  obtain fld t where ft: "ft = (fld, t)" by (cases ft)
  have "\<exists>stage \<in> {''compile'', ''sim''}. \<exists>so. stage_opts simulator stage = Some so \<and>
      carries_field c (sim_words so c (''core_ibex_tb_top'' @ hierarchy_sep so) ''IBEX_CFG_'' ft) ft"
    using sim unfolding ft
    by (elim insertE emptyE; cases "t = TStr")
      (simp_all add: stage_opts_def x_opts_table find_outputter carries_field_def sim_words_def Let_def
         all_sim_opts ends_with_self)
  then obtain stage so where so: "stage \<in> {''compile'', ''sim''}" "stage_opts simulator stage = Some so"
      "carries_field c (sim_words so c (''core_ibex_tb_top'' @ hierarchy_sep so) ''IBEX_CFG_'' ft) ft"
    by blast
  from so(2) assms(2) have "set (sim_words so c (''core_ibex_tb_top'' @ hierarchy_sep so) ''IBEX_CFG_'' ft) \<subseteq>
      set (stage_words simulator c stage)"
    by (auto simp: stage_words_def)
  with so(1) show ?thesis by (intro carries_field_mono [OF so(3)]) auto
qed

lemma base_isa_no_underscore:
  "CHR ''_'' \<notin> set (''rv32'' @ (if e then ''e'' else ''i'') @ (if m then ''m'' else []) @ ''c'')"
  by simp

lemma bitmanip_no_underscore:
  "dget bitmanip_mapping b = Some exts \<Longrightarrow> w \<in> set exts \<Longrightarrow> CHR ''_'' \<notin> set w"
proof -
  have "list_all (\<lambda>(b, ws). list_all (\<lambda>w. CHR ''_'' \<notin> set w) ws) bitmanip_mapping"
    by (simp add: bitmanip_mapping_def)
  then show "dget bitmanip_mapping b = Some exts \<Longrightarrow> w \<in> set exts \<Longrightarrow> CHR ''_'' \<notin> set w"
    by (force simp: list_all_iff dest: map_of_SomeD)
qed

subsection \<open>Properties\<close>

text \<open>C32: The filter returns a list exactly when every test can be looked at without an
  exception, and the list then holds, of each test in order, as many copies as the test has
  leading parameters that match the configuration (one copy if it names no parameters).\<close>

theorem filter_keeps_copies:
  "filter_tests_by_config cfg tests = Inr out \<longleftrightarrow>
   list_all (test_ok cfg) tests \<and>
   out = concat (map (\<lambda>t. replicate (kept_copies cfg t) t) tests)"
  by (rule filter_tests_iff)

text \<open>If every test names at most one parameter, the filter is exact: it returns the
  compatible tests, once each, in order.\<close>

theorem filter_exact_single_param:
  assumes "list_all (test_ok cfg) tests" "list_all single_param tests"
  shows "filter_tests_by_config cfg tests = Inr (filter (compatible cfg) tests)"
proof -
  have "concat (map (\<lambda>t. replicate (kept_copies cfg t) t) tests) = filter (compatible cfg) tests"
    unfolding concat_replicate_filter
    using assms(2) by (simp add: list_all_iff kept_copies_single)
  with assms(1) show ?thesis by (simp add: filter_tests_iff)
qed

theorem filter_exact_single_param_witness:
  "filter_tests_by_config (mk_config small_config)
     [[(''test'', YStr ''t''), (''rtl_params'', YDict [(''PMPEnable'', YInt 1)])], [(''test'', YStr ''u'')]] =
   Inr (filter (compatible (mk_config small_config))
     [[(''test'', YStr ''t''), (''rtl_params'', YDict [(''PMPEnable'', YInt 1)])], [(''test'', YStr ''u'')]])"
  by (rule filter_exact_single_param)
    (simp_all add: test_ok_def single_param_def rtl_params_def param_known_def mk_config_def
      small_config_def coerce_vals_def)

text \<open>C33: The filter does what its documentation says (it returns the tests compatible with
  the configuration, once each, in order) exactly when no test raises and every test with
  parameters either has a single parameter, which matches, or a first parameter that does not:
  two matching parameters list a test twice, a second parameter that does not match leaves the
  test in the list, and an empty mapping drops it.\<close>

theorem filter_exact_iff:
  "filter_tests_by_config cfg tests = Inr (filter (compatible cfg) tests) \<longleftrightarrow>
   list_all (\<lambda>t. test_ok cfg t \<and>
     (case rtl_params t of None \<Rightarrow> True
      | Some ps \<Rightarrow> if list_all (param_matches cfg) ps then length ps = 1
                   else \<not> param_matches cfg (hd ps))) tests"
  unfolding filter_tests_iff eq_commute [of "filter (compatible cfg) tests"]
    concat_replicate_filter kept_once_iff by (auto simp: list_all_iff)

text \<open>Three tests the filter handles against its documentation.\<close>

lemma filter_wrong_on_other_counts:
  fixes t1 t2 t3 :: test_entry
  defines "t1 \<equiv> [(''test'', YStr ''a''), (''rtl_params'', YDict [(''RV32E'', YInt 0), (''PMPEnable'', YInt 1)])]"
    and "t2 \<equiv> [(''test'', YStr ''b''), (''rtl_params'', YDict [(''RV32E'', YInt 0), (''PMPEnable'', YInt 0)])]"
    and "t3 \<equiv> [(''test'', YStr ''c''), (''rtl_params'', YDict [])]"
  shows "filter_tests_by_config (mk_config small_config) [t1, t2, t3] = Inr [t1, t2, t2] \<and>
         \<not> compatible (mk_config small_config) t1 \<and> compatible (mk_config small_config) t3"
  by (simp add: filter_tests_by_config_def t1_def t2_def t3_def compatible_def rtl_params_def
      param_matches_def mk_config_def small_config_def coerce_vals_def val_in_def py_eq_def num_of_def)

text \<open>Every output type that a simulator and stage ask of \<open>ibex_config.py\<close> is a subcommand
  it registers, so the call is answered by that simulator's outputter.\<close>

theorem x_opts_type_registered:
  assumes "x_opts_type simulator stage = Inr (Some ty)"
  shows "\<exists>so. find_first (\<lambda>ou. subcommand ou = ty) outputters = Some (SimOpts so) \<and> cmd_name so = ty"
proof -
  from assms have "simulator \<in> {''vcs'', ''riviera'', ''questa'', ''xlm'', ''dsim''}"
    "stage \<in> {''compile'', ''sim''}" by (simp_all only: x_opts_type_cases)
  then show ?thesis
    using assms by (elim insertE emptyE) (auto simp only: x_opts_table find_outputter cmd_names
      sum.inject option.inject option.distinct)
qed

theorem x_opts_type_registered_witness:
  "\<exists>so. find_first (\<lambda>ou. subcommand ou = ''questa_sim_opts'') outputters = Some (SimOpts so) \<and>
        cmd_name so = ''questa_sim_opts''"
  by (rule x_opts_type_registered [OF x_opts_table(6)])

text \<open>C34: No field of a configuration is lost on the way to a supported simulator: if the
  configuration loads, the compile options and the simulation options that \<open>ibex_cmd\<close>
  gets back from running \<open>ibex_config.py\<close> split into words among which every known field
  stands under its name and with its value.\<close>

theorem every_field_reaches_simulator:
  assumes "parse_config load name (ibex_root @ ''/ibex_configs.yaml'') = Inr c"
    and "\<not> option_like ibex_root" "\<not> option_like name"
    and "simulator \<in> set (map fst SIM_CFGS)"
  shows "\<exists>copts sopts cws sws.
           get_compile_opts (ibex_config_process env load) ibex_root name simulator = Inr copts \<and>
           get_sim_opts (ibex_config_process env load) ibex_root name simulator = Inr sopts \<and>
           shlex_split copts = Inr cws \<and> shlex_split sopts = Inr sws \<and>
           list_all (carries_field c (cws @ sws)) known_fields"
  using get_x_opts_words [OF assms, of "''compile''" env] get_x_opts_words [OF assms, of "''sim''" env]
    stage_words_carry [OF assms(4)]
  by (auto simp: get_compile_opts_def get_sim_opts_def list_all_iff)

theorem every_field_reaches_simulator_witness:
  "\<exists>copts sopts cws sws.
     get_compile_opts (ibex_config_process [] (\<lambda>_. Loaded (YDict [(''small'', YDict small_config)])))
       ''ibex'' ''small'' ''riviera'' = Inr copts \<and>
     get_sim_opts (ibex_config_process [] (\<lambda>_. Loaded (YDict [(''small'', YDict small_config)])))
       ''ibex'' ''small'' ''riviera'' = Inr sopts \<and>
     shlex_split copts = Inr cws \<and> shlex_split sopts = Inr sws \<and>
     list_all (carries_field (mk_config small_config) (cws @ sws)) known_fields"
  by (rule every_field_reaches_simulator)
    (simp_all add: parse_config_single [OF small_config_ok] option_like_def SIM_CFGS_def)

text \<open>The two ISA strings of a configuration share their base; the toolchain string ends in
  \<open>b\<close> exactly for a configuration with bit manipulation, and splitting the simulator's string
  at underscores gives the base and the extensions of the configuration's bit-manipulation
  level.\<close>

theorem isas_share_base:
  assumes "get_isas_for_config cfg = Inr (tool, iss)"
  shows "\<exists>base exts. dget bitmanip_mapping (rv32b cfg) = Some exts \<and>
           split_chr (CHR ''_'') iss = base # exts \<and>
           tool = base @ (if exts = [] then [] else ''b'') \<and>
           starts_with (if rv32e cfg then ''rv32e'' else ''rv32i'') base"
proof -
  define base where "base = ''rv32'' @ (if rv32e cfg then ''e'' else ''i'') @
    (if rv32m cfg \<noteq> ''ibex_pkg::RV32MNone'' then ''m'' else []) @ ''c''"
  from assms obtain exts where exts: "dget bitmanip_mapping (rv32b cfg) = Some exts"
    and tool: "tool = base @ (if rv32b cfg \<noteq> ''ibex_pkg::RV32BNone'' then ''b'' else [])"
    and iss: "iss = py_join ''_'' (base # exts)"
    by (auto simp: get_isas_for_config_def base_def Let_def split: option.splits)
  have "rv32b cfg = ''ibex_pkg::RV32BNone'' \<longleftrightarrow> exts = []"
    using exts by (auto simp: bitmanip_mapping_def split: if_splits)
  moreover have "split_chr (CHR ''_'') iss = base # exts"
    unfolding iss using base_isa_no_underscore bitmanip_no_underscore [OF exts]
    by (intro split_join_chr) (auto simp: base_def)
  moreover have "starts_with (if rv32e cfg then ''rv32e'' else ''rv32i'') base"
    by (simp add: base_def)
  ultimately show ?thesis using exts tool by auto
qed

theorem isas_share_base_witness:
  "\<exists>base exts. dget bitmanip_mapping (rv32b (mk_config small_config)) = Some exts \<and>
     split_chr (CHR ''_'') ''rv32imc'' = base # exts \<and>
     ''rv32imc'' = base @ (if exts = [] then [] else ''b'') \<and>
     starts_with (if rv32e (mk_config small_config) then ''rv32e'' else ''rv32i'') base"
  by (rule isas_share_base)
    (simp add: get_isas_for_config_def bitmanip_mapping_def mk_config_def small_config_def
      read_bool_def read_str_def Let_def)

end
