(* ===== verification/Scripts_Lib.thy ===== *)
theory Scripts_Lib
  imports Py_Val Shlex
begin

text \<open>
  \<open>dv/uvm/core_ibex/scripts/scripts_lib.py\<close>: running a command, formatting arguments,
  substituting the \<open><NAME>\<close> placeholders of a command template, and the aligned YAML that the
  metadata objects are written as. Running a process, \<open>Path.resolve\<close> and the environment are
  parameters.
\<close>

subsection \<open>\<open>run_one\<close>\<close>

datatype redirect = NoRedirect | ToStr string | ToPath string | ToStream string

datatype run_end = Exits int | OSError | TimesOut

datatype run_error = BadRedirect | TimeoutExpired

record run_trace =
  echoed :: "string option"
  file_opened :: bool
  file_closed :: bool

definition cmd_str :: "string list \<Rightarrow> string" where
  "cmd_str cmd = py_join '' '' (map shlex_quote cmd)"

text \<open>What a verbose call prints, as \<open>bash -x\<close> would.\<close>

definition echo_line :: "redirect \<Rightarrow> string list \<Rightarrow> string" where
  "echo_line redir cmd = ''+ '' @ cmd_str cmd @
     (case redir of
        NoRedirect \<Rightarrow> []
      | ToStr s \<Rightarrow> '' >'' @ shlex_quote s @ '' 2>&1''
      | ToPath p \<Rightarrow> '' >>'' @ shlex_quote p @ '' 2>&1''
      | ToStream p \<Rightarrow> '' >>'' @ shlex_quote p @ '' 2>&1'')"

definition run_one ::
    "(string list \<Rightarrow> run_end) \<Rightarrow> bool \<Rightarrow> string list \<Rightarrow> redirect \<Rightarrow> bool \<Rightarrow> (run_error + int) \<times> run_trace" where
  "run_one run verbose cmd redir reraise =
     (let needs_closing = (case redir of ToPath _ \<Rightarrow> True | _ \<Rightarrow> False)
      in case redir of
           ToStr s \<Rightarrow>
             if s \<noteq> ''/dev/null'' then (Inl BadRedirect, \<lparr>echoed = None, file_opened = False, file_closed = False\<rparr>)
             else (case run cmd of
                     Exits n \<Rightarrow> Inr n
                   | OSError \<Rightarrow> Inr 1
                   | TimesOut \<Rightarrow> if reraise then Inl TimeoutExpired else Inr 1,
                   \<lparr>echoed = (if verbose then Some (echo_line redir cmd) else None),
                    file_opened = False, file_closed = False\<rparr>)
         | _ \<Rightarrow> (case run cmd of
                   Exits n \<Rightarrow> Inr n
                 | OSError \<Rightarrow> Inr 1
                 | TimesOut \<Rightarrow> if reraise then Inl TimeoutExpired else Inr 1,
                 \<lparr>echoed = (if verbose then Some (echo_line redir cmd) else None),
                  file_opened = needs_closing, file_closed = needs_closing\<rparr>))"

subsection \<open>Formatting arguments\<close>

datatype pyarg = AVal yval | APath string | AList "pyarg list" | AObj string

text \<open>\<open>str\<close> of an argument; \<open>AObj\<close> carries that of any other object.\<close>

fun arg_repr :: "pyarg \<Rightarrow> string" where
  "arg_repr (AVal v) = py_repr v"
| "arg_repr (APath p) = ''PosixPath('' @ repr_str p @ '')''"
| "arg_repr (AList xs) = ''['' @ py_join '', '' (map arg_repr xs) @ '']''"
| "arg_repr (AObj s) = s"

definition arg_str :: "pyarg \<Rightarrow> string" where
  "arg_str a = (case a of AVal v \<Rightarrow> py_str v | APath p \<Rightarrow> p | _ \<Rightarrow> arg_repr a)"

text \<open>\<open>format_to_str\<close>; \<open>None\<close> is its \<open>TypeError\<close>.\<close>

definition format_to_str :: "(string \<Rightarrow> string) \<Rightarrow> pyarg \<Rightarrow> string option" where
  "format_to_str resolve a =
     (case a of
        AVal (YInt i) \<Rightarrow> Some (int_str i)
      | AVal (YStr s) \<Rightarrow> Some s
      | AVal (YBool b) \<Rightarrow> Some (if b then ''True'' else ''False'')
      | APath p \<Rightarrow> Some (resolve p)
      | AVal YNone \<Rightarrow> Some []
      | _ \<Rightarrow> None)"

definition format_to_cmd :: "(string \<Rightarrow> string) \<Rightarrow> pyarg list \<Rightarrow> unit + string list" where
  "format_to_cmd resolve items = res_map (\<lambda>item. res_of_option () (format_to_str resolve item)) items"

definition format_dict_to_printable_dict ::
    "(string \<Rightarrow> string) \<Rightarrow> (string, pyarg) dict \<Rightarrow> (string, string) dict" where
  "format_dict_to_printable_dict resolve arg =
     fold (\<lambda>(k, v) clean. dset k
        (case v of
           AVal (YDict d) \<Rightarrow> py_repr (YDict d)
         | AList xs \<Rightarrow>
             (case res_map (\<lambda>item. res_of_option () (format_to_str resolve item)) xs of
                Inr ws \<Rightarrow> py_join '' '' ws
              | Inl _ \<Rightarrow> arg_str v)
         | AVal (YList xs) \<Rightarrow>
             (case res_map (\<lambda>item. res_of_option () (format_to_str resolve (AVal item))) xs of
                Inr ws \<Rightarrow> py_join '' '' ws
              | Inl _ \<Rightarrow> arg_str v)
         | _ \<Rightarrow> (case format_to_str resolve v of Some s \<Rightarrow> s | None \<Rightarrow> arg_str v)) clean) arg []"

subsection \<open>Aligned YAML\<close>

definition YAML_MULTILINE_CHARS :: "char list" where
  "YAML_MULTILINE_CHARS = [CHR ''['', CHR '']'', CHR '':'', CHR 0x27, CHR 0x22, newline]"

definition yaml_value_format :: "yval \<Rightarrow> string" where
  "yaml_value_format v =
     (case v of
        YStr s \<Rightarrow>
          if list_ex (\<lambda>c. c \<in> set s) YAML_MULTILINE_CHARS
          then ''|-'' @ [newline] @ py_join [newline] (map (\<lambda>line. ''  '' @ line) (split_chr newline s))
          else s
      | YNone \<Rightarrow> []
      | _ \<Rightarrow> py_str v)"

definition pprint_dict :: "(string, yval) dict \<Rightarrow> string" where
  "pprint_dict d =
     (let klen = fold (\<lambda>k n. max n (length k)) (dkeys d) 1
      in concat (map (\<lambda>(k, v). k @ '':'' @ replicate (klen - length k) CHR '' '' @ '' '' @
                               yaml_value_format v @ [newline]) d))"

subsection \<open>Substitution\<close>

definition parameter_format :: "string \<Rightarrow> string" where
  "parameter_format name = ''<'' @ name @ ''>''"

definition subst_opt :: "string \<Rightarrow> string \<Rightarrow> string \<Rightarrow> string" where
  "subst_opt s name replacement =
     (let needle = parameter_format name
      in if str_in needle s then py_replace needle replacement s else s)"

text \<open>The values of \<open>var_dict\<close> are strings, paths having been made absolute.\<close>

definition subst_dict :: "string \<Rightarrow> (string, string) dict \<Rightarrow> string" where
  "subst_dict s var_dict = fold (\<lambda>(key, v) s. subst_opt s key v) var_dict s"

datatype env_error = EnvVarNotSet string

definition subst_env_vars :: "(string, string) dict \<Rightarrow> string \<Rightarrow> string list \<Rightarrow> env_error + string" where
  "subst_env_vars environ s env_vars =
     res_fold (\<lambda>s var. case dget environ var of
                 None \<Rightarrow> Inl (EnvVarNotSet var)
               | Some v \<Rightarrow> Inr (subst_opt s var v)) s env_vars"

subsection \<open>\<open>read_yaml\<close> and \<open>testdata_cls\<close>\<close>

datatype yaml_file = YamlMissing | YamlBad | YamlDoc yval

datatype read_error = FileNotFound | SysExit1

definition read_yaml :: "(string \<Rightarrow> yaml_file) \<Rightarrow> string \<Rightarrow> read_error + yval" where
  "read_yaml fs path = (case fs path of
     YamlMissing \<Rightarrow> Inl FileNotFound | YamlBad \<Rightarrow> Inl SysExit1 | YamlDoc v \<Rightarrow> Inr v)"

text \<open>The pickled objects on disk, by path.\<close>

type_synonym 'a store = "string \<Rightarrow> 'a option"

definition construct_from_pickle :: "'a store \<Rightarrow> string \<Rightarrow> read_error + 'a" where
  "construct_from_pickle st path = res_of_option FileNotFound (st path)"

text \<open>\<open>export\<close>, with the object's \<open>pickle_file\<close> and \<open>yaml_file\<close>: \<open>None\<close> is the
  \<open>RuntimeError\<close> for a path that is not set. The second component is the YAML text.\<close>

definition export ::
    "string option \<Rightarrow> string option \<Rightarrow> 'a \<Rightarrow> (string, pyarg) dict \<Rightarrow> (string \<Rightarrow> string) \<Rightarrow> bool \<Rightarrow> 'a store \<Rightarrow>
     ('a store \<times> string option) option" where
  "export pickle_file yaml_file obj printable resolve write_yaml st =
     (case (pickle_file, yaml_file) of
        (Some p, Some y) \<Rightarrow>
          Some (st(p := Some obj),
            if write_yaml
            then Some (pprint_dict (map (\<lambda>(k, v). (k, YStr v)) (format_dict_to_printable_dict resolve printable)))
            else None)
      | _ \<Rightarrow> None)"

subsection \<open>Templates\<close>

text \<open>
  A command template as its reader sees it: literal text and placeholders. What the
  substitution, which works on the string, does to it is told here piece by piece.
\<close>

datatype piece = Lit string | Hole string

fun render_piece :: "piece \<Rightarrow> string" where
  "render_piece (Lit s) = s"
| "render_piece (Hole n) = parameter_format n"

definition render :: "piece list \<Rightarrow> string" where
  "render ps = concat (map render_piece ps)"

text \<open>Texts and names are free of the characters that delimit placeholders.\<close>

definition plain :: "string \<Rightarrow> bool" where
  "plain s \<longleftrightarrow> CHR ''<'' \<notin> set s \<and> CHR ''>'' \<notin> set s"

fun piece_ok :: "piece \<Rightarrow> bool" where
  "piece_ok (Lit s) = plain s"
| "piece_ok (Hole n) = plain n"

definition fill :: "(string \<Rightarrow> string option) \<Rightarrow> piece list \<Rightarrow> piece list" where
  "fill f ps = map (\<lambda>p. case p of Lit s \<Rightarrow> Lit s | Hole n \<Rightarrow> (case f n of None \<Rightarrow> Hole n | Some v \<Rightarrow> Lit v)) ps"

lemma render_simps [simp]:
  "render [] = []" "render (p # ps) = render_piece p @ render ps"
  by (simp_all add: render_def)

lemma fill_simps [simp]:
  "fill f [] = []" "fill f (Lit s # ps) = Lit s # fill f ps"
  "fill f (Hole n # ps) = (case f n of None \<Rightarrow> Hole n | Some v \<Rightarrow> Lit v) # fill f ps"
  by (simp_all add: fill_def)

lemma subst_opt_replace: "subst_opt s name v = py_replace (parameter_format name) v s"
  by (simp add: subst_opt_def Let_def py_replace_absent parameter_format_def)

lemma replace_plain:
  "plain u \<Longrightarrow> py_replace (parameter_format name) v (u @ s) = u @ py_replace (parameter_format name) v s"
  by (intro py_replace_head) (auto simp: plain_def parameter_format_def)

lemma replace_other_hole:
  assumes "plain n" "plain name" "n \<noteq> name"
  shows "py_replace (parameter_format name) v (parameter_format n @ s) =
         parameter_format n @ py_replace (parameter_format name) v s"
proof -
  have "\<not> starts_with (parameter_format name) (parameter_format n @ s)"
  proof
    assume "starts_with (parameter_format name) (parameter_format n @ s)"
    then obtain r where "name @ CHR ''>'' # r = n @ CHR ''>'' # s"
      by (auto simp: starts_with_iff parameter_format_def)
    then have "split_once CHR ''>'' (name @ CHR ''>'' # r) = split_once CHR ''>'' (n @ CHR ''>'' # s)" by simp
    with assms show False by (simp add: split_once_append plain_def)
  qed
  then have "py_replace (parameter_format name) v (parameter_format n @ s) =
      CHR ''<'' # py_replace (parameter_format name) v (n @ CHR ''>'' # s)"
    by (simp add: parameter_format_def)
  also have "n @ CHR ''>'' # s = (n @ ''>'') @ s" by simp
  also have "py_replace (parameter_format name) v ((n @ ''>'') @ s) = (n @ ''>'') @ py_replace (parameter_format name) v s"
    using assms(1) by (intro py_replace_head) (auto simp: plain_def parameter_format_def)
  finally show ?thesis by (simp add: parameter_format_def)
qed

lemma subst_opt_render:
  assumes "list_all piece_ok ps" "plain name"
  shows "subst_opt (render ps) name v = render (fill (\<lambda>n. if n = name then Some v else None) ps)"
  unfolding subst_opt_replace using assms(1)
proof (induction ps)
  case Nil
  then show ?case by (simp add: parameter_format_def)
next
  case (Cons p ps)
  show ?case
  proof (cases p)
    case (Lit s)
    with Cons show ?thesis by (simp add: replace_plain)
  next
    case (Hole n)
    show ?thesis
    proof (cases "n = name")
      case True
      with Cons Hole show ?thesis
        using py_replace_prefix [of "parameter_format name" v "render ps"] by (simp add: parameter_format_def)
    next
      case False
      with Cons Hole assms(2) show ?thesis by (simp add: replace_other_hole)
    qed
  qed
qed

end
