(* ===== verification/Py_Path.thy ===== *)
theory Py_Path
  imports Py_Str
begin

text \<open>
  What the scripts use of \<open>pathlib\<close>'s pure paths: a path is its parts, with empty parts and
  \<open>.\<close> dropped, and absolute or not. \<open>p / q\<close> is \<open>pjoin\<close>, where an absolute \<open>q\<close> wins.
\<close>

datatype path = Path (is_abs: bool) (parts: "string list")

definition path_of_str :: "string \<Rightarrow> path" where
  "path_of_str s = Path (starts_with ''/'' s)
     (filter (\<lambda>w. w \<noteq> [] \<and> w \<noteq> ''.'') (split_chr CHR ''/'' s))"

definition path_str :: "path \<Rightarrow> string" where
  "path_str p =
     (if is_abs p then ''/'' @ py_join ''/'' (parts p)
      else if parts p = [] then ''.'' else py_join ''/'' (parts p))"

definition pjoin :: "path \<Rightarrow> path \<Rightarrow> path" where
  "pjoin p q = (if is_abs q then q else Path (is_abs p) (parts p @ parts q))"

text \<open>\<open>p / 'name'\<close> for a single relative name.\<close>

definition pdiv :: "path \<Rightarrow> string \<Rightarrow> path" where
  "pdiv p name = pjoin p (path_of_str name)"

definition parent :: "path \<Rightarrow> path" where
  "parent p = Path (is_abs p) (butlast (parts p))"

definition path_name :: "path \<Rightarrow> string" where
  "path_name p = (if parts p = [] then [] else last (parts p))"

text \<open>\<open>stem\<close> and \<open>suffix\<close>: the last part, cut before its last dot, if that is not its first
  character or its last.\<close>

definition path_stem :: "path \<Rightarrow> string" where
  "path_stem p = (case rsplit_once CHR ''.'' (path_name p) of
       Some (u, v) \<Rightarrow> if u = [] \<or> v = [] then path_name p else u
     | None \<Rightarrow> path_name p)"

text \<open>\<open>p.is_relative_to(q)\<close> and \<open>p.relative_to(q)\<close>.\<close>

definition is_relative_to :: "path \<Rightarrow> path \<Rightarrow> bool" where
  "is_relative_to p q \<longleftrightarrow> is_abs p = is_abs q \<and> take (length (parts q)) (parts p) = parts q"

definition relative_to :: "path \<Rightarrow> path \<Rightarrow> path" where
  "relative_to p q = Path False (drop (length (parts q)) (parts p))"

definition part_ok :: "string \<Rightarrow> bool" where
  "part_ok w \<longleftrightarrow> w \<noteq> [] \<and> w \<noteq> ''.'' \<and> CHR ''/'' \<notin> set w"

lemma path_of_str_part [simp]: "part_ok w \<Longrightarrow> path_of_str w = Path False [w]"
proof -
  assume w: "part_ok w"
  then have "split_chr CHR ''/'' w = [w]" by (intro split_p_none) (auto simp: part_ok_def)
  moreover obtain c r where "w = c # r" "c \<noteq> CHR ''/''" using w by (cases w) (auto simp: part_ok_def)
  ultimately show ?thesis using w by (simp add: path_of_str_def part_ok_def)
qed

lemma pdiv_part [simp]: "part_ok w \<Longrightarrow> pdiv p w = Path (is_abs p) (parts p @ [w])"
  by (simp add: pdiv_def pjoin_def)

lemma path_str_roundtrip:
  assumes "list_all part_ok (parts p)"
  shows "path_of_str (path_str p) = p"
proof -
  obtain a ws where p: "p = Path a ws" by (cases p)
  have ok: "w \<noteq> [] \<and> w \<noteq> ''.'' \<and> CHR ''/'' \<notin> set w" if "w \<in> set ws" for w
    using assms that by (auto simp: p list_all_iff part_ok_def)
  show ?thesis
  proof (cases "ws = []")
    case True
    then show ?thesis by (cases a) (simp_all add: p path_str_def path_of_str_def)
  next
    case False
    have split: "split_chr CHR ''/'' (py_join ''/'' ws) = ws"
      using False ok by (intro split_join_chr) auto
    have filt: "filter (\<lambda>w. w \<noteq> [] \<and> w \<noteq> ''.'') ws = ws" using ok by (auto simp: filter_id_conv)
    obtain w vs where ws: "ws = w # vs" using False by (cases ws) auto
    obtain c r where w: "w = c # r" "c \<noteq> CHR ''/''" using ok [of w] by (cases w) (auto simp: ws)
    then have "\<not> starts_with ''/'' (py_join ''/'' ws)"
      by (simp add: ws py_join_Cons)
    then show ?thesis
      using False by (cases a) (simp_all add: p path_str_def path_of_str_def split filt)
  qed
qed

lemma pdiv_inj: "part_ok v \<Longrightarrow> part_ok w \<Longrightarrow> pdiv p v = pdiv p w \<Longrightarrow> v = w"
  by simp

end
