(* ===== verification/Test_Schema.thy ===== *)
theory Test_Schema
  imports Scripts_Lib Py_Path
begin

text \<open>
  \<open>test_entry.py\<close> and \<open>directed_test_schema.py\<close> of \<open>dv/uvm/core_ibex/scripts\<close>: reading a
  \<open>TEST.SEED\<close> argument, finding the entry of a test in a list, and importing the YAML file of
  directed tests, in which a test inherits from a configuration.

  How pydantic coerces a string, mapping or positive integer is the parameter \<open>conv\<close>; the rest
  of the schema (which fields there are, that all must be there, the path fields, and that
  configurations and files must exist) is the repository's.
\<close>

subsection \<open>\<open>test_entry.py\<close>\<close>

text \<open>The pattern \<open>([^.]+)\.([0-9]+)$\<close>, where \<open>$\<close> also matches before a final newline.\<close>

definition read_test_dot_seed :: "string \<Rightarrow> (string \<times> int) option" where
  "read_test_dot_seed arg =
     (case split_once CHR ''.'' arg of
        None \<Rightarrow> None
      | Some (test, rest) \<Rightarrow>
          (let digits = (if rest \<noteq> [] \<and> last rest = newline then butlast rest else rest)
           in if test \<noteq> [] \<and> digits \<noteq> [] \<and> list_all is_digit digits
              then map_option (Pair test) (py_int 10 digits) else None))"

datatype entry_error = EntryRead read_error | EntryNotADict | NoMatchingEntry

definition get_test_entry ::
    "(string \<Rightarrow> yaml_file) \<Rightarrow> string \<Rightarrow> string \<Rightarrow> entry_error + (string, yval) dict" where
  "get_test_entry fs testname testlist =
     (case read_yaml fs testlist of
        Inl e \<Rightarrow> Inl (EntryRead e)
      | Inr (YList entries) \<Rightarrow>
          (case find_first (\<lambda>v. case v of YDict d \<Rightarrow> dget d ''test'' = Some (YStr testname) | _ \<Rightarrow> True) entries of
             Some (YDict d) \<Rightarrow> Inr d
           | Some _ \<Rightarrow> Inl EntryNotADict
           | None \<Rightarrow> Inl NoMatchingEntry)
      | Inr _ \<Rightarrow> Inl EntryNotADict)"

lemma read_tds_roundtrip:
  assumes "test \<noteq> []" "CHR ''.'' \<notin> set test"
  shows "read_test_dot_seed (test @ ''.'' @ nat_repr 10 n) = Some (test, int n)"
proof -
  have digits: "list_all is_digit (nat_repr 10 n)" "nat_repr 10 n \<noteq> []"
    by (auto simp: list_all_iff dest: nat_repr_digits)
  from digits(1) last_in_set [OF digits(2)] have "last (nat_repr 10 n) \<noteq> newline"
    by (force simp: list_all_iff is_digit_def)
  with digits assms split_once_append [of "CHR ''.''" test "nat_repr 10 n"] show ?thesis
    using py_int_int_str [of n] by (simp add: read_test_dot_seed_def Let_def int_str_def)
qed

subsection \<open>The schema\<close>

datatype ptype = PStr | PDict | PPosInt | PPath

definition DConfig_fields :: "(string \<times> ptype) list" where
  "DConfig_fields = [(''config'', PStr), (''rtl_test'', PStr), (''rtl_params'', PDict),
     (''timeout_s'', PPosInt), (''gcc_opts'', PStr), (''ld_script'', PPath), (''includes'', PPath)]"

definition DTest_fields :: "(string \<times> ptype) list" where
  "DTest_fields = DConfig_fields @
     [(''test'', PStr), (''desc'', PStr), (''test_srcs'', PPath), (''iterations'', PPosInt)]"

definition make_valid_pathlib_path :: "yval \<Rightarrow> yval option" where
  "make_valid_pathlib_path v = (case v of YStr s \<Rightarrow> Some (YStr (path_str (path_of_str s))) | _ \<Rightarrow> None)"

type_synonym coerce = "ptype \<Rightarrow> yval \<Rightarrow> yval option"

definition field_value :: "coerce \<Rightarrow> ptype \<Rightarrow> yval \<Rightarrow> yval option" where
  "field_value conv ty v = (if ty = PPath then make_valid_pathlib_path v else conv ty v)"

text \<open>A pydantic model: every field must be there and fit its type; other keys are dropped.\<close>

definition model_of :: "coerce \<Rightarrow> (string \<times> ptype) list \<Rightarrow> (string, yval) dict \<Rightarrow> unit + (string, yval) dict" where
  "model_of conv flds d =
     res_map (\<lambda>(k, ty). case dget d k of
         None \<Rightarrow> Inl ()
       | Some v \<Rightarrow> (case field_value conv ty v of None \<Rightarrow> Inl () | Some w \<Rightarrow> Inr (k, w))) flds"

text \<open>\<open>validate_path_exists\<close>, relative to the YAML file.\<close>

definition validate_path_exists :: "(path \<Rightarrow> bool) \<Rightarrow> path \<Rightarrow> path \<Rightarrow> unit + path" where
  "validate_path_exists exists v dt =
     (let p = pjoin (parent dt) v in if exists p then Inr p else Inl ())"

definition check_model_path_fields_exist ::
    "(path \<Rightarrow> bool) \<Rightarrow> path \<Rightarrow> (string \<times> ptype) list \<Rightarrow> (string, yval) dict \<Rightarrow> unit + (string, yval) dict" where
  "check_model_path_fields_exist exists dt flds d =
     res_map (\<lambda>(k, v). if (k, PPath) \<in> set flds
         then (case v of
                 YStr s \<Rightarrow> res_bind (validate_path_exists exists (path_of_str s) dt)
                             (\<lambda>p. Inr (k, YStr (path_str p)))
               | _ \<Rightarrow> Inr (k, v))
         else Inr (k, v)) d"

record directed_tests =
  m_yaml :: path
  m_configs :: "(string, yval) dict list"
  m_tests :: "(string, yval) dict list"

definition DirectedTestsYaml ::
    "coerce \<Rightarrow> (path \<Rightarrow> bool) \<Rightarrow> path \<Rightarrow> (string, yval) dict list \<Rightarrow> (string, yval) dict list \<Rightarrow>
     unit + directed_tests" where
  "DirectedTestsYaml conv exists yaml configs tests =
     (if \<not> exists yaml then Inl ()
      else
        res_bind (res_map (model_of conv DConfig_fields) configs) (\<lambda>cs.
        res_bind (res_map (model_of conv DTest_fields) tests) (\<lambda>ts.
          if \<not> set (map (\<lambda>t. dget t ''config'') ts) \<subseteq> set (map (\<lambda>c. dget c ''config'') cs) then Inl ()
          else
            res_bind (res_map (check_model_path_fields_exist exists yaml DConfig_fields) cs) (\<lambda>cs'.
            res_bind (res_map (check_model_path_fields_exist exists yaml DTest_fields) ts) (\<lambda>ts'.
              Inr \<lparr>m_yaml = yaml, m_configs = cs', m_tests = ts'\<rparr>)))))"

datatype schema_error =
    SchemaRead read_error | EntryIsNotADict | UnknownConfig yval yval | NoConfigKey | ValidationExit

text \<open>\<open>i.get('config')\<close>, where a missing key and a null are the same.\<close>

definition get_or_none :: "(string, yval) dict \<Rightarrow> string \<Rightarrow> yval" where
  "get_or_none d k = (case dget d k of None \<Rightarrow> YNone | Some v \<Rightarrow> v)"

definition is_test :: "(string, yval) dict \<Rightarrow> bool" where
  "is_test d \<longleftrightarrow> get_or_none d ''test'' \<noteq> YNone"

definition join_config ::
    "(string, yval) dict list \<Rightarrow> (string, yval) dict \<Rightarrow> schema_error + (string, yval) dict" where
  "join_config configs t =
     (case find_first (\<lambda>c. py_eq (get_or_none c ''config'') (get_or_none t ''config'')) configs of
        Some c \<Rightarrow> Inr (dmerge c t)
      | None \<Rightarrow> (case dget t ''config'' of
                   None \<Rightarrow> Inl NoConfigKey
                 | Some cfg \<Rightarrow> Inl (UnknownConfig (get_or_none t ''test'') cfg)))"

definition as_dicts :: "yval \<Rightarrow> schema_error + (string, yval) dict list" where
  "as_dicts v = (case v of
     YList xs \<Rightarrow> res_map (\<lambda>x. case x of YDict d \<Rightarrow> Inr d | _ \<Rightarrow> Inl EntryIsNotADict) xs
   | _ \<Rightarrow> Inl EntryIsNotADict)"

definition import_model ::
    "coerce \<Rightarrow> (path \<Rightarrow> bool) \<Rightarrow> (string \<Rightarrow> yaml_file) \<Rightarrow> path \<Rightarrow> schema_error + directed_tests" where
  "import_model conv exists fs yaml =
     (case read_yaml fs (path_str yaml) of
        Inl e \<Rightarrow> Inl (SchemaRead e)
      | Inr v \<Rightarrow>
          res_bind (as_dicts v) (\<lambda>entries.
            let configs = filter (\<lambda>d. \<not> is_test d) entries
            in res_bind (res_map (join_config configs) (filter is_test entries)) (\<lambda>tests.
                 (case DirectedTestsYaml conv exists yaml configs tests of
                    Inl _ \<Rightarrow> Inl ValidationExit
                  | Inr m \<Rightarrow> Inr m))))"

subsection \<open>What is imported\<close>

text \<open>The value a field of an imported entry has: the test's own or else its configuration's,
  coerced, and for a path relative to the file.\<close>

definition imported_value :: "coerce \<Rightarrow> path \<Rightarrow> ptype \<Rightarrow> yval \<Rightarrow> yval option" where
  "imported_value conv yaml ty v =
     (if ty = PPath then
        (case v of YStr s \<Rightarrow> Some (YStr (path_str (pjoin (parent yaml) (path_of_str (path_str (path_of_str s))))))
         | _ \<Rightarrow> None)
      else conv ty v)"

lemma model_of_Inr:
  assumes "model_of conv flds d = Inr m" "distinct (map fst flds)"
  shows "dkeys m = map fst flds \<and>
    (\<forall>(k, ty) \<in> set flds. \<exists>v w. dget d k = Some v \<and> field_value conv ty v = Some w \<and> dget m k = Some w)"
  using assms
proof (induction flds arbitrary: m)
  case Nil
  then show ?case by (simp add: model_of_def)
next
  case (Cons f flds)
  obtain k ty where f: "f = (k, ty)" by (cases f)
  from Cons.prems(1) obtain v w m' where *: "dget d k = Some v" "field_value conv ty v = Some w"
    "model_of conv flds d = Inr m'" "m = (k, w) # m'"
    by (auto simp: model_of_def f res_bind_eq_Inr split: option.splits)
  from Cons.IH [OF *(3)] Cons.prems(2) have IH: "dkeys m' = map fst flds"
    "\<forall>(k, ty) \<in> set flds. \<exists>v w. dget d k = Some v \<and> field_value conv ty v = Some w \<and> dget m' k = Some w"
    by auto
  moreover have "k \<noteq> k'" if "(k', ty') \<in> set flds" for k' ty' using Cons.prems(2) that by (force simp: f)
  ultimately show ?case using * by (fastforce simp: f)
qed

lemma check_paths_Inr:
  assumes "check_model_path_fields_exist exists dt flds d = Inr m"
  shows "dkeys m = dkeys d \<and>
    (\<forall>k v. dget d k = Some v \<longrightarrow>
       (if (k, PPath) \<in> set flds \<and> (\<exists>s. v = YStr s)
        then \<exists>s. v = YStr s \<and> exists (pjoin (parent dt) (path_of_str s)) \<and>
               dget m k = Some (YStr (path_str (pjoin (parent dt) (path_of_str s))))
        else dget m k = Some v))"
  using assms
proof (induction d arbitrary: m)
  case Nil
  then show ?case by (simp add: check_model_path_fields_exist_def)
next
  case (Cons kv d)
  obtain k v where kv: "kv = (k, v)" by (cases kv)
  from Cons.prems obtain w m' where *: "m = (k, w) # m'" "check_model_path_fields_exist exists dt flds d = Inr m'"
    and w: "if (k, PPath) \<in> set flds \<and> (\<exists>s. v = YStr s)
      then \<exists>s. v = YStr s \<and> exists (pjoin (parent dt) (path_of_str s)) \<and>
             w = YStr (path_str (pjoin (parent dt) (path_of_str s)))
      else w = v"
    by (cases v) (auto simp: check_model_path_fields_exist_def kv res_bind_eq_Inr validate_path_exists_def Let_def
        split: if_splits)
  from Cons.IH [OF *(2)] w show ?case by (auto simp: *(1) kv)
qed

lemma DTest_distinct: "distinct (map fst DTest_fields)"
  by (simp add: DTest_fields_def DConfig_fields_def)

lemma import_model_test:
  assumes c: "join_config configs t = Inr j" and t: "distinct (dkeys t)"
    and j: "model_of conv DTest_fields j = Inr r1"
    and r: "check_model_path_fields_exist exists yaml DTest_fields r1 = Inr r"
  shows "\<exists>c \<in> set configs. py_eq (get_or_none c ''config'') (get_or_none t ''config'') \<and>
    dkeys r = map fst DTest_fields \<and>
    list_all (\<lambda>(k, ty). \<exists>v. (case dget t k of Some w \<Rightarrow> Some w | None \<Rightarrow> dget c k) = Some v \<and>
        dget r k \<noteq> None \<and> dget r k = imported_value conv yaml ty v) DTest_fields"
proof -
  from c obtain c where c: "c \<in> set configs" "py_eq (get_or_none c ''config'') (get_or_none t ''config'')"
    "j = dmerge c t"
    by (auto simp: join_config_def split: option.splits dest: find_first_Some)
  have look: "dget j k = (case dget t k of Some w \<Rightarrow> Some w | None \<Rightarrow> dget c k)" for k
    using dget_dmerge_distinct [OF t, of c k] c(3) by (cases "dget t k") simp_all
  note m = model_of_Inr [OF j DTest_distinct] and p = check_paths_Inr [OF r]
  have "\<exists>v. (case dget t k of Some w \<Rightarrow> Some w | None \<Rightarrow> dget c k) = Some v \<and>
        dget r k \<noteq> None \<and> dget r k = imported_value conv yaml ty v"
    if k: "(k, ty) \<in> set DTest_fields" for k ty
  proof -
    from m k obtain v w where vw: "dget j k = Some v" "field_value conv ty v = Some w" "dget r1 k = Some w" by blast
    show ?thesis
    proof (cases "ty = PPath")
      case True
      with vw(2) obtain s where s: "v = YStr s" "w = YStr (path_str (path_of_str s))"
        by (cases v) (auto simp: field_value_def make_valid_pathlib_path_def)
      with p vw(3) k True have "dget r k = Some (YStr (path_str (pjoin (parent yaml) (path_of_str (path_str (path_of_str s))))))"
        by fastforce
      with vw(1) s True show ?thesis by (simp add: look imported_value_def)
    next
      case False
      have "(k, PPath) \<notin> set DTest_fields"
        using k False DTest_distinct by (metis eq_key_imp_eq_value)
      with p vw(3) have "dget r k = Some w" by fastforce
      with vw(1,2) False show ?thesis by (simp add: look imported_value_def field_value_def)
    qed
  qed
  moreover have "dkeys r = map fst DTest_fields" using m p by simp
  ultimately show ?thesis using c(1,2) by (intro bexI [of _ c]) (auto simp: list_all_iff)
qed

lemma DirectedTestsYaml_tests:
  "DirectedTestsYaml conv exists yaml configs tests = Inr m \<Longrightarrow>
     \<exists>ts. res_map (model_of conv DTest_fields) tests = Inr ts \<and>
       res_map (check_model_path_fields_exist exists yaml DTest_fields) ts = Inr (m_tests m)"
  by (auto simp: DirectedTestsYaml_def res_bind_eq_Inr split: if_splits)

lemma import_model_steps:
  assumes "read_yaml fs (path_str yaml) = Inr v" "as_dicts v = Inr entries" "import_model conv exists fs yaml = Inr m"
  shows "\<exists>js. res_map (join_config (filter (\<lambda>d. \<not> is_test d) entries)) (filter is_test entries) = Inr js \<and>
    DirectedTestsYaml conv exists yaml (filter (\<lambda>d. \<not> is_test d) entries) js = Inr m"
proof -
  from assms obtain js where js: "res_map (join_config (filter (\<lambda>d. \<not> is_test d) entries)) (filter is_test entries) = Inr js"
    "(case DirectedTestsYaml conv exists yaml (filter (\<lambda>d. \<not> is_test d) entries) js of
        Inl _ \<Rightarrow> Inl ValidationExit | Inr m \<Rightarrow> Inr m) = Inr m"
    by (auto simp: import_model_def Let_def res_bind_eq_Inr)
  then show ?thesis
    by (cases "DirectedTestsYaml conv exists yaml (filter (\<lambda>d. \<not> is_test d) entries) js") auto
qed

subsection \<open>Properties\<close>

text \<open>C19: A directed test inherits from its configuration: after a successful import the tests
  come out in the order of the file, each with all fields of the schema and no others, and each
  field has the value the test itself gives or else the one of a configuration of that name,
  coerced to the field's type and, for a path, taken relative to the YAML file.\<close>

theorem import_model_inherits:
  assumes "read_yaml fs (path_str yaml) = Inr v" "as_dicts v = Inr entries"
    "list_all (\<lambda>d. distinct (dkeys d)) entries" "import_model conv exists fs yaml = Inr m"
  shows "list_all2 (\<lambda>t r. \<exists>c \<in> set (filter (\<lambda>d. \<not> is_test d) entries).
      py_eq (get_or_none c ''config'') (get_or_none t ''config'') \<and> dkeys r = map fst DTest_fields \<and>
      list_all (\<lambda>(k, ty). \<exists>v. (case dget t k of Some w \<Rightarrow> Some w | None \<Rightarrow> dget c k) = Some v \<and>
        dget r k \<noteq> None \<and> dget r k = imported_value conv yaml ty v) DTest_fields)
    (filter is_test entries) (m_tests m)"
proof -
  let ?configs = "filter (\<lambda>d. \<not> is_test d) entries" and ?ts = "filter is_test entries"
  from import_model_steps [OF assms(1,2,4)] DirectedTestsYaml_tests obtain js ts1 where
    js: "res_map (join_config ?configs) ?ts = Inr js"
    and ts1: "res_map (model_of conv DTest_fields) js = Inr ts1"
    and m: "res_map (check_model_path_fields_exist exists yaml DTest_fields) ts1 = Inr (m_tests m)"
    by blast
  note maps = js [unfolded res_map_eq_Inr] ts1 [unfolded res_map_eq_Inr] m [unfolded res_map_eq_Inr]
  from maps have len: "length js = length ?ts" "length ts1 = length js" "length (m_tests m) = length ts1"
    by (auto dest: list_all2_lengthD)
  show ?thesis
  proof (rule list_all2_all_nthI)
    show "length ?ts = length (m_tests m)" using len by simp
    fix n assume n: "n < length ?ts"
    then have "?ts ! n \<in> set entries" using nth_mem [OF n] by simp
    with assms(3) have dist: "distinct (dkeys (?ts ! n))" by (simp add: list_all_iff)
    have "join_config ?configs (?ts ! n) = Inr (js ! n)" by (rule list_all2_nthD [OF maps(1) n])
    moreover note dist
    moreover have "model_of conv DTest_fields (js ! n) = Inr (ts1 ! n)"
      by (rule list_all2_nthD [OF maps(2)]) (use n len in simp)
    moreover have "check_model_path_fields_exist exists yaml DTest_fields (ts1 ! n) = Inr (m_tests m ! n)"
      by (rule list_all2_nthD [OF maps(3)]) (use n len in simp)
    ultimately show "\<exists>c \<in> set ?configs.
      py_eq (get_or_none c ''config'') (get_or_none (?ts ! n) ''config'') \<and> dkeys (m_tests m ! n) = map fst DTest_fields \<and>
      list_all (\<lambda>(k, ty). \<exists>v. (case dget (?ts ! n) k of Some w \<Rightarrow> Some w | None \<Rightarrow> dget c k) = Some v \<and>
        dget (m_tests m ! n) k \<noteq> None \<and> dget (m_tests m ! n) k = imported_value conv yaml ty v) DTest_fields"
      by (rule import_model_test)
  qed
qed

definition sample_conv :: coerce where
  "sample_conv ty v = (case (ty, v) of
     (PStr, YStr s) \<Rightarrow> Some (YStr s) | (PDict, YDict d) \<Rightarrow> Some (YDict d)
   | (PPosInt, YInt i) \<Rightarrow> (if 0 < i then Some (YInt i) else None) | _ \<Rightarrow> None)"

definition sample_directed :: "(string, yval) dict list" where
  "sample_directed =
     [[(''config'', YStr ''riscv-tests''), (''rtl_test'', YStr ''core_ibex_base_test''), (''rtl_params'', YDict []),
       (''timeout_s'', YInt 300), (''gcc_opts'', YStr ''-static''), (''ld_script'', YStr ''link.ld''),
       (''includes'', YStr ''include'')],
      [(''test'', YStr ''add''), (''desc'', YStr ''add''), (''test_srcs'', YStr ''add.S''),
       (''config'', YStr ''riscv-tests''), (''iterations'', YInt 1), (''timeout_s'', YInt 60)]]"

definition sample_fs :: "string \<Rightarrow> yaml_file" where
  "sample_fs _ = YamlDoc (YList (map YDict sample_directed))"

theorem import_model_inherits_witness:
  "\<exists>m. import_model sample_conv (\<lambda>_. True) sample_fs (path_of_str ''d/t.yaml'') = Inr m \<and>
     length (m_tests m) = 1"
proof -
  have "\<not> isl (import_model sample_conv (\<lambda>_. True) sample_fs (path_of_str ''d/t.yaml''))"
    by code_simp
  then obtain m where m: "import_model sample_conv (\<lambda>_. True) sample_fs (path_of_str ''d/t.yaml'') = Inr m"
    by (cases "import_model sample_conv (\<lambda>_. True) sample_fs (path_of_str ''d/t.yaml'')") auto
  have "as_dicts (YList (map YDict sample_directed)) = Inr sample_directed"
    by (simp add: as_dicts_def sample_directed_def)
  moreover have "list_all (\<lambda>d. distinct (dkeys d)) sample_directed" by (simp add: sample_directed_def)
  ultimately have "length (filter is_test sample_directed) = length (m_tests m)"
    by (intro list_all2_lengthD [OF import_model_inherits [OF _ _ _ m]])
      (simp_all add: read_yaml_def sample_fs_def)
  moreover have "length (filter is_test sample_directed) = 1"
    by (simp add: sample_directed_def is_test_def get_or_none_def)
  ultimately show ?thesis using m by auto
qed

end
