(* ===== verification/Test_Result.thy ===== *)
theory Test_Result
  imports Scripts_Lib Py_Path
begin

text \<open>
  \<open>dv/uvm/core_ibex/scripts/test_run_result.py\<close>: what is known of a single test run. Commands
  are kept as the code keeps them, lists of lists of words. The annotation of \<open>ddm_sim_opts\<close> says a
  list of strings; the code stores one string there, and so does the record.
\<close>

datatype test_type = RISCVDV | DIRECTED

datatype failure_modes = NONE | TIMEOUT | FILE_ERROR | LOG_ERROR

definition failure_value :: "failure_modes \<Rightarrow> nat" where
  "failure_value m = (case m of NONE \<Rightarrow> 0 | TIMEOUT \<Rightarrow> 1 | FILE_ERROR \<Rightarrow> 2 | LOG_ERROR \<Rightarrow> 3)"

definition failure_name :: "failure_modes \<Rightarrow> string" where
  "failure_name m = (case m of NONE \<Rightarrow> ''NONE'' | TIMEOUT \<Rightarrow> ''TIMEOUT''
     | FILE_ERROR \<Rightarrow> ''FILE_ERROR'' | LOG_ERROR \<Rightarrow> ''LOG_ERROR'')"

definition failure_str :: "failure_modes \<Rightarrow> string" where
  "failure_str m = failure_name m @ ''('' @ nat_repr 10 (failure_value m) @ '')''"

record test_run_result =
  passed :: "bool option"
  failure_mode :: "failure_modes option"
  failure_message :: "string option"
  trr_timeout_s :: "int option"
  testtype :: "test_type option"
  testdotseed :: "string option"
  testname :: "string option"
  trr_seed :: "int option"
  binary :: "path option"
  rtl_simulator :: "string option"
  iss_cosim :: "string option"
  is_discrete_debug_module :: "bool option"
  binary_main :: "path option"
  binary_dm :: "path option"
  vmem_main :: "path option"
  vmem_dm :: "path option"
  ddm_sim_opts :: "string option"
  gen_test :: "string list option"
  gen_opts :: "string list option"
  rtl_test :: "string list option"
  trr_sim_opts :: "string list option"
  directed_data :: "(string, yval) dict option"
  dir_test :: "path option"
  assembly :: "path option"
  objectfile :: "path option"
  riscvdv_run_gen_log :: "path option"
  riscvdv_run_gen_stdout :: "path option"
  riscvdv_run_log :: "path option"
  riscvdv_run_stdout :: "path option"
  compile_asm_gen_log :: "path option"
  compile_asm_log :: "path option"
  rtl_log :: "path option"
  rtl_stdout :: "path option"
  rtl_trace :: "path option"
  iss_cosim_log :: "path option"
  iss_cosim_trace :: "path option"
  trr_dir_fcov :: "path option"
  riscvdv_run_gen_cmds :: "string list list option"
  riscvdv_run_cmds :: "string list list option"
  compile_asm_gen_cmds :: "string list list option"
  compile_asm_cmds :: "string list list option"
  rtl_cmds :: "string list list option"
  metadata_pickle_file :: "path option"
  trr_pickle_file :: "path option"
  trr_yaml_file :: "path option"

definition empty_trr :: test_run_result where
  "empty_trr =
     \<lparr>passed = None, failure_mode = None, failure_message = None, trr_timeout_s = None, testtype = None,
      testdotseed = None, testname = None, trr_seed = None, binary = None, rtl_simulator = None,
      iss_cosim = None, is_discrete_debug_module = None, binary_main = None, binary_dm = None,
      vmem_main = None, vmem_dm = None, ddm_sim_opts = None, gen_test = None,
      gen_opts = None, rtl_test = None, trr_sim_opts = None, directed_data = None, dir_test = None,
      assembly = None, objectfile = None, riscvdv_run_gen_log = None, riscvdv_run_gen_stdout = None,
      riscvdv_run_log = None, riscvdv_run_stdout = None, compile_asm_gen_log = None, compile_asm_log = None,
      rtl_log = None, rtl_stdout = None, rtl_trace = None,
      iss_cosim_log = None, iss_cosim_trace = None, trr_dir_fcov = None,
      riscvdv_run_gen_cmds = None, riscvdv_run_cmds = None, compile_asm_gen_cmds = None, compile_asm_cmds = None, rtl_cmds = None,
      metadata_pickle_file = None, trr_pickle_file = None, trr_yaml_file = None\<rparr>"

text \<open>\<open>construct_from_metadata_dir\<close>\<close>

definition construct_trr :: "test_run_result store \<Rightarrow> path \<Rightarrow> string \<Rightarrow> read_error + test_run_result" where
  "construct_trr st dir_metadata tds =
     construct_from_pickle st (path_str (pdiv dir_metadata (tds @ ''.pickle'')))"

text \<open>\<open>format_to_printable_dict\<close> prints paths below the test directory relative to it.\<close>

definition relative_arg :: "path \<Rightarrow> path \<Rightarrow> pyarg" where
  "relative_arg dir p =
     (if is_relative_to p dir then AVal (YStr (path_str (relative_to p dir))) else APath (path_str p))"

lemma failure_str_inj: "failure_str m = failure_str n \<Longrightarrow> m = n"
  by (cases m; cases n) (simp_all add: failure_str_def failure_name_def)

end
