(* ===== verification/Metadata.thy ===== *)
theory Metadata
  imports Ibex_Cmd Test_Schema Test_Result
begin

text \<open>
  \<open>dv/uvm/core_ibex/scripts/metadata.py\<close> and \<open>setup_imports.py\<close>: the metadata of a regression,
  how it is built from the arguments of the Makefile, which tests it selects, the object it
  makes for each run of a test, and the fields it prints. \<open>process_regression_list\<close> of the
  vendored \<open>lib.py\<close>, which reads the list of random tests, is modelled as well.

  The fields that name log files and commands of later phases are a record of their own; they
  start as \<open>None\<close> and are set by the scripts of those phases.
\<close>

subsection \<open>Directories\<close>

definition get_project_root :: "path \<Rightarrow> path" where
  "get_project_root file = ((parent ^^ 5) file)"

record project =
  IBEX_ROOT :: path
  IBEX_UTIL :: path
  CORE_IBEX :: path
  CORE_IBEX_SCRIPTS :: path
  CORE_IBEX_RISCV_DV_EXTENSION :: path
  CORE_IBEX_YAML :: path
  RISCV_DV :: path
  RISCV_DV_SCRIPTS :: path
  OT_LOWRISC_IP :: path

definition setup_imports :: "path \<Rightarrow> project" where
  "setup_imports root =
     (let core = pdiv (pdiv (pdiv root ''dv'') ''uvm'') ''core_ibex'';
          riscv_dv = pdiv (pdiv root ''vendor'') ''google_riscv-dv''
      in \<lparr>IBEX_ROOT = root, IBEX_UTIL = pdiv root ''util'', CORE_IBEX = core,
          CORE_IBEX_SCRIPTS = pdiv core ''scripts'',
          CORE_IBEX_RISCV_DV_EXTENSION = pdiv core ''riscv_dv_extension'',
          CORE_IBEX_YAML = pdiv core ''yaml'', RISCV_DV = riscv_dv,
          RISCV_DV_SCRIPTS = pdiv riscv_dv ''scripts'',
          OT_LOWRISC_IP = pdiv (pdiv root ''vendor'') ''lowrisc_ip''\<rparr>)"

definition get_pythonpath :: "project \<Rightarrow> string" where
  "get_pythonpath pr = py_join '':'' (map path_str
     [IBEX_ROOT pr, IBEX_UTIL pr, CORE_IBEX_SCRIPTS pr, CORE_IBEX_RISCV_DV_EXTENSION pr,
      CORE_IBEX_YAML pr, RISCV_DV_SCRIPTS pr])"

record md_dirs =
  dir_build :: path
  dir_instruction_generator :: path
  dir_tb :: path
  dir_run :: path
  dir_tests :: path
  dir_cov :: path
  dir_fcov :: path
  dir_shared_cov :: path
  dir_cov_merged :: path
  dir_cov_report :: path

definition setup_directories :: "path \<Rightarrow> md_dirs" where
  "setup_directories out =
     (let build = pdiv out ''build''; run = pdiv out ''run''; cov = pdiv run ''coverage''
      in \<lparr>dir_build = build, dir_instruction_generator = pdiv build ''instr_gen'', dir_tb = pdiv build ''tb'',
          dir_run = run, dir_tests = pdiv run ''tests'', dir_cov = cov, dir_fcov = pdiv cov ''fcov'',
          dir_shared_cov = pdiv cov ''shared_cov'', dir_cov_merged = pdiv cov ''merged'',
          dir_cov_report = pdiv cov ''report''\<rparr>)"

record md_files =
  md_pickle_file :: path
  md_yaml_file :: path
  ibex_configs :: path
  ot_xcelium_cov_scripts :: path
  ibex_riscvdv_simulator_yaml :: path
  ibex_riscvdv_customtarget :: path
  ibex_riscvdv_testlist :: path
  ibex_riscvdv_csr :: path
  directed_test_dir :: path
  directed_test_data :: path

definition post_init_files :: "project \<Rightarrow> path \<Rightarrow> md_files" where
  "post_init_files pr dir_metadata =
     (let custom = pdiv (CORE_IBEX pr) ''riscv_dv_extension''; directed = pdiv (CORE_IBEX pr) ''directed_tests''
      in \<lparr>md_pickle_file = pdiv dir_metadata ''metadata.pickle'',
          md_yaml_file = pdiv dir_metadata ''metadata.yaml'',
          ibex_configs = pdiv (IBEX_ROOT pr) ''ibex_configs.yaml'',
          ot_xcelium_cov_scripts = pdiv (pdiv (pdiv (OT_LOWRISC_IP pr) ''dv'') ''tools'') ''xcelium'',
          ibex_riscvdv_simulator_yaml = pdiv (pdiv (CORE_IBEX pr) ''yaml'') ''rtl_simulation.yaml'',
          ibex_riscvdv_customtarget = custom,
          ibex_riscvdv_testlist = pdiv custom ''testlist.yaml'',
          ibex_riscvdv_csr = pdiv custom ''csr_description.yaml'',
          directed_test_dir = directed,
          directed_test_data = pdiv directed ''directed_testlist.yaml''\<rparr>)"

subsection \<open>The metadata object\<close>

text \<open>The log files and commands that the later phases fill in.\<close>

record md_phase =
  riscvdv_build_log :: "path option"
  riscvdv_build_stdout :: "path option"
  riscvdv_build_cmds :: "string list list option"
  tb_build_log :: "path option"
  tb_build_stdout :: "path option"
  tb_build_cmds :: "string list list option"
  riscvdv_fcov_log :: "path option"
  riscvdv_fcov_stdout :: "path option"
  riscvdv_fcov_cmds :: "string list list option"
  cov_merge_db_list :: "path option"
  cov_merge_log :: "path option"
  cov_merge_stdout :: "path option"
  cov_merge_cmds :: "string list list option"
  cov_report_log :: "path option"
  cov_report_stdout :: "path option"
  cov_report_cmds :: "string list list option"
  regr_log :: "path option"
  regr_log_junit :: "path option"
  regr_log_junit_merged :: "path option"

definition no_phase :: md_phase where
  "no_phase =
     \<lparr>riscvdv_build_log = None, riscvdv_build_stdout = None, riscvdv_build_cmds = None,
      tb_build_log = None, tb_build_stdout = None, tb_build_cmds = None, riscvdv_fcov_log = None,
      riscvdv_fcov_stdout = None, riscvdv_fcov_cmds = None, cov_merge_db_list = None,
      cov_merge_log = None, cov_merge_stdout = None, cov_merge_cmds = None, cov_report_log = None,
      cov_report_stdout = None, cov_report_cmds = None, regr_log = None, regr_log_junit = None,
      regr_log_junit_merged = None\<rparr>"

record regression_metadata =
  dir_out :: path
  dir_metadata :: path
  git_commit :: string
  raw_args_str :: string
  raw_args_dict :: "(string, string) dict"
  seed :: int
  waves :: bool
  cov :: bool
  cosim :: bool
  simulator :: string
  iss :: string
  md_test :: string
  verbose :: bool
  iterations :: "int option"
  signature_addr :: string
  md_ibex_config :: string
  dut_cov_rtl_path :: string
  isa_ibex :: "string option"
  isa_iss :: "string option"
  run_rtl_timeout_s :: int
  tests_and_counts :: "(string \<times> int \<times> test_type) list"
  tests_pickle_files :: "path list"
  dirs :: md_dirs
  ctl_files :: md_files
  md_project :: project
  phase :: md_phase

datatype md_error =
    NotAnAssignment string | BadInt string | CannotSetKey string | UnexpectedArgument string
  | MdShlex shlex_error | MdParse parse_error | MdCmd cmd_error | MdSchema schema_error
  | MdRuntime | MdAssert | MdKey string | MdType | MdStopIteration | MdRead read_error | MdExit

text \<open>The type of a field as \<open>arg_list_initializer\<close> distinguishes them, and whether the
  constructor takes the field.\<close>

datatype field_type = FStr | FInt | FBool | FPath | FOptInt | FOther

definition md_field_list :: "(string \<times> field_type \<times> bool) list" where
  "md_field_list =
     [(''dir_out'', FPath, True), (''dir_metadata'', FPath, True), (''git_commit'', FStr, True),
      (''creation_datetime'', FOther, True), (''pickle_file'', FPath, False), (''yaml_file'', FPath, False),
      (''raw_args_str'', FStr, True), (''raw_args_dict'', FOther, True), (''seed'', FInt, True),
      (''waves'', FBool, True), (''cov'', FBool, True), (''cosim'', FBool, True), (''simulator'', FStr, True),
      (''iss'', FStr, True), (''test'', FStr, True), (''verbose'', FBool, True),
      (''iterations'', FOptInt, True), (''signature_addr'', FStr, True), (''ibex_config'', FStr, True),
      (''dut_cov_rtl_path'', FStr, True), (''tests_and_counts'', FOther, True), (''isa_ibex'', FOther, True),
      (''isa_iss'', FOther, True), (''run_rtl_timeout_s'', FInt, True), (''ibex_configs'', FPath, False),
      (''ibex_riscvdv_simulator_yaml'', FPath, False), (''ibex_riscvdv_customtarget'', FPath, False),
      (''ibex_riscvdv_testlist'', FPath, False), (''ibex_riscvdv_csr'', FPath, False),
      (''directed_test_dir'', FPath, False), (''directed_test_data'', FPath, False)] @
     map (\<lambda>k. (k, FOther, True))
       [''riscvdv_build_log'', ''riscvdv_build_stdout'', ''riscvdv_build_cmds'', ''tb_build_log'',
        ''tb_build_stdout'', ''tb_build_cmds'', ''riscvdv_fcov_log'', ''riscvdv_fcov_stdout'',
        ''riscvdv_fcov_cmds'', ''cov_merge_db_list'', ''cov_merge_log'', ''cov_merge_stdout'',
        ''cov_merge_cmds'', ''cov_report_log'', ''cov_report_stdout'', ''cov_report_cmds'',
        ''regr_log'', ''regr_log_junit'', ''regr_log_junit_merged''] @
     (''environment_variables'', FOther, False) #
     map (\<lambda>k. (k, FPath, False))
       [''ibex_root'', ''riscvdv_root'', ''ot_lowrisc_ip'', ''ot_xcelium_cov_scripts'', ''ibex_dv_root'',
        ''dir_build'', ''dir_instruction_generator'', ''dir_tb'', ''dir_run'', ''dir_cov'', ''dir_fcov'',
        ''dir_shared_cov'', ''dir_cov_merged'', ''dir_cov_report''] @
     [(''tests_pickle_files'', FOther, False)]"

datatype arg_val = ArgStr string | ArgInt int | ArgBool bool | ArgPath path | ArgNone

text \<open>\<open>pair.split('=', maxsplit=1)\<close>, unpacked into two.\<close>

definition split_pair :: "string \<Rightarrow> md_error + string \<times> string" where
  "split_pair pair = res_of_option (NotAnAssignment pair) (split_once CHR ''='' pair)"

definition arg_int :: "string \<Rightarrow> md_error + int" where
  "arg_int val = res_of_option (BadInt val) (py_int 10 val)"

definition typed_arg :: "string \<Rightarrow> field_type \<Rightarrow> string \<Rightarrow> md_error + arg_val" where
  "typed_arg key ty val =
     (case ty of
        FStr \<Rightarrow> Inr (ArgStr val)
      | FInt \<Rightarrow> res_bind (arg_int val) (\<lambda>n. Inr (ArgInt n))
      | FBool \<Rightarrow> res_bind (arg_int val) (\<lambda>n. Inr (ArgBool (n \<noteq> 0)))
      | FPath \<Rightarrow> Inr (ArgPath (path_of_str val))
      | FOptInt \<Rightarrow> if val \<noteq> [] then res_bind (arg_int val) (\<lambda>n. Inr (ArgInt n)) else Inr ArgNone
      | FOther \<Rightarrow> Inl (CannotSetKey key))"

text \<open>\<open>args_dict\<close>: the fields named by the arguments, in the order of their declaration.\<close>

definition lower_chr :: "char \<Rightarrow> char" where
  "lower_chr c = (if is_upper c then char_of (code c + 32) else c)"

definition args_pairs :: "string \<Rightarrow> md_error + (string \<times> string) list" where
  "args_pairs args_list =
     (case shlex_split args_list of
        Inl e \<Rightarrow> Inl (MdShlex e)
      | Inr ws \<Rightarrow> res_map split_pair ws)"

definition dict_of :: "('k \<times> 'v) list \<Rightarrow> ('k, 'v) dict" where
  "dict_of ps = fold (\<lambda>(k, v). dset k v) ps []"

definition args_dict :: "(string \<times> string) list \<Rightarrow> md_error + (string, arg_val) dict" where
  "args_dict pairs =
     (let kv_dict = dict_of (map (\<lambda>(k, v). (map lower_chr k, v)) pairs)
      in res_bind (res_map (\<lambda>(name, ty, init).
            case dget kv_dict name of
              None \<Rightarrow> Inr []
            | Some val \<Rightarrow> res_bind (typed_arg name ty val) (\<lambda>a. Inr [(name, a)])) md_field_list)
          (\<lambda>ass. Inr (concat ass)))"

definition str_arg :: "(string, arg_val) dict \<Rightarrow> string \<Rightarrow> string \<Rightarrow> string" where
  "str_arg d k dflt = (case dget d k of Some (ArgStr s) \<Rightarrow> s | _ \<Rightarrow> dflt)"

definition int_arg :: "(string, arg_val) dict \<Rightarrow> string \<Rightarrow> int \<Rightarrow> int" where
  "int_arg d k dflt = (case dget d k of Some (ArgInt i) \<Rightarrow> i | _ \<Rightarrow> dflt)"

definition bool_arg :: "(string, arg_val) dict \<Rightarrow> string \<Rightarrow> bool \<Rightarrow> bool" where
  "bool_arg d k dflt = (case dget d k of Some (ArgBool b) \<Rightarrow> b | _ \<Rightarrow> dflt)"

text \<open>The call \<open>cls(dir_out=..., dir_metadata=..., git_commit=..., creation_datetime=...,
  **args_dict)\<close>: a field passed twice or not taken by the constructor is a \<open>TypeError\<close>.\<close>

definition refused_args :: "string list" where
  "refused_args = [''dir_out'', ''dir_metadata'', ''git_commit'', ''creation_datetime''] @
     map fst (filter (\<lambda>(k, ty, init). \<not> init) md_field_list)"

definition arg_list_initializer ::
    "project \<Rightarrow> (path \<Rightarrow> path) \<Rightarrow> path \<Rightarrow> path \<Rightarrow> string \<Rightarrow> string \<Rightarrow> md_error + regression_metadata" where
  "arg_list_initializer pr resolve dir_md out commit args_list =
     res_bind (args_pairs args_list) (\<lambda>pairs.
     res_bind (args_dict pairs) (\<lambda>d.
       case find_first (\<lambda>k. k \<in> set refused_args) (dkeys d) of
         Some k \<Rightarrow> Inl (UnexpectedArgument k)
       | None \<Rightarrow>
           Inr \<lparr>dir_out = resolve out, dir_metadata = resolve dir_md, git_commit = commit,
                raw_args_str = str_arg d ''raw_args_str'' args_list, raw_args_dict = dict_of pairs,
                seed = int_arg d ''seed'' 1, waves = bool_arg d ''waves'' False, cov = bool_arg d ''cov'' False,
                cosim = bool_arg d ''cosim'' True, simulator = str_arg d ''simulator'' '' '',
                iss = str_arg d ''iss'' '' '', md_test = str_arg d ''test'' '' '',
                verbose = bool_arg d ''verbose'' False,
                iterations = (case dget d ''iterations'' of Some (ArgInt i) \<Rightarrow> Some i | _ \<Rightarrow> None),
                signature_addr = str_arg d ''signature_addr'' '' '',
                md_ibex_config = str_arg d ''ibex_config'' '' '',
                dut_cov_rtl_path = str_arg d ''dut_cov_rtl_path'' [],
                isa_ibex = None, isa_iss = None,
                run_rtl_timeout_s = int_arg d ''run_rtl_timeout_s'' 1800,
                tests_and_counts = [], tests_pickle_files = [],
                dirs = setup_directories (resolve out), ctl_files = post_init_files pr (resolve dir_md),
                md_project = pr, phase = no_phase\<rparr>))"

definition get_ibex_metadata ::
    "(string \<Rightarrow> load_result) \<Rightarrow> project \<Rightarrow> regression_metadata \<Rightarrow> md_error + regression_metadata" where
  "get_ibex_metadata load pr md =
     (if (case iterations md of Some n \<Rightarrow> n \<le> 0 | None \<Rightarrow> False) then Inl MdRuntime
      else if seed md < 0 then Inl MdRuntime
      else case get_config load (path_str (IBEX_ROOT pr)) (md_ibex_config md) of
             Inl e \<Rightarrow> Inl (MdParse e)
           | Inr cfg \<Rightarrow>
               (case get_isas_for_config cfg of
                  Inl e \<Rightarrow> Inl (MdCmd e)
                | Inr (isa, iss_isa) \<Rightarrow> Inr (md\<lparr>isa_ibex := Some isa, isa_iss := Some iss_isa\<rparr>)))"

subsection \<open>Selecting tests\<close>

text \<open>The value an entry has for a key it must have, as an integer.\<close>

definition entry_int :: "(string, yval) dict \<Rightarrow> string \<Rightarrow> md_error + int" where
  "entry_int d k = (case dget d k of
     None \<Rightarrow> Inl (MdKey k)
   | Some v \<Rightarrow> res_of_option MdType (num_of v))"

text \<open>\<open>process_regression_list\<close> of \<open>vendor/google_riscv-dv/scripts/lib.py\<close> on one entry. An entry
  that imports another list raises: the substitution is called with a \<open>Path\<close> for a string.\<close>

definition process_regression_entry ::
    "string \<Rightarrow> int \<Rightarrow> test_entry list \<Rightarrow> yval \<Rightarrow> md_error + test_entry list" where
  "process_regression_entry test iters matched v =
     (case v of
        YDict entry \<Rightarrow>
          if ''import'' \<in> set (dkeys entry) then Inl MdType
          else (case dget entry ''test'' of
                  None \<Rightarrow> Inl (MdKey ''test'')
                | Some name \<Rightarrow>
                    if list_ex (\<lambda>t. py_eq name (YStr t)) (split_chr CHR '','' test) \<or> test = ''all'' then
                      res_bind (entry_int entry ''iterations'') (\<lambda>n.
                        let entry' = (if 0 < iters \<and> 0 < n then dset ''iterations'' (YInt iters) entry else entry)
                        in if 0 < n then Inr (matched @ [entry']) else Inr matched)
                    else Inr matched)
      | _ \<Rightarrow> Inl MdType)"

definition process_regression_list ::
    "(string \<Rightarrow> yaml_file) \<Rightarrow> string \<Rightarrow> string \<Rightarrow> int \<Rightarrow> md_error + test_entry list" where
  "process_regression_list fs testlist test iters =
     (case read_yaml fs testlist of
        Inl e \<Rightarrow> Inl (MdRead e)
      | Inr (YList entries) \<Rightarrow> res_fold (process_regression_entry test iters) [] entries
      | Inr _ \<Rightarrow> Inl MdType)"

definition iterations_or :: "regression_metadata \<Rightarrow> int \<Rightarrow> int" where
  "iterations_or md n = (case iterations md of Some k \<Rightarrow> if k \<noteq> 0 then k else n | None \<Rightarrow> n)"

definition process_riscvdv_testlist ::
    "(string \<Rightarrow> yaml_file) \<Rightarrow> regression_metadata \<Rightarrow> md_error + test_entry list" where
  "process_riscvdv_testlist fs md =
     (let names = split_chr CHR '','' (md_test md)
      in process_regression_list fs (path_str (ibex_riscvdv_testlist (ctl_files md)))
           (if ''all_riscvdv'' \<in> set names \<or> ''all'' \<in> set names then ''all'' else md_test md)
           (iterations_or md 0))"

definition process_directed_entry ::
    "regression_metadata \<Rightarrow> test_entry list \<Rightarrow> test_entry \<Rightarrow> md_error + test_entry list" where
  "process_directed_entry md matched entry =
     (let names = split_chr CHR '','' (md_test md);
          select_test = (''all_directed'' \<in> set names \<or>
            list_ex (\<lambda>n. py_eq (get_or_none entry ''test'') (YStr n)) names)
      in if \<not> select_test then Inr matched
         else res_bind (entry_int entry ''iterations'') (\<lambda>own.
                let n = iterations_or md own; entry' = dset ''iterations'' (YInt n) entry
                in if 0 < n then Inr (matched @ [entry']) else Inr matched))"

definition process_directed_testlist ::
    "coerce \<Rightarrow> (path \<Rightarrow> bool) \<Rightarrow> (string \<Rightarrow> yaml_file) \<Rightarrow> regression_metadata \<Rightarrow> md_error + test_entry list" where
  "process_directed_testlist conv exists fs md =
     (case import_model conv exists fs (directed_test_data (ctl_files md)) of
        Inl e \<Rightarrow> Inl (MdSchema e)
      | Inr m \<Rightarrow> res_fold (process_directed_entry md) [] (m_tests m))"

type_synonym counted = "(string \<times> int \<times> test_type) \<times> test_entry"

definition counted_test :: "test_type \<Rightarrow> test_entry \<Rightarrow> md_error + counted" where
  "counted_test ty test =
     (case (dget test ''test'', dget test ''iterations'') of
        (None, _) \<Rightarrow> Inl (MdKey ''test'')
      | (_, None) \<Rightarrow> Inl (MdKey ''iterations'')
      | (Some (YStr name), Some it) \<Rightarrow>
          (case num_of it of
             Some n \<Rightarrow> if 0 < n then Inr ((name, n, ty), test) else Inl MdAssert
           | None \<Rightarrow> Inl MdAssert)
      | _ \<Rightarrow> Inl MdAssert)"

definition filter_matched ::
    "(string \<Rightarrow> load_result) \<Rightarrow> regression_metadata \<Rightarrow> test_entry list \<Rightarrow> md_error + test_entry list" where
  "filter_matched load md ts =
     (case parse_config load (md_ibex_config md) (path_str (ibex_configs (ctl_files md))) of
        Inl e \<Rightarrow> Inl (MdParse e)
      | Inr cfg \<Rightarrow> (case filter_tests_by_config cfg ts of Inl e \<Rightarrow> Inl (MdCmd e) | Inr us \<Rightarrow> Inr us))"

definition get_tests_and_counts ::
    "coerce \<Rightarrow> (path \<Rightarrow> bool) \<Rightarrow> (string \<Rightarrow> yaml_file) \<Rightarrow> (string \<Rightarrow> load_result) \<Rightarrow>
     regression_metadata \<Rightarrow> md_error + counted list" where
  "get_tests_and_counts conv exists fs load md =
     res_bind (process_riscvdv_testlist fs md) (\<lambda>rv.
     res_bind (process_directed_testlist conv exists fs md) (\<lambda>dt.
       if rv = [] \<and> dt = [] then Inl MdRuntime
       else
         res_bind (filter_matched load md rv) (\<lambda>rv'.
         res_bind (filter_matched load md dt) (\<lambda>dt'.
         res_bind (res_map (counted_test RISCVDV) rv') (\<lambda>rs.
         res_bind (res_map (counted_test DIRECTED) dt') (\<lambda>ds. Inr (rs @ ds)))))))"

subsection \<open>The object of a test run\<close>

definition tds_str :: "string \<Rightarrow> int \<Rightarrow> string" where
  "tds_str test testseed = test @ ''.'' @ int_str testseed"

text \<open>\<open>range(md.seed, md.seed + count)\<close>\<close>

definition seeds :: "regression_metadata \<Rightarrow> int \<Rightarrow> int list" where
  "seeds md count = [seed md..seed md + count - 1]"

definition shlex_if_not_empty :: "test_entry \<Rightarrow> string \<Rightarrow> md_error + string list" where
  "shlex_if_not_empty obj fld =
     (case get_or_none obj fld of
        YStr s \<Rightarrow> (case shlex_split s of Inl e \<Rightarrow> Inl (MdShlex e) | Inr ws \<Rightarrow> Inr ws)
      | v \<Rightarrow> if py_truth v then Inl MdType else Inr [])"

text \<open>The loop over the plusargs: each must split into exactly two at \<open>=\<close>.\<close>

definition discrete_debug :: "bool option \<Rightarrow> string \<Rightarrow> md_error + bool option" where
  "discrete_debug cur opt =
     (case split_chr CHR ''='' opt of
        [plusarg, val] \<Rightarrow>
          if plusarg = ''+discrete_debug_module''
          then res_bind (arg_int val) (\<lambda>n. Inr (Some (n \<noteq> 0))) else Inr cur
      | _ \<Rightarrow> Inl (NotAnAssignment opt))"

definition base_trr :: "regression_metadata \<Rightarrow> string \<Rightarrow> int \<Rightarrow> test_type \<Rightarrow> test_run_result" where
  "base_trr md test testseed ty =
     (let tds = tds_str test testseed; dir = pdiv (dir_tests (dirs md)) tds
      in empty_trr\<lparr>testtype := Some ty, testdotseed := Some tds, testname := Some test,
           trr_seed := Some testseed, rtl_simulator := Some (simulator md), iss_cosim := Some (iss md),
           dir_test := Some dir, metadata_pickle_file := Some (md_pickle_file (ctl_files md)),
           trr_pickle_file := Some (pdiv (dir_metadata md) (tds @ ''.pickle'')),
           trr_yaml_file := Some (pdiv dir ''trr.yaml'')\<rparr>)"

definition make_trr ::
    "(unit \<Rightarrow> md_error + test_entry list) \<Rightarrow> regression_metadata \<Rightarrow> counted \<Rightarrow> int \<Rightarrow> md_error + test_run_result" where
  "make_trr directed md c testseed = (case c of ((test, count, ty), obj) \<Rightarrow>
     let trr = base_trr md test testseed ty
     in case ty of
          RISCVDV \<Rightarrow>
            res_bind (shlex_if_not_empty obj ''gen_test'') (\<lambda>gt.
            res_bind (shlex_if_not_empty obj ''gen_opts'') (\<lambda>go.
            res_bind (shlex_if_not_empty obj ''rtl_test'') (\<lambda>rt.
            res_bind (shlex_if_not_empty obj ''sim_opts'') (\<lambda>so.
            res_bind (res_fold discrete_debug None so) (\<lambda>ddm.
              Inr (trr\<lparr>gen_test := Some gt, gen_opts := Some go, rtl_test := Some rt,
                       trr_sim_opts := Some so, is_discrete_debug_module := ddm\<rparr>))))))
        | DIRECTED \<Rightarrow>
            res_bind (directed ()) (\<lambda>ts.
              (case find_first (\<lambda>d. py_eq (get_or_none d ''test'') (YStr test)) ts of
                 None \<Rightarrow> Inl MdStopIteration
               | Some d \<Rightarrow> Inr (trr\<lparr>directed_data := Some d\<rparr>))))"

subsection \<open>The operations of the script\<close>

definition create_metadata ::
    "project \<Rightarrow> (path \<Rightarrow> path) \<Rightarrow> coerce \<Rightarrow> (path \<Rightarrow> bool) \<Rightarrow> (string \<Rightarrow> yaml_file) \<Rightarrow> (string \<Rightarrow> load_result) \<Rightarrow>
     path \<Rightarrow> path \<Rightarrow> string \<Rightarrow> string \<Rightarrow> md_error + regression_metadata \<times> test_run_result list" where
  "create_metadata pr resolve conv exists fs load dir_md out commit args_list =
     res_bind (arg_list_initializer pr resolve dir_md out commit args_list) (\<lambda>md0.
     res_bind (get_ibex_metadata load pr md0) (\<lambda>md1.
     res_bind (get_tests_and_counts conv exists fs load md1) (\<lambda>tcs.
       let md2 = md1\<lparr>tests_and_counts := map fst tcs\<rparr>
       in if tcs = [] then Inl MdRuntime
          else
            res_bind (res_map (\<lambda>(c, s). make_trr (\<lambda>_. case import_model conv exists fs (directed_test_data (ctl_files md2)) of
                                   Inl e \<Rightarrow> Inl (MdSchema e) | Inr m \<Rightarrow> Inr (m_tests m)) md2 c s)
                (concat (map (\<lambda>c. map (Pair c) (seeds md2 (fst (snd (fst c))))) tcs))) (\<lambda>trrs.
              Inr (md2\<lparr>tests_pickle_files := List.map_filter trr_pickle_file trrs\<rparr>, trrs)))))"

definition tds_of_type :: "regression_metadata \<Rightarrow> test_type \<Rightarrow> string list" where
  "tds_of_type md ty = concat (map (\<lambda>(test, count, testtype).
     if testtype = ty then map (tds_str test) (seeds md count) else []) (tests_and_counts md))"

text \<open>\<open>--op print_field\<close>: the two lists of tests, and any other field through \<open>getattr\<close>.\<close>

definition print_field :: "(string \<Rightarrow> string option option) \<Rightarrow> regression_metadata \<Rightarrow> string \<Rightarrow> md_error + string" where
  "print_field getattr md fld =
     (if fld = ''riscvdv_tds'' then Inr (py_join '' '' (tds_of_type md RISCVDV))
      else if fld = ''directed_tds'' then Inr (py_join '' '' (tds_of_type md DIRECTED))
      else case getattr fld of
             None \<Rightarrow> Inl (MdKey fld)
           | Some None \<Rightarrow> Inl MdRuntime
           | Some (Some s) \<Rightarrow> Inr s)"

subsection \<open>Lemmas\<close>

lemma dict_of_last: "dget (dict_of ps) k = dget (rev ps) k"
proof -
  have "dict_of ps = dmerge [] ps" by (simp add: dict_of_def dmerge_def)
  then show ?thesis by (simp add: dget_dmerge split: option.splits)
qed

lemma dget_dict_of_distinct: "distinct (map fst ps) \<Longrightarrow> dget (dict_of ps) = dget ps"
  unfolding dict_of_last
  by (intro ext map_of_eqI_distinct) (simp_all add: rev_map [symmetric])

lemma args_pairs_quoted:
  assumes "list_all (\<lambda>(k, v). CHR ''='' \<notin> set k) kvs"
  shows "args_pairs (py_join '' '' (map (\<lambda>(k, v). shlex_quote (k @ ''='' @ v)) kvs)) = Inr kvs"
proof -
  have "shlex_split (py_join '' '' (map (\<lambda>x. shlex_quote ((\<lambda>(k, v). k @ ''='' @ v) x)) kvs)) =
      Inr (map (\<lambda>(k, v). k @ ''='' @ v) kvs)"
    by (rule shx.split_map_items)
  moreover have "res_map split_pair (map (\<lambda>(k, v). k @ ''='' @ v) kvs) = Inr kvs"
    using assms
    by (induction kvs) (auto simp: split_pair_def split_once_append)
  ultimately show ?thesis by (simp add: args_pairs_def case_prod_unfold)
qed

lemma tds_parts:
  assumes "test \<noteq> []" "CHR ''.'' \<notin> set test" "0 \<le> s"
  shows "read_test_dot_seed (tds_str test s) = Some (test, s)"
  using read_tds_roundtrip [OF assms(1,2), of "nat s"] assms(3) by (simp add: tds_str_def int_str_def)

lemma tds_inj_on:
  assumes "distinct (map fst tcs)" "list_all (\<lambda>(t, c, ty). t \<noteq> [] \<and> CHR ''.'' \<notin> set t) tcs" "0 \<le> m"
  shows "distinct (concat (map (\<lambda>(t, c, ty). map (tds_str t) [m..m + c - 1]) tcs))"
  using assms
proof (induction tcs)
  case Nil
  then show ?case by simp
next
  case (Cons a tcs)
  obtain t c ty where a: "a = (t, c, ty)" by (cases a)
  have parse: "read_test_dot_seed (tds_str t' s) = Some (t', s)"
    if "(t', c', ty') \<in> set (a # tcs)" "m \<le> s" for t' c' ty' s
    using that Cons.prems by (intro tds_parts) (force simp: list_all_iff)+
  have "inj_on (tds_str t) (set [m..m + c - 1])"
  proof (rule inj_onI)
    fix x y assume xy: "x \<in> set [m..m + c - 1]" "y \<in> set [m..m + c - 1]" and eq: "tds_str t x = tds_str t y"
    have "read_test_dot_seed (tds_str t x) = Some (t, x)" "read_test_dot_seed (tds_str t y) = Some (t, y)"
      using xy by (auto simp: a intro!: parse [of t c ty])
    then show "x = y" unfolding eq by (metis option.inject prod.inject)
  qed
  then have "distinct (map (tds_str t) [m..m + c - 1])" by (simp add: distinct_map)
  moreover have "tds_str t x \<noteq> tds_str t' y"
    if "(t', c', ty') \<in> set tcs" "m \<le> x" "m \<le> y" for x y t' c' ty'
  proof
    assume eq: "tds_str t x = tds_str t' y"
    have "read_test_dot_seed (tds_str t x) = Some (t, x)" "read_test_dot_seed (tds_str t' y) = Some (t', y)"
      using that by (auto simp: a intro!: parse [of t c ty] parse [of t' c' ty'])
    then have "t = t'" unfolding eq by (metis option.inject prod.inject)
    with Cons.prems(1) that(1) show False by (force simp: a)
  qed
  ultimately show ?case using Cons by (auto simp: a)
qed

subsection \<open>Properties\<close>

text \<open>C20: The names \<open>TEST.SEED\<close> of a regression identify its runs: if the names of the tests
  differ and have no dot, no two runs share one, and the argument parser of the later phases
  reads each back to its test and its seed.\<close>

theorem tds_identify_runs:
  assumes "distinct (map fst (tests_and_counts md))" "0 \<le> seed md"
    "list_all (\<lambda>(t, c, ty). t \<noteq> [] \<and> CHR ''.'' \<notin> set t) (tests_and_counts md)"
  shows "distinct (concat (map (\<lambda>(t, c, ty). map (tds_str t) (seeds md c)) (tests_and_counts md))) \<and>
    list_all (\<lambda>(t, c, ty). list_all (\<lambda>s. read_test_dot_seed (tds_str t s) = Some (t, s)) (seeds md c))
      (tests_and_counts md)"
  using tds_inj_on [OF assms(1,3,2)] assms(2,3) tds_parts
  by (fastforce simp: seeds_def list_all_iff)

text \<open>C21: Arguments given as quoted \<open>KEY=VALUE\<close> words reach the metadata unchanged, whatever
  characters the values contain: the last value given for a key is its entry in
  \<open>raw_args_dict\<close>.\<close>

theorem raw_args_roundtrip:
  assumes "list_all (\<lambda>(k, v). CHR ''='' \<notin> set k) kvs"
    "arg_list_initializer pr resolve dm out commit
       (py_join '' '' (map (\<lambda>(k, v). shlex_quote (k @ ''='' @ v)) kvs)) = Inr md"
  shows "dget (raw_args_dict md) k = dget (rev kvs) k"
proof -
  from assms(2) have "raw_args_dict md = dict_of kvs"
    unfolding arg_list_initializer_def args_pairs_quoted [OF assms(1)]
    by (auto simp: res_bind_eq_Inr split: option.splits)
  then show ?thesis by (simp add: dict_of_last)
qed

text \<open>\<open>TEST=all\<close> does not run all tests: it selects every random test, but of the directed
  tests only one that is itself called \<open>all\<close>.\<close>

theorem all_skips_directed:
  assumes "md_test md = ''all''" "import_model conv exists fs (directed_test_data (ctl_files md)) = Inr m"
    "list_all (\<lambda>d. get_or_none d ''test'' \<noteq> YStr ''all'') (m_tests m)"
  shows "process_directed_testlist conv exists fs md = Inr []"
proof -
  have "res_fold (process_directed_entry md) [] ts = Inr []"
    if "list_all (\<lambda>d. get_or_none d ''test'' \<noteq> YStr ''all'') ts" for ts
    using that
  proof (induction ts)
    case Nil
    then show ?case by simp
  next
    case (Cons d ts)
    have "\<not> py_eq (get_or_none d ''test'') (YStr ''all'')"
      using Cons.prems by (auto simp: py_eq_def num_of_def split: option.splits)
    then have "process_directed_entry md [] d = Inr []"
      by (simp add: process_directed_entry_def assms(1) Let_def)
    with Cons show ?case by simp
  qed
  with assms show ?thesis by (simp add: process_directed_testlist_def)
qed

subsection \<open>A regression\<close>

definition sample_md :: "string \<Rightarrow> regression_metadata" where
  "sample_md test =
     (let root = path_of_str ''/ibex''; out = path_of_str ''/out''
      in \<lparr>dir_out = out, dir_metadata = pdiv out ''metadata'', git_commit = ''deadbeef'', raw_args_str = [],
          raw_args_dict = [], seed = 7, waves = False, cov = False, cosim = True, simulator = ''xlm'',
          iss = ''spike'', md_test = test, verbose = False, iterations = None, signature_addr = ''8ffffffc'',
          md_ibex_config = ''small'', dut_cov_rtl_path = [], isa_ibex = None, isa_iss = None,
          run_rtl_timeout_s = 1800,
          tests_and_counts = [(''riscv_arithmetic_basic_test'', 2, RISCVDV), (''add'', 1, DIRECTED)],
          tests_pickle_files = [], dirs = setup_directories out,
          ctl_files = post_init_files (setup_imports root) (pdiv out ''metadata''),
          md_project = setup_imports root, phase = no_phase\<rparr>)"

theorem tds_identify_runs_witness:
  "read_test_dot_seed (tds_str ''riscv_arithmetic_basic_test'' 8) = Some (''riscv_arithmetic_basic_test'', 8)"
proof -
  let ?md = "sample_md ''all''"
  have "list_all (\<lambda>(t, c, ty). list_all (\<lambda>s. read_test_dot_seed (tds_str t s) = Some (t, s)) (seeds ?md c))
      (tests_and_counts ?md)"
    using tds_identify_runs [of ?md] by (simp add: sample_md_def Let_def)
  then have "list_all (\<lambda>s. read_test_dot_seed (tds_str ''riscv_arithmetic_basic_test'' s) =
      Some (''riscv_arithmetic_basic_test'', s)) (seeds ?md 2)"
    by (simp add: sample_md_def Let_def)
  moreover have "8 \<in> set (seeds ?md 2)" by (simp add: seeds_def sample_md_def Let_def)
  ultimately show ?thesis by (simp only: list_all_iff Ball_def)
qed

theorem raw_args_roundtrip_witness:
  "\<exists>md. arg_list_initializer (setup_imports (path_of_str ''/ibex'')) (\<lambda>p. p) (path_of_str ''/m'') (path_of_str ''/o'') []
       (py_join '' '' (map (\<lambda>(k, v). shlex_quote (k @ ''='' @ v)) [(''x'', ''1''), (''x'', ''a b'')])) = Inr md \<and>
     dget (raw_args_dict md) ''x'' = Some ''a b''"
proof -
  let ?kvs = "[(''x'', ''1''), (''x'', ''a b'')]"
  have pairs: "args_pairs (py_join '' '' (map (\<lambda>(k, v). shlex_quote (k @ ''='' @ v)) ?kvs)) = Inr ?kvs"
    by (rule args_pairs_quoted) simp
  have dict: "args_dict ?kvs = Inr []"
    by (simp add: args_dict_def dict_of_def md_field_list_def lower_chr_def is_upper_def Let_def)
  have "\<exists>md. arg_list_initializer (setup_imports (path_of_str ''/ibex'')) (\<lambda>p. p) (path_of_str ''/m'') (path_of_str ''/o'') []
       (py_join '' '' (map (\<lambda>(k, v). shlex_quote (k @ ''='' @ v)) ?kvs)) = Inr md"
    unfolding arg_list_initializer_def pairs by (simp add: dict)
  then obtain md where md: "arg_list_initializer (setup_imports (path_of_str ''/ibex'')) (\<lambda>p. p) (path_of_str ''/m'') (path_of_str ''/o'') []
       (py_join '' '' (map (\<lambda>(k, v). shlex_quote (k @ ''='' @ v)) ?kvs)) = Inr md" ..
  have "dget (raw_args_dict md) ''x'' = Some ''a b''"
    by (subst raw_args_roundtrip [OF _ md]) simp_all
  with md show ?thesis by blast
qed

definition sample_md_directed :: regression_metadata where
  "sample_md_directed = (sample_md ''all'')\<lparr>ctl_files := (ctl_files (sample_md ''all''))
     \<lparr>directed_test_data := path_of_str ''d/t.yaml''\<rparr>\<rparr>"

theorem all_skips_directed_witness:
  "process_directed_testlist sample_conv (\<lambda>_. True) sample_fs sample_md_directed = Inr []"
proof -
  let ?i = "import_model sample_conv (\<lambda>_. True) sample_fs (path_of_str ''d/t.yaml'')"
  have ok: "case ?i of Inl _ \<Rightarrow> False | Inr m \<Rightarrow> list_all (\<lambda>d. get_or_none d ''test'' \<noteq> YStr ''all'') (m_tests m)"
    by code_simp
  then obtain m where "?i = Inr m" by (cases ?i) auto
  with ok show ?thesis
    by (intro all_skips_directed [where m = m]) (simp_all add: sample_md_directed_def sample_md_def Let_def)
qed

end
