(* ===== verification/Riscvdv_Interface.thy ===== *)
theory Riscvdv_Interface
  imports Metadata
begin

text \<open>
  \<open>dv/uvm/core_ibex/scripts/riscvdv_interface.py\<close>: the command lines of riscv-dv and the tool
  commands made from the templates of \<open>rtl_simulation.yaml\<close>. The environment of the process and
  \<open>Path.resolve\<close> are parameters; the user's substitutions come with paths already resolved.
\<close>

subsection \<open>riscv-dv's own scripts\<close>

definition get_run_cmd :: "project \<Rightarrow> bool \<Rightarrow> pyarg list" where
  "get_run_cmd pr verb =
     (let ext = CORE_IBEX_RISCV_DV_EXTENSION pr; str = (\<lambda>s. AVal (YStr s)); pth = (\<lambda>p. APath (path_str p))
      in [str ''python3'', pth (pdiv (RISCV_DV pr) ''run.py''),
          str ''--testlist'', pth (pdiv ext ''testlist.yaml''),
          str ''--gcc_opts=-mno-strict-align'',
          str ''--custom_target'', pth ext,
          str ''--csr_yaml'', pth (pdiv ext ''csr_description.yaml''),
          str ''--mabi=ilp32''] @ (if verb then [str ''--verbose''] else []))"

text \<open>The ISA may still be unset (\<open>None\<close>), as in the code.\<close>

definition get_cov_cmd :: "project \<Rightarrow> regression_metadata \<Rightarrow> string option list" where
  "get_cov_cmd pr md =
     [Some ''python3'', Some (path_str (pdiv (RISCV_DV pr) ''cov.py'')), Some ''--core'', Some ''ibex'',
      Some ''--dir'', Some (path_str (dir_run (dirs md))), Some ''-o'', Some (path_str (dir_fcov (dirs md))),
      Some ''--simulator'', Some (simulator md), Some ''--opts'', Some ''--gen_timeout 1000'',
      Some ''--isa'', isa_ibex md,
      Some ''--custom_target'', Some (path_str (ibex_riscvdv_customtarget (ctl_files md)))] @
     (if verbose md then [Some ''--verbose''] else [])"

subsection \<open>Commands from templates\<close>

datatype tool_error =
    ToolKey string | ToolType | ToolAttribute | ToolAssert | NotSubstituted "string list"
  | ToolEnv env_error | ToolShlex shlex_error | ToolRead read_error | NoSimulator string

text \<open>\<open>re.findall(r'(<[\w]+>)', s)\<close>\<close>

function params_left :: "string \<Rightarrow> string list" where
  "params_left [] = []"
| "params_left (c # s) =
     (let w = takeWhile is_word s; r = dropWhile is_word s
      in if c = CHR ''<'' \<and> w \<noteq> [] \<and> r \<noteq> [] \<and> hd r = CHR ''>''
         then (''<'' @ w @ ''>'') # params_left (tl r) else params_left s)"
  by pat_completeness auto
termination
proof (relation "measure length", goal_cases)
  case (2 c s w r)
  then show ?case using length_dropWhile_le [of is_word s] by (cases r) auto
qed simp_all

text \<open>Step (1): the other keys of the entry, gated by the user's enables.\<close>

definition cmd_opts_dict ::
    "(string, bool) dict \<Rightarrow> (string, yval) dict \<Rightarrow> tool_error + (string, string) dict" where
  "cmd_opts_dict user_enables opts =
     res_map (\<lambda>(k, v).
        if dget user_enables k = Some True
        then (case v of YStr s \<Rightarrow> Inr (k, py_strip s) | _ \<Rightarrow> Inl ToolAttribute)
        else Inr (k, [])) (filter (\<lambda>(k, v). k \<noteq> ''cmd'') opts)"

text \<open>The names in \<open>env_var\<close>.\<close>

definition env_var_names :: "(string, yval) dict \<Rightarrow> tool_error + string list" where
  "env_var_names entry =
     (case dget entry ''env_var'' of
        None \<Rightarrow> Inr []
      | Some (YStr s) \<Rightarrow> Inr (split_chr CHR '','' (py_replace '' '' [] s))
      | Some _ \<Rightarrow> Inl ToolAttribute)"

definition tool_cmd ::
    "(string, string) dict \<Rightarrow> (string, yval) dict \<Rightarrow> (string, yval) dict \<Rightarrow> (string, bool) dict \<Rightarrow>
     (string, string) dict \<Rightarrow> string \<Rightarrow> tool_error + string list" where
  "tool_cmd environ entry opts user_enables user_subst cmd =
     res_bind (cmd_opts_dict user_enables opts) (\<lambda>od.
     res_bind (env_var_names entry) (\<lambda>vars.
       case subst_env_vars environ (subst_dict (subst_dict cmd od) user_subst) vars of
         Inl e \<Rightarrow> Inl (ToolEnv e)
       | Inr formatted \<Rightarrow>
           if params_left formatted \<noteq> [] then Inl (NotSubstituted (params_left formatted))
           else (case shlex_split formatted of Inl e \<Rightarrow> Inl (ToolShlex e) | Inr ws \<Rightarrow> Inr ws)))"

definition get_yaml_for_simulator ::
    "(string \<Rightarrow> yaml_file) \<Rightarrow> string \<Rightarrow> string \<Rightarrow> tool_error + (string, yval) dict" where
  "get_yaml_for_simulator fs yaml_path sim =
     (case read_yaml fs yaml_path of
        Inl e \<Rightarrow> Inl (ToolRead e)
      | Inr (YList entries) \<Rightarrow>
          (case find_first (\<lambda>v. case v of YDict d \<Rightarrow> dget d ''tool'' = Some (YStr sim) | _ \<Rightarrow> True) entries of
             Some (YDict d) \<Rightarrow> Inr d
           | Some _ \<Rightarrow> Inl ToolAttribute
           | None \<Rightarrow> Inl (NoSimulator sim))
      | Inr _ \<Rightarrow> Inl ToolType)"

definition cmd_templates :: "(string, yval) dict \<Rightarrow> tool_error + string list" where
  "cmd_templates opts =
     (case dget opts ''cmd'' of
        None \<Rightarrow> Inl (ToolKey ''cmd'')
      | Some (YList vs) \<Rightarrow> res_map (\<lambda>v. case v of YStr s \<Rightarrow> Inr s | _ \<Rightarrow> Inl ToolAssert) vs
      | Some (YStr s) \<Rightarrow> Inr (map (\<lambda>c. [c]) s)
      | Some _ \<Rightarrow> Inl ToolType)"

definition get_tool_cmds ::
    "(string, string) dict \<Rightarrow> (string \<Rightarrow> yaml_file) \<Rightarrow> string \<Rightarrow> string \<Rightarrow> string \<Rightarrow> (string, bool) dict \<Rightarrow>
     (string, string) dict \<Rightarrow> tool_error + string list list" where
  "get_tool_cmds environ fs yaml_path sim cmd_type user_enables user_subst =
     res_bind (get_yaml_for_simulator fs yaml_path sim) (\<lambda>entry.
       case dget entry cmd_type of
         None \<Rightarrow> Inl (ToolKey cmd_type)
       | Some (YDict opts) \<Rightarrow>
           res_bind (cmd_templates opts) (\<lambda>cmds.
             res_map (tool_cmd environ entry opts user_enables user_subst) cmds)
       | Some _ \<Rightarrow> Inl ToolType)"

subsection \<open>What is left of a template\<close>

fun holes :: "piece list \<Rightarrow> string list" where
  "holes [] = []"
| "holes (Lit s # ps) = holes ps"
| "holes (Hole n # ps) = n # holes ps"

definition name_ok :: "string \<Rightarrow> bool" where
  "name_ok n \<longleftrightarrow> n \<noteq> [] \<and> list_all is_word n"

lemma word_plain: "is_word c \<Longrightarrow> c \<noteq> CHR ''<'' \<and> c \<noteq> CHR ''>''"
  by (auto simp: is_word_def is_digit_def is_upper_def is_lower_def)

lemma name_ok_plain: "name_ok n \<Longrightarrow> plain n"
  by (auto simp: name_ok_def plain_def list_all_iff dest: word_plain)

lemma params_left_plain: "CHR ''<'' \<notin> set u \<Longrightarrow> params_left (u @ s) = params_left s"
  by (induction u) (auto simp: Let_def)

lemma params_left_hole:
  assumes "name_ok n"
  shows "params_left (parameter_format n @ s) = parameter_format n # params_left s"
proof -
  have w: "takeWhile is_word (n @ CHR ''>'' # s) = n" "dropWhile is_word (n @ CHR ''>'' # s) = CHR ''>'' # s"
    using assms word_plain [of "CHR ''>''"]
    by (auto simp: name_ok_def list_all_iff takeWhile_append2 dropWhile_append2)
  then show ?thesis using assms by (simp add: parameter_format_def Let_def name_ok_def)
qed

lemma params_left_render:
  "list_all piece_ok ps \<Longrightarrow> list_all name_ok (holes ps) \<Longrightarrow> params_left (render ps) = map parameter_format (holes ps)"
proof (induction ps rule: holes.induct)
  case (2 s ps)
  then show ?case by (simp add: params_left_plain plain_def)
next
  case (3 n ps)
  then show ?case by (simp add: params_left_hole)
qed simp

text \<open>
  How a template is read: the sources of values in their order, the tool's own options, the
  user's substitutions, the environment, give each placeholder the first value there is for
  its name. A value may hold placeholders itself (as the coverage and co-simulation options of
  \<open>rtl_simulation.yaml\<close> do); these get their values from the entries after it.
\<close>

type_synonym entries = "(string \<times> piece list) list"

fun expand :: "entries \<Rightarrow> piece \<Rightarrow> piece list" where
  "expand d (Lit s) = [Lit s]"
| "expand [] (Hole n) = [Hole n]"
| "expand ((k, v) # d) (Hole n) = (if n = k then concat (map (expand d) v) else expand d (Hole n))"

text \<open>The entries as the strings they are in the code.\<close>

definition texts :: "entries \<Rightarrow> (string, string) dict" where
  "texts d = map (\<lambda>(k, v). (k, render v)) d"

definition inline :: "string \<Rightarrow> piece list \<Rightarrow> piece list \<Rightarrow> piece list" where
  "inline k v ps = concat (map (expand [(k, v)]) ps)"

lemma render_append [simp]: "render (ps @ qs) = render ps @ render qs"
  by (simp add: render_def)

lemma expand_Nil [simp]: "concat (map (expand []) ps) = ps"
proof (induction ps)
  case (Cons p ps)
  then show ?case by (cases p) simp_all
qed simp

lemma inline_render: "render (fill (\<lambda>n. if n = k then Some (render v) else None) ps) = render (inline k v ps)"
proof (induction ps)
  case Nil
  then show ?case by (simp add: inline_def)
next
  case (Cons p ps)
  then show ?case by (cases p) (simp_all add: inline_def)
qed

lemma expand_step: "concat (map (expand d) (inline k v ps)) = concat (map (expand ((k, v) # d)) ps)"
proof (induction ps)
  case Nil
  then show ?case by (simp add: inline_def)
next
  case (Cons p ps)
  then show ?case by (cases p) (simp_all add: inline_def)
qed

text \<open>Names and literal texts are free of angle brackets, placeholders are words.\<close>

definition entry_ok :: "string \<times> piece list \<Rightarrow> bool" where
  "entry_ok = (\<lambda>(k, v). plain k \<and> list_all piece_ok v \<and> list_all name_ok (holes v))"

lemma holes_append [simp]: "holes (ps @ qs) = holes ps @ holes qs"
  by (induction ps rule: holes.induct) auto

lemma inline_ok:
  assumes "list_all piece_ok v" "list_all name_ok (holes v)" "list_all piece_ok ps" "list_all name_ok (holes ps)"
  shows "list_all piece_ok (inline k v ps) \<and> list_all name_ok (holes (inline k v ps))"
  using assms(3,4)
proof (induction ps)
  case Nil
  then show ?case by (simp add: inline_def)
next
  case (Cons p ps)
  then show ?case using assms(1,2) by (cases p) (auto simp: inline_def)
qed

lemma subst_dict_expand:
  assumes "list_all entry_ok d" "list_all piece_ok ps" "list_all name_ok (holes ps)"
  shows "subst_dict (render ps) (texts d) = render (concat (map (expand d) ps)) \<and>
    list_all piece_ok (concat (map (expand d) ps)) \<and> list_all name_ok (holes (concat (map (expand d) ps)))"
  using assms
proof (induction d arbitrary: ps)
  case Nil
  then show ?case by (simp add: subst_dict_def texts_def)
next
  case (Cons e d)
  obtain k v where e: "e = (k, v)" by (cases e)
  with Cons.prems have ok: "plain k" "list_all piece_ok v" "list_all name_ok (holes v)" "list_all entry_ok d"
    by (simp_all add: entry_ok_def)
  have "subst_opt (render ps) k (render v) = render (inline k v ps)"
    using Cons.prems(2) ok(1) by (simp add: subst_opt_render inline_render)
  moreover note conj = inline_ok [OF ok(2,3) Cons.prems(2,3), of k]
  ultimately show ?case
    using Cons.IH [OF ok(4) conjunct1 [OF conj] conjunct2 [OF conj]]
    by (simp add: subst_dict_def texts_def e expand_step)
qed

definition env_entries :: "(string, string) dict \<Rightarrow> string list \<Rightarrow> entries" where
  "env_entries environ vars = map (\<lambda>v. (v, [Lit (the (dget environ v))])) vars"

lemma subst_env_unset:
  "find_first (\<lambda>v. dget environ v = None) vars = Some v \<Longrightarrow>
   subst_env_vars environ s vars = Inl (EnvVarNotSet v)"
  by (induction vars arbitrary: s) (auto simp: subst_env_vars_def split: if_splits option.splits)

lemma subst_env_set:
  "find_first (\<lambda>v. dget environ v = None) vars = None \<Longrightarrow>
   subst_env_vars environ s vars = Inr (subst_dict s (texts (env_entries environ vars)))"
  by (induction vars arbitrary: s)
    (auto simp: subst_env_vars_def subst_dict_def texts_def env_entries_def split: if_splits option.splits)

subsection \<open>Properties\<close>

text \<open>C18: A tool command is its template with every placeholder filled, although the code
  substitutes name after name in the text, first the tool's options (empty unless enabled),
  then the user's values, then the variables of the environment: each placeholder gets the first
  value for its name in this order, and placeholders within a value get theirs from the entries
  after it. A listed variable that is not set is an error, whether the template uses it or not;
  otherwise the command is refused, naming the placeholders in question, exactly if one is left
  without a value, and no \<open><NAME>\<close> ever reaches the shell words. (For templates and values whose
  angle brackets are those of placeholders, and variables whose values have none.)\<close>

theorem tool_cmd_template:
  assumes "list_all piece_ok ps" "list_all name_ok (holes ps)"
    and "cmd_opts_dict user_enables opts = Inr (texts od)" "list_all entry_ok (od @ us)"
    and "env_var_names entry = Inr vars" "list_all plain vars"
      "list_all (\<lambda>v. case dget environ v of None \<Rightarrow> True | Some x \<Rightarrow> plain x) vars"
  shows "tool_cmd environ entry opts user_enables (texts us) (render ps) =
    (case find_first (\<lambda>v. dget environ v = None) vars of
       Some v \<Rightarrow> Inl (ToolEnv (EnvVarNotSet v))
     | None \<Rightarrow>
         let out = concat (map (expand (od @ us @ env_entries environ vars)) ps)
         in if holes out \<noteq> [] then Inl (NotSubstituted (map parameter_format (holes out)))
            else (case shlex_split (render out) of Inl e \<Rightarrow> Inl (ToolShlex e) | Inr ws \<Rightarrow> Inr ws))"
proof (cases "find_first (\<lambda>v. dget environ v = None) vars")
  case (Some v)
  then show ?thesis by (simp add: tool_cmd_def assms(3,5) subst_env_unset)
next
  case None
  have "list_all entry_ok (env_entries environ vars)"
    using assms(6,7) None
    by (induction vars) (auto simp: env_entries_def entry_ok_def split: if_splits option.splits)
  with assms(4) have ok: "list_all entry_ok (od @ us @ env_entries environ vars)" by simp
  let ?out = "concat (map (expand (od @ us @ env_entries environ vars)) ps)"
  have "subst_dict (subst_dict (subst_dict (render ps) (texts od)) (texts us)) (texts (env_entries environ vars)) =
      subst_dict (render ps) (texts (od @ us @ env_entries environ vars))"
    by (simp add: subst_dict_def texts_def)
  also note conjunct1 [OF subst_dict_expand [OF ok assms(1,2)]]
  finally have "subst_env_vars environ (subst_dict (subst_dict (render ps) (texts od)) (texts us)) vars =
      Inr (render ?out)" by (simp add: subst_env_set None)
  moreover have "params_left (render ?out) = map parameter_format (holes ?out)"
    using subst_dict_expand [OF ok assms(1,2)] by (intro params_left_render) blast+
  ultimately show ?thesis by (simp add: tool_cmd_def assms(3,5) None Let_def)
qed


text \<open>As in the entry for VCS: the coverage options hold placeholders for the user's values and for
  a variable of the environment; the waves are not enabled.\<close>

theorem tool_cmd_template_witness:
  "tool_cmd [(''IBEX_ROOT'', ''/ibex'')] [(''env_var'', YStr ''IBEX_ROOT, X'')]
     [(''cov_opts'', YStr ''-cm_dir <out>/t.vdb -cm_name test_<name>_<seed> -I<IBEX_ROOT> ''),
      (''wave_opts'', YStr ''-ucli'')]
     [(''cov_opts'', True)] [(''out'', ''/o''), (''name'', ''t''), (''seed'', ''7'')] ''vcs <cov_opts> <wave_opts>'' =
   Inl (ToolEnv (EnvVarNotSet ''X'')) \<and>
   tool_cmd [(''IBEX_ROOT'', ''/ibex'')] [(''env_var'', YStr ''IBEX_ROOT'')]
     [(''cov_opts'', YStr ''-cm_dir <out>/t.vdb -cm_name test_<name>_<seed> -I<IBEX_ROOT> ''),
      (''wave_opts'', YStr ''-ucli'')]
     [(''cov_opts'', True)] [(''out'', ''/o''), (''name'', ''t''), (''seed'', ''7'')] ''vcs <cov_opts> <wave_opts>'' =
   Inr [''vcs'', ''-cm_dir'', ''/o/t.vdb'', ''-cm_name'', ''test_t_7'', ''-I/ibex'']"
proof -
  let ?ps = "[Lit ''vcs '', Hole ''cov_opts'', Lit '' '', Hole ''wave_opts'']"
  let ?od = "[(''cov_opts'', [Lit ''-cm_dir '', Hole ''out'', Lit ''/t.vdb -cm_name test_'', Hole ''name'',
      Lit ''_'', Hole ''seed'', Lit '' -I'', Hole ''IBEX_ROOT'']), (''wave_opts'', [])]"
  let ?us = "[(''out'', [Lit ''/o'']), (''name'', [Lit ''t'']), (''seed'', [Lit ''7''])]"
  let ?opts = "[(''cov_opts'', YStr ''-cm_dir <out>/t.vdb -cm_name test_<name>_<seed> -I<IBEX_ROOT> ''),
      (''wave_opts'', YStr ''-ucli'')]"
  let ?env = "[(''IBEX_ROOT'', ''/ibex'')]"
  have r: "render ?ps = ''vcs <cov_opts> <wave_opts>''"
    "texts ?us = [(''out'', ''/o''), (''name'', ''t''), (''seed'', ''7'')]"
    by (simp_all add: parameter_format_def texts_def)
  have od: "cmd_opts_dict [(''cov_opts'', True)] ?opts = Inr (texts ?od)"
    by (simp add: cmd_opts_dict_def strip_p_def lstrip_p_def rstrip_p_def is_space_def texts_def parameter_format_def)
  have words: "name_ok ''cov_opts''" "name_ok ''wave_opts''" "name_ok ''out''" "name_ok ''name''" "name_ok ''seed''"
      "name_ok ''IBEX_ROOT''" "plain ''X''" "plain ''/ibex''"
    by (simp_all add: name_ok_def is_word_def is_digit_def is_upper_def is_lower_def plain_def)
  have ok: "list_all piece_ok ?ps" "list_all name_ok (holes ?ps)" "list_all entry_ok (?od @ ?us)"
    using words by (simp_all add: entry_ok_def plain_def name_ok_plain)
  have vars: "env_var_names [(''env_var'', YStr ''IBEX_ROOT, X'')] = Inr [''IBEX_ROOT'', ''X'']"
    "env_var_names [(''env_var'', YStr ''IBEX_ROOT'')] = Inr [''IBEX_ROOT'']"
    by (simp_all add: env_var_names_def)
  note run = tool_cmd_template [OF ok(1,2) od ok(3), where environ = ?env]
  show ?thesis
  proof
    show "tool_cmd ?env [(''env_var'', YStr ''IBEX_ROOT, X'')] ?opts [(''cov_opts'', True)]
        [(''out'', ''/o''), (''name'', ''t''), (''seed'', ''7'')] ''vcs <cov_opts> <wave_opts>'' =
        Inl (ToolEnv (EnvVarNotSet ''X''))"
      using run [OF vars(1)] words unfolding r by (simp add: name_ok_plain)
    show "tool_cmd ?env [(''env_var'', YStr ''IBEX_ROOT'')] ?opts [(''cov_opts'', True)]
        [(''out'', ''/o''), (''name'', ''t''), (''seed'', ''7'')] ''vcs <cov_opts> <wave_opts>'' =
        Inr [''vcs'', ''-cm_dir'', ''/o/t.vdb'', ''-cm_name'', ''test_t_7'', ''-I/ibex'']"
      using run [OF vars(2)] words unfolding r
      by (simp add: name_ok_plain env_entries_def shlex_split_def lex_white_def lex_quotes_def)
  qed
qed

end
