(* ===== verification/Run_Rtl.thy ===== *)
theory Run_Rtl
  imports Riscvdv_Interface
begin

text \<open>
  \<open>dv/uvm/core_ibex/scripts/run_rtl.py\<close>: the simulation of one test run. What the operating system
  does is a record of parameters: the YAML files, the environment, \<open>Path.resolve\<close>, the subprocess
  that prints the options of a configuration, and how each simulation command ends.

  The object of a run keeps \<open>rtl_test\<close> as a list of words; where this script stores the string of
  the test list there, the model stores the list with that string.
\<close>

record os_env =
  os_yaml :: "string \<Rightarrow> yaml_file"
  os_environ :: "(string, string) dict"
  os_resolve :: "path \<Rightarrow> path"
  os_config_cmd :: "string list \<Rightarrow> int \<times> string"
  os_run :: "string list \<Rightarrow> run_end"

datatype rtl_error =
    RtlEntry entry_error | RtlKey string | RtlType | RtlAttribute | RtlNoField string
  | RtlTool tool_error | RtlCmd cmd_error | RtlExport

definition field :: "string \<Rightarrow> 'a option \<Rightarrow> rtl_error + 'a" where
  "field name v = res_of_option (RtlNoField name) v"

text \<open>The options of the test: its entry in the list, or the data of the directed test.\<close>

definition test_options :: "os_env \<Rightarrow> regression_metadata \<Rightarrow> test_run_result \<Rightarrow> rtl_error + (string, yval) dict" where
  "test_options os md trr =
     (case testtype trr of
        Some RISCVDV \<Rightarrow>
          res_bind (field ''testname'' (testname trr)) (\<lambda>name.
            case get_test_entry (os_yaml os) name (path_str (ibex_riscvdv_testlist (ctl_files md))) of
              Inl e \<Rightarrow> Inl (RtlEntry e) | Inr d \<Rightarrow> Inr d)
      | Some DIRECTED \<Rightarrow> field ''directed_data'' (directed_data trr)
      | None \<Rightarrow> Inl (RtlNoField ''testtype''))"

definition opt_rtl_test :: "(string, yval) dict \<Rightarrow> rtl_error + string" where
  "opt_rtl_test opts = (case dget opts ''rtl_test'' of
     None \<Rightarrow> Inl (RtlKey ''rtl_test'') | Some (YStr s) \<Rightarrow> Inr s | Some _ \<Rightarrow> Inl RtlType)"

text \<open>\<open>testopts.get('timeout_s') or md.run_rtl_timeout_s\<close>, for a timeout that is a number.\<close>

definition opt_timeout :: "regression_metadata \<Rightarrow> (string, yval) dict \<Rightarrow> rtl_error + int" where
  "opt_timeout md opts = (case dget opts ''timeout_s'' of
     None \<Rightarrow> Inr (run_rtl_timeout_s md)
   | Some v \<Rightarrow> if \<not> py_truth v then Inr (run_rtl_timeout_s md)
       else (case v of YInt i \<Rightarrow> Inr i | _ \<Rightarrow> Inl RtlType))"

definition opt_sim_opts :: "(string, yval) dict \<Rightarrow> rtl_error + string" where
  "opt_sim_opts opts = (case dget opts ''sim_opts'' of
     None \<Rightarrow> Inr []
   | Some v \<Rightarrow> if \<not> py_truth v then Inr []
       else (case v of YStr s \<Rightarrow> Inr (py_replace [newline] [] s) | _ \<Rightarrow> Inl RtlAttribute))"

definition path_text :: "path option \<Rightarrow> string" where
  "path_text p = (case p of None \<Rightarrow> ''None'' | Some q \<Rightarrow> path_str q)"

definition ddm_opts :: "test_run_result \<Rightarrow> string" where
  "ddm_opts trr =
     (if testtype trr = Some RISCVDV \<and> is_discrete_debug_module trr = Some True
      then '' +vmem_main='' @ path_text (vmem_main trr) @ [newline] @
           '' +vmem_dm='' @ path_text (vmem_dm trr) @ [newline] @
           '' +bin_main='' @ path_text (binary_main trr) @ [newline] @
           '' +bin_dm='' @ path_text (binary_dm trr) @ [newline]
      else [])"

definition all_sim_opts :: "regression_metadata \<Rightarrow> int \<Rightarrow> string \<Rightarrow> string \<Rightarrow> string \<Rightarrow> string" where
  "all_sim_opts md timeout cfg_opts ddm sim_opts =
     ''+signature_addr='' @ signature_addr md @ [newline] @
     ''+test_timeout_s='' @ int_str timeout @ [newline] @ cfg_opts @ [newline] @ ddm @ sim_opts"

definition rtl_subst ::
    "os_env \<Rightarrow> regression_metadata \<Rightarrow> test_run_result \<Rightarrow> string \<Rightarrow> string \<Rightarrow> path \<Rightarrow> path \<Rightarrow> string \<Rightarrow> (string, string) dict" where
  "rtl_subst os md trr name rtl_test_name bin dir opts =
     (let r = (\<lambda>p. path_str (os_resolve os p));
          log = pdiv dir ''rtl_sim.log''
      in [(''cwd'', r (IBEX_ROOT (md_project md))), (''test_name'', name), (''rtl_test'', rtl_test_name),
          (''seed'', (case trr_seed trr of None \<Rightarrow> ''None'' | Some i \<Rightarrow> int_str i)), (''binary'', r bin),
          (''test_dir'', r dir), (''tb_dir'', r (dir_tb (dirs md))),
          (''dir_shared_cov'', r (dir_shared_cov (dirs md))), (''rtl_sim_log'', r log),
          (''rtl_trace'', r (pdiv dir ''trace_core'')),
          (''iss_cosim_trace'', r (pdiv dir (iss md @ ''_cosim_trace_core_00000000.log''))),
          (''core_ibex'', r (CORE_IBEX (md_project md))), (''sim_opts'', opts)])"

text \<open>Everything up to the first export: the fields of the run and its commands.\<close>

definition rtl_prepare :: "os_env \<Rightarrow> regression_metadata \<Rightarrow> test_run_result \<Rightarrow> rtl_error + test_run_result" where
  "rtl_prepare os md trr =
     res_bind (test_options os md trr) (\<lambda>opts.
     res_bind (opt_rtl_test opts) (\<lambda>rt.
     res_bind (opt_timeout md opts) (\<lambda>timeout.
     res_bind (opt_sim_opts opts) (\<lambda>so.
     res_bind (field ''dir_test'' (dir_test trr)) (\<lambda>dir.
     res_bind (field ''testname'' (testname trr)) (\<lambda>name.
     res_bind (case get_sim_opts (os_config_cmd os) (path_str (IBEX_ROOT (md_project md))) (md_ibex_config md)
                 (simulator md) of Inl e \<Rightarrow> Inl (RtlCmd e) | Inr s \<Rightarrow> Inr s) (\<lambda>cfg_opts.
     res_bind (field ''binary'' (binary trr)) (\<lambda>bin.
     res_bind (case get_tool_cmds (os_environ os) (os_yaml os)
                 (path_str (ibex_riscvdv_simulator_yaml (ctl_files md))) (simulator md) ''sim''
                 [(''cov_opts'', cov md), (''wave_opts'', waves md)]
                 (rtl_subst os md trr name rt bin dir (all_sim_opts md timeout cfg_opts (ddm_opts trr) so))
               of Inl e \<Rightarrow> Inl (RtlTool e) | Inr cs \<Rightarrow> Inr cs) (\<lambda>cmds.
       Inr (trr\<lparr>rtl_test := Some [rt], trr_timeout_s := Some timeout, ddm_sim_opts := Some (ddm_opts trr),
                rtl_trace := Some (pdiv dir ''trace_core_00000000.log''),
                iss_cosim_trace := Some (pdiv dir (iss md @ ''_cosim_trace_core_00000000.log'')),
                rtl_cmds := Some cmds, rtl_stdout := Some (pdiv dir ''rtl_sim_stdstreams.log''),
                rtl_log := Some (if simulator md = ''vcs'' then pdiv dir ''rtl_sim_stdstreams.log''
                                 else pdiv dir ''rtl_sim.log'')\<rparr>))))))))))"

text \<open>The commands in order, until one times out; how the others end is not looked at.\<close>

fun times_out :: "(string list \<Rightarrow> run_end) \<Rightarrow> bool \<Rightarrow> string \<Rightarrow> string list list \<Rightarrow> bool" where
  "times_out run verb log [] = False"
| "times_out run verb log (c # cs) =
     (case fst (run_one run verb c (ToStream log) True) of
        Inl _ \<Rightarrow> True
      | Inr _ \<Rightarrow> times_out run verb log cs)"

definition killed_message :: "regression_metadata \<Rightarrow> string" where
  "killed_message md = ''[FAILURE] Simulation process killed due to timeout ['' @
     int_str (run_rtl_timeout_s md + 60) @ ''s].'' @ [newline]"

definition run_rtl :: "os_env \<Rightarrow> regression_metadata \<Rightarrow> test_run_result \<Rightarrow> rtl_error + test_run_result" where
  "run_rtl os md trr =
     res_bind (rtl_prepare os md trr) (\<lambda>t.
       if trr_pickle_file t = None \<or> trr_yaml_file t = None then Inl RtlExport
       else Inr (if times_out (os_run os) (verbose md) (path_text (rtl_stdout t)) (the (rtl_cmds t))
                 then t\<lparr>failure_mode := Some TIMEOUT, failure_message := Some (killed_message md)\<rparr> else t))"

lemma times_out_iff: "times_out run verb log cs \<longleftrightarrow> (\<exists>c\<in>set cs. run c = TimesOut)"
  by (induction cs) (auto simp: run_one_def split: run_end.splits)

lemma rtl_prepare_keeps:
  "rtl_prepare os md trr = Inr t \<Longrightarrow>
     passed t = passed trr \<and> failure_mode t = failure_mode trr \<and> (\<exists>cs. rtl_cmds t = Some cs) \<and>
     trr_pickle_file t = trr_pickle_file trr \<and> testname t = testname trr \<and> dir_test t = dir_test trr \<and>
     rtl_trace t \<noteq> None \<and> rtl_log t \<noteq> None"
  by (auto simp: rtl_prepare_def res_simps)

lemma run_rtl_outcome:
  assumes "run_rtl os md trr = Inr t"
  shows "passed t = passed trr \<and> (\<exists>cs. rtl_cmds t = Some cs \<and>
    failure_mode t = (if \<exists>c\<in>set cs. os_run os c = TimesOut then Some TIMEOUT else failure_mode trr))"
  using assms by (auto simp: run_rtl_def res_simps times_out_iff dest!: rtl_prepare_keeps split: if_splits)

end
