(* ===== verification/Instr_Gen.thy ===== *)
theory Instr_Gen
  imports Run_Rtl
begin

text \<open>
  \<open>dv/uvm/core_ibex/scripts/build_instr_gen.py\<close> and \<open>run_instr_gen.py\<close>: building riscv-dv's
  generator and running it for one test. riscv-dv prints the commands it would run, for a
  directory that does not exist; the words of those commands are relocated to the real ones.

  The temporary directory, the list of commands that riscv-dv prints, the current directory and
  the files that the commands leave are parameters.
\<close>

subsection \<open>Paths as strings\<close>

text \<open>\<open>os.path.join(a, b)\<close>\<close>

definition os_join :: "string \<Rightarrow> string \<Rightarrow> string" where
  "os_join a b =
     (if starts_with ''/'' b then b
      else if a = [] \<or> ends_with ''/'' a then a @ b else a @ ''/'' @ b)"

text \<open>\<open>os.path.normpath\<close> of an absolute path: two leading slashes are kept, three or more are one.\<close>

fun norm_parts :: "string list \<Rightarrow> string list \<Rightarrow> string list" where
  "norm_parts acc [] = rev acc"
| "norm_parts acc (c # cs) =
     (if c = [] \<or> c = ''.'' then norm_parts acc cs
      else if c = ''..'' then norm_parts (tl acc) cs else norm_parts (c # acc) cs)"

definition abspath :: "string \<Rightarrow> string \<Rightarrow> string" where
  "abspath cwd p =
     (let q = (if starts_with ''/'' p then p else os_join cwd p)
      in (if starts_with ''//'' q \<and> \<not> starts_with ''///'' q then ''//'' else ''/'') @
         py_join ''/'' (norm_parts [] (split_chr CHR ''/'' q)))"

subsection \<open>Relocation\<close>

datatype reloc_error = NoRelocs string | PlaceholderLeft string string | RelocShlex shlex_error

definition sim_relocs :: "string \<Rightarrow> string \<Rightarrow> (string, (string \<times> string) list) dict" where
  "sim_relocs placeholder build =
     [(''vcs'', [(os_join placeholder ''vcs_simv'', os_join build ''vcs_simv'')]),
      (''xlm'', [(placeholder, build)]),
      (''dsim'', [(os_join placeholder ''dsim'', os_join build ''dsim'')])]"

definition always_relocs :: "string \<Rightarrow> string \<Rightarrow> string \<Rightarrow> (string \<times> string) list" where
  "always_relocs placeholder scratch test_name =
     [(os_join (os_join placeholder ''asm_test'') test_name, os_join scratch ''test''),
      (os_join placeholder ''asm_test'', scratch),
      (os_join placeholder (''sim_'' @ test_name @ ''_0.log''), os_join scratch ''gen.log'')]"

text \<open>\<open>(\+[A-Za-z0-9_]+=)(.*)\<close> at the start of the word; \<open>.\<close> stops at a newline.\<close>

definition plusarg_split :: "string \<Rightarrow> string \<times> string" where
  "plusarg_split w =
     (if starts_with ''+'' w \<and> takeWhile is_word (tl w) \<noteq> [] \<and> starts_with ''='' (dropWhile is_word (tl w))
      then (''+'' @ takeWhile is_word (tl w) @ ''='',
            takeWhile (\<lambda>c. c \<noteq> newline) (tl (dropWhile is_word (tl w))))
      else ([], w))"

definition reloc_word ::
    "string \<Rightarrow> string \<Rightarrow> string \<Rightarrow> string \<Rightarrow> string \<Rightarrow> string \<Rightarrow> string \<Rightarrow> reloc_error + string" where
  "reloc_word cwd sim placeholder build scratch test_name word =
     (let (pre, post) = plusarg_split word
      in case dget (sim_relocs placeholder build) sim of
           None \<Rightarrow> Inl (NoRelocs sim)
         | Some rs \<Rightarrow>
             (let new = (case find_first (\<lambda>(orig, reloc). abspath cwd orig = abspath cwd post)
                                (rs @ always_relocs placeholder scratch test_name) of
                           Some (orig, reloc) \<Rightarrow> reloc | None \<Rightarrow> post);
                  reloc = pre @ new
              in if str_in placeholder reloc then Inl (PlaceholderLeft word reloc) else Inr reloc))"

definition reloc_commands ::
    "string \<Rightarrow> string \<Rightarrow> string \<Rightarrow> string \<Rightarrow> string \<Rightarrow> string \<Rightarrow> string list \<Rightarrow> reloc_error + string list list" where
  "reloc_commands cwd placeholder build scratch sim test_name src =
     res_map (\<lambda>line. case shlex_split line of
         Inl e \<Rightarrow> Inl (RelocShlex e)
       | Inr ws \<Rightarrow> res_map (reloc_word cwd sim placeholder build scratch test_name) ws)
       (filter (\<lambda>l. l \<noteq> []) (map py_strip src))"

subsection \<open>Copying the files back\<close>

text \<open>The files of the scratch directory by name; the result is what is copied, by new name.\<close>

fun do_file_copies ::
    "(string, string) dict \<Rightarrow> (string, string) dict \<Rightarrow> (string \<times> string \<times> bool) list \<Rightarrow> bool \<Rightarrow>
     string + (string, string) dict" where
  "do_file_copies src dst [] run_failed = Inr dst"
| "do_file_copies src dst ((src_name, dst_name, on_fail) # rules) run_failed =
     (if run_failed \<and> \<not> on_fail then do_file_copies src dst rules run_failed
      else case dget src src_name of
             Some contents \<Rightarrow> do_file_copies src (dset dst_name contents dst) rules run_failed
           | None \<Rightarrow> if run_failed then do_file_copies src dst rules run_failed
               else Inl (''Generation commands exited with zero status but left no '' @ src_name @
                         '' in scratch directory.''))"

definition copy_rules :: "string \<Rightarrow> (string \<times> string \<times> bool) list" where
  "copy_rules test_name =
     (if test_name = ''riscv_csr_test'' then [(''riscv_csr_test_0.S'', ''test.S'', False)]
      else [(''gen.log'', ''gen.log'', True), (''test_0.S'', ''test.S'', False)])"

subsection \<open>The scripts\<close>

datatype gen_error =
    GenConfig parse_error | GenReloc reloc_error | GenField string | GenBadHex | GenFormat | GenNoFile string | GenExport

record gen_env =
  ge_os :: os_env
  ge_load :: "string \<Rightarrow> load_result"
  ge_cwd :: string
  ge_tmp :: string
  ge_listing :: "string list"
  ge_scratch :: "string list list \<Rightarrow> (string, string) dict"

text \<open>Numbers print as \<open>{n:x}\<close> prints them.\<close>

definition hex_str :: "int \<Rightarrow> string" where
  "hex_str n = (if n < 0 then ''-'' else []) @ nat_repr 16 (nat \<bar>n\<bar>)"

definition gen_signature :: "regression_metadata \<Rightarrow> string \<Rightarrow> gen_error + string" where
  "gen_signature md test_name =
     (if \<not> str_in ''riscv_csr_test'' test_name then Inr (signature_addr md)
      else (case py_int 16 (signature_addr md) of None \<Rightarrow> Inl GenBadHex | Some a \<Rightarrow> Inr (hex_str (a - 4))))"

definition inst_overrides :: "string list" where
  "inst_overrides = [''riscv_asm_program_gen'', ''ibex_asm_program_gen'', ''uvm_test_top.asm_gen'']"

definition gen_sim_opts :: "config \<Rightarrow> string \<Rightarrow> (string, string) dict" where
  "gen_sim_opts cfg sig =
     [(''uvm_set_inst_override'', py_join '','' inst_overrides), (''require_signature_addr'', ''1''),
      (''signature_addr'', sig), (''pmp_num_regions'', py_str (pmp_num_regions cfg)),
      (''pmp_granularity'', py_str (pmp_granularity cfg)), (''tvec_alignment'', ''8'')]"

definition placeholder_dir :: "gen_env \<Rightarrow> path" where
  "placeholder_dir env = pdiv (path_of_str (ge_tmp env)) ''@@PLACEHOLDER@@''"

definition gen_cmd :: "gen_env \<Rightarrow> regression_metadata \<Rightarrow> config \<Rightarrow> string \<Rightarrow> int option \<Rightarrow> string \<Rightarrow> pyarg list" where
  "gen_cmd env md cfg test_name test_seed sig =
     get_run_cmd (md_project md) (verbose md) @
     map (\<lambda>s. AVal (YStr s))
       ([''--so'', ''--steps=gen'', ''--output'', path_str (placeholder_dir env), ''--simulator'', simulator md]) @
     [AVal (YStr ''--isa''), (case isa_ibex md of None \<Rightarrow> AVal YNone | Some i \<Rightarrow> AVal (YStr i))] @
     map (\<lambda>s. AVal (YStr s))
       [''--test'', test_name, ''--start_seed'', (case test_seed of None \<Rightarrow> ''None'' | Some i \<Rightarrow> int_str i),
        ''--iterations'', ''1'', ''--end_signature_addr'', sig,
        ''--debug'', path_str (pdiv (path_of_str (ge_tmp env)) ''cmds.list''),
        ''--sim_opts'', py_join '' '' (map (\<lambda>(k, v). ''+'' @ k @ ''='' @ v) (gen_sim_opts cfg sig))]"

text \<open>The code of a command that is run without a timeout.\<close>

definition exit_code :: "os_env \<Rightarrow> string list \<Rightarrow> int" where
  "exit_code os cmd = (case os_run os cmd of Exits n \<Rightarrow> n | _ \<Rightarrow> 1)"

text \<open>Commands in order until one fails.\<close>

fun run_in_order :: "os_env \<Rightarrow> string list list \<Rightarrow> int" where
  "run_in_order os [] = 0"
| "run_in_order os (c # cs) = (if exit_code os c \<noteq> 0 then exit_code os c else run_in_order os cs)"

definition str_resolve :: "os_env \<Rightarrow> string \<Rightarrow> string" where
  "str_resolve os p = path_str (os_resolve os (path_of_str p))"

text \<open>What follows riscv-dv's own run: its commands are relocated and run, and the files copied back.
  The result is the exit code with, if the script gets that far, the exported object and the
  files it copied into the directory of the test.\<close>

definition gen_outputs ::
    "gen_env \<Rightarrow> regression_metadata \<Rightarrow> test_run_result \<Rightarrow> string \<Rightarrow> path \<Rightarrow> string list \<Rightarrow>
     gen_error + int \<times> (test_run_result \<times> (string, string) dict) option" where
  "gen_outputs env md trr name dir cmd =
     (let os = ge_os env; build = dir_instruction_generator (dirs md) in
      res_bind (res_err GenReloc
        (reloc_commands (ge_cwd env) (path_str (placeholder_dir env)) (path_str (os_resolve os build))
           (ge_tmp env) (simulator md) name (ge_listing env))) (\<lambda>cmds.
      res_bind (res_err GenNoFile
        (do_file_copies (ge_scratch env cmds) [] (copy_rules name) (run_in_order os cmds \<noteq> 0))) (\<lambda>copied.
      if trr_pickle_file trr = None \<or> trr_yaml_file trr = None then Inl GenExport
      else Inr (0, Some
        (trr\<lparr>riscvdv_run_gen_stdout := Some (pdiv build ''riscvdv_cmds.log''),
             riscvdv_run_gen_cmds := Some [cmd], riscvdv_run_cmds := Some cmds,
             riscvdv_run_stdout := Some (pdiv build ''riscvdv_run.log''),
             assembly := Some (pdiv dir ''test.S'')\<rparr>, copied)))))"

definition run_instr_gen ::
    "gen_env \<Rightarrow> regression_metadata \<Rightarrow> test_run_result \<Rightarrow>
     gen_error + int \<times> (test_run_result \<times> (string, string) dict) option" where
  "run_instr_gen env md trr =
     res_bind (res_err GenConfig
       (get_config (ge_load env) (path_str (IBEX_ROOT (md_project md))) (md_ibex_config md))) (\<lambda>cfg.
     res_bind (res_of_option (GenField ''testname'') (testname trr)) (\<lambda>name.
     res_bind (gen_signature md name) (\<lambda>sig.
     res_bind (res_of_option (GenField ''dir_test'') (dir_test trr)) (\<lambda>dir.
     res_bind (res_err (\<lambda>_. GenFormat)
       (format_to_cmd (str_resolve (ge_os env)) (gen_cmd env md cfg name (trr_seed trr) sig))) (\<lambda>cmd.
     if exit_code (ge_os env) cmd \<noteq> 0 then Inr (exit_code (ge_os env) cmd, None)
     else gen_outputs env md trr name dir cmd)))))"

text \<open>\<open>build_instr_gen.py\<close>: the metadata it leaves and its exit code.\<close>

definition build_cmd :: "regression_metadata \<Rightarrow> pyarg list" where
  "build_cmd md =
     get_run_cmd (md_project md) (verbose md) @
     map (\<lambda>s. AVal (YStr s)) [''--co'', ''--steps=gen'', ''--simulator'', simulator md] @
     [AVal (YStr ''--output''), APath (path_str (dir_instruction_generator (dirs md))), AVal (YStr ''--isa''),
      (case isa_ibex md of None \<Rightarrow> AVal YNone | Some i \<Rightarrow> AVal (YStr i)),
      AVal (YStr ''--end_signature_addr''), AVal (YStr (signature_addr md))]"

definition build_instr_gen :: "os_env \<Rightarrow> regression_metadata \<Rightarrow> gen_error + regression_metadata \<times> int" where
  "build_instr_gen os md =
     (case format_to_cmd (str_resolve os) (build_cmd md) of
        Inl _ \<Rightarrow> Inl GenFormat
      | Inr cmd \<Rightarrow>
          Inr (md\<lparr>phase := (phase md)\<lparr>
                  riscvdv_build_stdout := Some (pdiv (dir_instruction_generator (dirs md)) ''build_stdout.log''),
                  riscvdv_build_cmds := Some [cmd]\<rparr>\<rparr>, exit_code os cmd))"

text \<open>\<open>get_fcov.py\<close>: an ISA that is still unset makes the command fail its type check.\<close>

definition get_fcov :: "os_env \<Rightarrow> regression_metadata \<Rightarrow> gen_error + regression_metadata \<times> int" where
  "get_fcov os md =
     (case res_map (res_of_option ()) (get_cov_cmd (md_project md) md) of
        Inl _ \<Rightarrow> Inl (GenField ''isa_ibex'')
      | Inr cmd \<Rightarrow>
          Inr (md\<lparr>phase := (phase md)\<lparr>riscvdv_fcov_cmds := Some [cmd],
                  riscvdv_fcov_stdout := Some (pdiv (dir_fcov (dirs md)) ''riscvdv_fcov_stdout.log'')\<rparr>\<rparr>,
               exit_code os cmd))"

subsection \<open>Lemmas\<close>

lemma run_instr_gen_frame:
  assumes "run_instr_gen env md trr = Inr (c, Some (t, files))"
  shows "passed t = passed trr \<and> failure_mode t = failure_mode trr \<and> testname t = testname trr"
  using assms
  by (auto simp: run_instr_gen_def gen_outputs_def Let_def elim!: res_bindE split: if_splits)

lemma run_in_order_zero: "run_in_order os cs = 0 \<longleftrightarrow> (\<forall>c\<in>set cs. exit_code os c = 0)"
  by (induction cs) auto

lemma reloc_word_clean: "reloc_word cwd sim placeholder build scratch test_name w = Inr v \<Longrightarrow> \<not> str_in placeholder v"
  by (auto simp: reloc_word_def Let_def split: prod.splits option.splits if_splits)

lemma reloc_commands_clean:
  assumes "reloc_commands cwd placeholder build scratch sim test_name src = Inr cmds" "c \<in> set cmds" "w \<in> set c"
  shows "\<not> str_in placeholder w"
proof -
  from assms(1,2) obtain line where
    "(case shlex_split line of Inl e \<Rightarrow> Inl (RelocShlex e)
      | Inr ws \<Rightarrow> res_map (reloc_word cwd sim placeholder build scratch test_name) ws) = Inr c"
    unfolding reloc_commands_def by (blast dest: res_map_InrD)
  then obtain ws where "res_map (reloc_word cwd sim placeholder build scratch test_name) ws = Inr c"
    by (auto split: sum.splits)
  with assms(3) reloc_word_clean show ?thesis by (blast dest: res_map_InrD)
qed

lemma file_copies_success:
  assumes "do_file_copies src dst rules False = Inr copied" "(s, d, b) \<in> set rules"
  shows "d \<in> set (dkeys copied)"
proof -
  have keep: "do_file_copies src dst rules ok = Inr copied \<Longrightarrow> set (dkeys dst) \<subseteq> set (dkeys copied)"
    for dst rules ok copied
    by (induction src dst rules ok rule: do_file_copies.induct)
      (auto split: if_splits option.splits simp: dkeys_dset)
  show ?thesis using assms
  proof (induction rules arbitrary: dst)
    case (Cons r rules)
    obtain s' d' b' where r: "r = (s', d', b')" by (cases r)
    with Cons.prems(1) obtain contents where
      rest: "do_file_copies src (dset d' contents dst) rules False = Inr copied"
      by (auto split: option.splits)
    show ?case
    proof (cases "(s, d, b) = r")
      case True
      with r keep [OF rest] show ?thesis by (auto simp: dkeys_dset)
    next
      case False
      with Cons.prems(2) Cons.IH [OF rest] show ?thesis by auto
    qed
  qed simp
qed

lemma file_copies_failure:
  "do_file_copies src dst rules True = Inr copied \<Longrightarrow>
     set (dkeys copied) \<subseteq> set (dkeys dst) \<union> {d. \<exists>s. (s, d, True) \<in> set rules}"
proof (induction rules arbitrary: dst)
  case (Cons r rules)
  obtain s d b where r: "r = (s, d, b)" by (cases r)
  show ?case
  proof (cases "b \<and> dget src s \<noteq> None")
    case True
    with Cons.prems r obtain c where "do_file_copies src (dset d c dst) rules True = Inr copied" by auto
    from Cons.IH [OF this] show ?thesis using True r by (auto simp: dkeys_dset split: if_splits)
  next
    case False
    with Cons.prems r have "do_file_copies src dst rules True = Inr copied" by (auto split: if_splits)
    from Cons.IH [OF this] show ?thesis using r by auto
  qed
qed simp

subsection \<open>Properties\<close>

text \<open>C27: What generating a test leaves behind. When the script exits with 0 and exports, the
  commands it ran have no trace of the placeholder directory, and the assembly of the test is
  there exactly if all of them succeeded: a failed generation exits with 0 as well, and only
  the missing file tells.\<close>

theorem gen_leaves_assembly:
  assumes "run_instr_gen env md trr = Inr (0, Some (t, copied))"
  shows "\<exists>cmds. riscvdv_run_cmds t = Some cmds \<and>
    (''test.S'' \<in> set (dkeys copied) \<longleftrightarrow> (\<forall>c\<in>set cmds. exit_code (ge_os env) c = 0)) \<and>
    (\<forall>c\<in>set cmds. \<forall>w\<in>set c. \<not> str_in (path_str (placeholder_dir env)) w)"
proof -
  from assms obtain name cmds where
    r: "reloc_commands (ge_cwd env) (path_str (placeholder_dir env))
          (path_str (os_resolve (ge_os env) (dir_instruction_generator (dirs md)))) (ge_tmp env) (simulator md)
          name (ge_listing env) = Inr cmds"
    and f: "do_file_copies (ge_scratch env cmds) [] (copy_rules name) (run_in_order (ge_os env) cmds \<noteq> 0) = Inr copied"
    and t: "riscvdv_run_cmds t = Some cmds"
    by (auto simp: run_instr_gen_def gen_outputs_def Let_def res_simps split: if_splits)
  have rules: "\<exists>s. (s, ''test.S'', False) \<in> set (copy_rules name)"
    "\<not> (\<exists>s. (s, ''test.S'', True) \<in> set (copy_rules name))"
    by (auto simp: copy_rules_def)
  have "''test.S'' \<in> set (dkeys copied) \<longleftrightarrow> run_in_order (ge_os env) cmds = 0"
  proof (cases "run_in_order (ge_os env) cmds = 0")
    case True
    with f have "do_file_copies (ge_scratch env cmds) [] (copy_rules name) False = Inr copied" by simp
    with rules(1) True show ?thesis by (auto dest: file_copies_success)
  next
    case False
    with f have "do_file_copies (ge_scratch env cmds) [] (copy_rules name) True = Inr copied" by simp
    from file_copies_failure [OF this] rules(2) False show ?thesis by auto
  qed
  moreover have "\<forall>c\<in>set cmds. \<forall>w\<in>set c. \<not> str_in (path_str (placeholder_dir env)) w"
    using reloc_commands_clean [OF r] by blast
  ultimately show ?thesis using t by (auto simp: run_in_order_zero)
qed

text \<open>A generation for Xcelium whose only command fails.\<close>

definition sample_gen_env :: gen_env where
  "sample_gen_env =
     \<lparr>ge_os = \<lparr>os_yaml = (\<lambda>_. YamlMissing), os_environ = [], os_resolve = (\<lambda>p. p),
               os_config_cmd = (\<lambda>_. (1, [])), os_run = (\<lambda>c. if hd c = ''xrun'' then Exits 3 else Exits 0)\<rparr>,
      ge_load = (\<lambda>_. Loaded (YDict [(''small'', YDict small_config)])), ge_cwd = ''/w'', ge_tmp = ''/t'',
      ge_listing = [''xrun -xmlibdirpath /t/@@PLACEHOLDER@@ +asm_file_name=/t/@@PLACEHOLDER@@/asm_test/x'', []],
      ge_scratch = (\<lambda>_. [(''gen.log'', ''failed'')])\<rparr>"

definition sample_gen_trr :: test_run_result where
  "sample_gen_trr = empty_trr\<lparr>testname := Some ''x'', trr_seed := Some 1, dir_test := Some (Path True [''d'']),
     trr_pickle_file := Some (Path True [''p'']), trr_yaml_file := Some (Path True [''y''])\<rparr>"

lemma sample_config: "get_config (ge_load sample_gen_env) root ''small'' = Inr (mk_config small_config)"
  by (simp add: get_config_def sample_gen_env_def parse_config_single small_config_ok)

lemma sample_relocs:
  "reloc_commands ''/w'' ''/t/@@PLACEHOLDER@@'' ''/out/build/instr_gen'' ''/t'' ''xlm'' ''x'' (ge_listing sample_gen_env) =
     Inr [[''xrun'', ''-xmlibdirpath'', ''/out/build/instr_gen'', ''+asm_file_name=/t/test'']]"
  by code_simp

lemma sample_paths:
  "path_str (placeholder_dir sample_gen_env) = ''/t/@@PLACEHOLDER@@''"
  "path_str (dir_instruction_generator (dirs (sample_md ''x''))) = ''/out/build/instr_gen''"
  by code_simp+

theorem gen_leaves_assembly_witness:
  "case run_instr_gen sample_gen_env (sample_md ''x'') sample_gen_trr of
     Inr (c, Some (t, copied)) \<Rightarrow> c = 0 \<and> ''test.S'' \<notin> set (dkeys copied) \<and>
       riscvdv_run_cmds t = Some [[''xrun'', ''-xmlibdirpath'', ''/out/build/instr_gen'', ''+asm_file_name=/t/test'']]
   | _ \<Rightarrow> False"
proof -
  have md: "md_ibex_config (sample_md ''x'') = ''small''" "simulator (sample_md ''x'') = ''xlm''"
    by (simp_all add: sample_md_def Let_def)
  have env: "ge_cwd sample_gen_env = ''/w''" "ge_tmp sample_gen_env = ''/t''"
    "ge_scratch sample_gen_env = (\<lambda>_. [(''gen.log'', ''failed'')])"
    "os_resolve (ge_os sample_gen_env) = (\<lambda>p. p)"
    "exit_code (ge_os sample_gen_env) c = (if hd c = ''xrun'' then 3 else 0)" for c
    by (simp_all add: sample_gen_env_def exit_code_def)
  have trr: "testname sample_gen_trr = Some ''x''" "dir_test sample_gen_trr = Some (Path True [''d''])"
    "trr_pickle_file sample_gen_trr \<noteq> None" "trr_yaml_file sample_gen_trr \<noteq> None"
    by (simp_all add: sample_gen_trr_def)
  have sig: "gen_signature m ''x'' = Inr (signature_addr m)" for m by (simp add: gen_signature_def)
  have "\<exists>ws. format_to_cmd f (gen_cmd sample_gen_env m cfg ''x'' sd sg) = Inr (''python3'' # ws)" for f m cfg sd sg
    by (simp add: gen_cmd_def get_run_cmd_def format_to_cmd_def format_to_str_def Let_def res_simps split: option.split)
  then obtain ws where cmd: "format_to_cmd (str_resolve (ge_os sample_gen_env)) (gen_cmd sample_gen_env (sample_md ''x'')
      (mk_config small_config) ''x'' (trr_seed sample_gen_trr) (signature_addr (sample_md ''x''))) = Inr (''python3'' # ws)"
    by blast
  have "\<exists>t copied. run_instr_gen sample_gen_env (sample_md ''x'') sample_gen_trr = Inr (0, Some (t, copied)) \<and>
      riscvdv_run_cmds t = Some [[''xrun'', ''-xmlibdirpath'', ''/out/build/instr_gen'', ''+asm_file_name=/t/test'']]"
    using trr(3,4)
    by (simp add: run_instr_gen_def gen_outputs_def md sample_config trr(1,2) sig cmd env sample_relocs
        sample_paths copy_rules_def Let_def)
  then obtain t copied where r: "run_instr_gen sample_gen_env (sample_md ''x'') sample_gen_trr = Inr (0, Some (t, copied))"
    and c: "riscvdv_run_cmds t = Some [[''xrun'', ''-xmlibdirpath'', ''/out/build/instr_gen'', ''+asm_file_name=/t/test'']]"
    by blast
  from gen_leaves_assembly [OF r] c have "''test.S'' \<notin> set (dkeys copied)" by (auto simp: env)
  with r c show ?thesis by simp
qed

end
