(* ===== verification/Compile_Test.thy ===== *)
theory Compile_Test
  imports Instr_Gen
begin

text \<open>
  \<open>dv/uvm/core_ibex/scripts/compile_test.py\<close>: compiling one test. For a random test riscv-dv prints
  the commands, for a directory that does not exist, and the paths in them are rewritten; for a
  directed test the commands are composed from its data. The temporary directory, what riscv-dv
  prints, the environment and how commands end are parameters.
\<close>

datatype compile_error =
    CNoField string | CFormat | CNotIterable | CPlaceholderLeft | CPopEmpty | CMissingEnv | CJoinType
  | CShlex shlex_error | CUnbound | CExport

definition c_field :: "string \<Rightarrow> 'a option \<Rightarrow> compile_error + 'a" where
  "c_field name v = res_of_option (CNoField name) v"

subsection \<open>Random tests\<close>

definition compile_gen_cmd :: "regression_metadata \<Rightarrow> test_run_result \<Rightarrow> path \<Rightarrow> string \<Rightarrow> pyarg list" where
  "compile_gen_cmd md trr tmp name =
     get_run_cmd (md_project md) (verbose md) @
     [AVal (YStr ''--verbose''), AVal (YStr ''--output''), APath (path_str (pdiv tmp ''@@PLACEHOLDER@@'')),
      AVal (YStr ''--steps=gcc_compile''), AVal (YStr ''--test''), AVal (YStr name),
      AVal (YStr ''--start_seed''), AVal (YStr (case trr_seed trr of None \<Rightarrow> ''None'' | Some i \<Rightarrow> int_str i)),
      AVal (YStr ''--iterations''), AVal (YStr ''1''), AVal (YStr ''--isa''),
      (case isa_ibex md of None \<Rightarrow> AVal YNone | Some i \<Rightarrow> AVal (YStr i)),
      AVal (YStr ''--debug''), APath (path_str (pdiv tmp ''orig-cmds.list''))]"

text \<open>The commands riscv-dv printed, one per line that is not blank.\<close>

definition read_cmds :: "string list \<Rightarrow> compile_error + string list list" where
  "read_cmds ls = res_map (\<lambda>l. res_err CShlex (shlex_split l)) (filter (\<lambda>l. l \<noteq> []) (map py_strip ls))"

definition word_rewrites :: "string \<Rightarrow> string \<Rightarrow> string \<Rightarrow> string \<Rightarrow> string \<Rightarrow> (string \<times> string) list" where
  "word_rewrites placeholder name asm obj bin =
     [(placeholder @ ''/asm_test/'' @ name @ ''_0.S'', asm), (placeholder @ ''/asm_test/'' @ name @ ''_0.o'', obj),
      (placeholder @ ''/asm_test/'' @ name @ ''_0.bin'', bin)]"

definition rewrite_word :: "string \<Rightarrow> (string \<times> string) list \<Rightarrow> string \<Rightarrow> compile_error + string" where
  "rewrite_word placeholder rs word =
     (let w = fold (\<lambda>(old, new) w. py_replace old new w) rs word
      in if str_in placeholder w then Inl CPlaceholderLeft else Inr w)"

definition rewrite_cmds ::
    "string \<Rightarrow> (string \<times> string) list \<Rightarrow> string list list \<Rightarrow> compile_error + string list list" where
  "rewrite_cmds placeholder rs cmds = res_map (res_map (rewrite_word placeholder rs)) cmds"

text \<open>The commands for a discrete debug module. Words may be \<open>None\<close>: the objcopy command is, if the
  environment does not name one.\<close>

definition dm_sections :: "string list" where
  "dm_sections = [''.debug_module'', ''.dm_scratch'']"

definition objcopy_cmd :: "string option \<Rightarrow> string \<Rightarrow> string \<Rightarrow> path \<Rightarrow> path \<Rightarrow> string option list" where
  "objcopy_cmd objcopy format flag obj out =
     [objcopy, Some ''-O'', Some format] @ map Some (concat (map (\<lambda>s. [flag, s]) dm_sections)) @
     [Some (path_str obj), Some (path_str out)]"

definition ddm_cmds ::
    "regression_metadata \<Rightarrow> string option \<Rightarrow> path \<Rightarrow> path \<Rightarrow> string list list \<Rightarrow> compile_error + string option list list" where
  "ddm_cmds md objcopy dir obj cmds =
     (if cmds = [] then Inl CPopEmpty
      else
        let link = ''-T'' @ path_str (pdiv (ibex_riscvdv_customtarget (ctl_files md)) ''ddm_link.ld'')
        in Inr (map (map (\<lambda>t. Some (if starts_with ''-T'' t then link else t))) (butlast cmds) @
             [objcopy_cmd objcopy ''verilog'' ''--only-section'' obj (pdiv dir ''test.dm.vmem''),
              objcopy_cmd objcopy ''verilog'' ''--remove-section'' obj (pdiv dir ''test.main.vmem''),
              objcopy_cmd objcopy ''binary'' ''--only-section'' obj (pdiv dir ''test.dm.bin''),
              objcopy_cmd objcopy ''binary'' ''--remove-section'' obj (pdiv dir ''test.main.bin'')]))"

text \<open>The host: the temporary directory, and the lines riscv-dv writes.\<close>

record compile_env =
  ce_os :: os_env
  ce_tmp :: path
  ce_listing :: "string list"

text \<open>The result of the function is a list of commands, or the code of a failed riscv-dv.\<close>

datatype compile_cmds = RetCode int | Cmds "string option list list"

definition riscvdv_setup :: "string list \<Rightarrow> path \<Rightarrow> test_run_result \<Rightarrow> test_run_result" where
  "riscvdv_setup cmd dir trr =
     trr\<lparr>compile_asm_gen_log := Some (pdiv dir ''compile_gen.riscv-dv.log''), compile_asm_gen_cmds := Some [cmd]\<rparr>"

definition ddm_files :: "path \<Rightarrow> test_run_result \<Rightarrow> test_run_result" where
  "ddm_files dir trr =
     trr\<lparr>vmem_main := Some (pdiv dir ''test.main.vmem''), vmem_dm := Some (pdiv dir ''test.dm.vmem''),
         binary_main := Some (pdiv dir ''test.main.bin''), binary_dm := Some (pdiv dir ''test.dm.bin'')\<rparr>"

definition massage_cmds ::
    "compile_env \<Rightarrow> regression_metadata \<Rightarrow> string \<Rightarrow> path \<Rightarrow> test_run_result \<Rightarrow> compile_error + test_run_result \<times> compile_cmds" where
  "massage_cmds env md name dir trr =
     (let placeholder = path_str (pdiv (ce_tmp env) ''@@PLACEHOLDER@@'');
          obj = pdiv dir ''test.o''; bin = pdiv dir ''test.bin'';
          trr2 = trr\<lparr>objectfile := Some obj, binary := Some bin\<rparr>
      in res_bind (read_cmds (ce_listing env)) (\<lambda>orig.
         res_bind (rewrite_cmds placeholder
             (word_rewrites placeholder name (path_text (assembly trr)) (path_str obj) (path_str bin)) orig) (\<lambda>new.
         if testtype trr = Some RISCVDV \<and> is_discrete_debug_module trr = Some True
         then res_bind (ddm_cmds md (dget (os_environ (ce_os env)) ''RISCV_OBJCOPY'') dir obj new) (\<lambda>cs.
           Inr (ddm_files dir trr2, Cmds cs))
         else Inr (trr2, Cmds (map (map Some) new)))))"

definition get_riscvdv_compile_cmds ::
    "compile_env \<Rightarrow> regression_metadata \<Rightarrow> test_run_result \<Rightarrow> compile_error + test_run_result \<times> compile_cmds" where
  "get_riscvdv_compile_cmds env md trr =
     res_bind (c_field ''testname'' (testname trr)) (\<lambda>name.
     res_bind (c_field ''dir_test'' (dir_test trr)) (\<lambda>dir.
     res_bind (res_err (\<lambda>_. CFormat) (format_to_cmd (str_resolve (ce_os env)) (compile_gen_cmd md trr (ce_tmp env) name)))
       (\<lambda>cmd.
     if exit_code (ce_os env) cmd \<noteq> 0 then Inr (riscvdv_setup cmd dir trr, RetCode (exit_code (ce_os env) cmd))
     else massage_cmds env md name dir (riscvdv_setup cmd dir trr))))"

subsection \<open>Directed tests\<close>

text \<open>\<open>data.get(k)\<close> in an f-string.\<close>

definition data_text :: "(string, yval) dict \<Rightarrow> string \<Rightarrow> string" where
  "data_text d k = (case dget d k of None \<Rightarrow> ''None'' | Some v \<Rightarrow> py_str v)"

definition directed_gcc_cmd :: "string \<Rightarrow> (string, yval) dict \<Rightarrow> path \<Rightarrow> compile_error + string" where
  "directed_gcc_cmd gcc d obj =
     (case dget d ''gcc_opts'' of
        Some (YStr opts) \<Rightarrow>
          Inr (py_join '' '' [gcc, opts, ''-I'' @ data_text d ''includes'', ''-T'' @ data_text d ''ld_script'',
                            ''-o '' @ path_str obj, data_text d ''test_srcs''])
      | _ \<Rightarrow> Inl CJoinType)"

definition get_directed_compile_cmds ::
    "compile_env \<Rightarrow> test_run_result \<Rightarrow> compile_error + test_run_result \<times> compile_cmds" where
  "get_directed_compile_cmds env trr =
     (let get = dget (os_environ (ce_os env)) in
      case (get ''RISCV_TOOLCHAIN'', get ''RISCV_GCC'', get ''RISCV_OBJCOPY'') of
        (Some _, Some gcc, Some objcopy) \<Rightarrow>
          res_bind (c_field ''directed_data'' (directed_data trr)) (\<lambda>d.
          res_bind (c_field ''dir_test'' (dir_test trr)) (\<lambda>dir.
          let obj = pdiv dir ''test.o''; bin = pdiv dir ''test.bin''
          in res_bind (directed_gcc_cmd gcc d obj) (\<lambda>gcc_cmd.
             res_bind (res_err CShlex (shlex_split gcc_cmd)) (\<lambda>c1.
             res_bind (res_err CShlex (shlex_split (py_join '' '' [objcopy, ''-O binary '' @ path_str obj, path_str bin])))
               (\<lambda>c2.
             Inr (trr\<lparr>assembly := (case dget d ''test_srcs'' of Some (YStr s) \<Rightarrow> Some (path_of_str s) | _ \<Rightarrow> None),
                      objectfile := Some obj, binary := Some bin\<rparr>, Cmds [map Some c1, map Some c2]))))))
      | _ \<Rightarrow> Inl CMissingEnv)"

subsection \<open>The script\<close>

definition opt_arg :: "string option \<Rightarrow> pyarg" where
  "opt_arg w = (case w of None \<Rightarrow> AVal YNone | Some s \<Rightarrow> AVal (YStr s))"

text \<open>The last part: the commands are stored, the object exported, and the commands run until one fails.
  The code of a failed riscv-dv is not a list: iterating over it is a \<open>TypeError\<close>.\<close>

definition compile_run ::
    "compile_env \<Rightarrow> path \<Rightarrow> test_run_result \<times> compile_cmds \<Rightarrow> compile_error + test_run_result \<times> int" where
  "compile_run env log = (\<lambda>(trr, cmds). case cmds of
     RetCode r \<Rightarrow> Inl CNotIterable
   | Cmds cs \<Rightarrow>
       res_bind (res_err (\<lambda>_. CFormat)
         (res_map (\<lambda>c. format_to_cmd (str_resolve (ce_os env)) (map opt_arg c)) cs)) (\<lambda>ws.
       if trr_pickle_file trr = None \<or> trr_yaml_file trr = None then Inl CExport
       else Inr (trr\<lparr>compile_asm_log := Some log, compile_asm_cmds := Some ws\<rparr>, run_in_order (ce_os env) ws)))"

definition compile_test ::
    "compile_env \<Rightarrow> regression_metadata \<Rightarrow> test_run_result \<Rightarrow> compile_error + test_run_result \<times> int" where
  "compile_test env md trr =
     (case testtype trr of
        Some RISCVDV \<Rightarrow>
          res_bind (get_riscvdv_compile_cmds env md trr) (\<lambda>r.
          res_bind (c_field ''dir_test'' (dir_test trr)) (\<lambda>dir. compile_run env (pdiv dir ''compile.riscvdv.log'') r))
      | Some DIRECTED \<Rightarrow>
          res_bind (get_directed_compile_cmds env trr) (\<lambda>r.
          res_bind (c_field ''dir_test'' (dir_test trr)) (\<lambda>dir. compile_run env (pdiv dir ''compile.directed.log'') r))
      | None \<Rightarrow> Inl CUnbound)"

subsection \<open>Lemmas\<close>

lemma rewrite_cmds_clean:
  "rewrite_cmds placeholder rs cmds = Inr new \<Longrightarrow> c \<in> set new \<Longrightarrow> w \<in> set c \<Longrightarrow> \<not> str_in placeholder w"
  by (auto simp: rewrite_cmds_def rewrite_word_def Let_def dest!: res_map_InrD split: if_splits)

text \<open>When riscv-dv itself fails, the script does not end with its code: it raises.\<close>

lemma riscvdv_failure_raises:
  assumes "testtype trr = Some RISCVDV" "testname trr = Some name" "dir_test trr = Some dir"
    and "format_to_cmd (str_resolve (ce_os env)) (compile_gen_cmd md trr (ce_tmp env) name) = Inr cmd"
    and "exit_code (ce_os env) cmd \<noteq> 0"
  shows "compile_test env md trr = Inl CNotIterable"
  using assms by (simp add: compile_test_def get_riscvdv_compile_cmds_def compile_run_def c_field_def)

text \<open>What compiling leaves alone in the object of the run.\<close>

lemma compile_run_frame:
  "compile_run env log (trr, cmds) = Inr (t, c) \<Longrightarrow>
     passed t = passed trr \<and> failure_mode t = failure_mode trr \<and> testname t = testname trr \<and>
     (\<exists>cs. compile_asm_cmds t = Some cs \<and> c = run_in_order (ce_os env) cs)"
  by (auto simp: compile_run_def res_simps split: compile_cmds.splits if_splits)

lemma massage_cmds_frame:
  "massage_cmds env md name dir trr = Inr (t, cmds) \<Longrightarrow>
     passed t = passed trr \<and> failure_mode t = failure_mode trr \<and> testname t = testname trr"
  unfolding massage_cmds_def Let_def
  by (elim res_bindE) (auto simp: ddm_files_def split: if_split_asm elim!: res_bindE)

lemma riscvdv_cmds_frame:
  assumes "get_riscvdv_compile_cmds env md trr = Inr (t, cmds)"
  shows "passed t = passed trr \<and> failure_mode t = failure_mode trr \<and> testname t = testname trr"
proof -
  have frame: "passed (riscvdv_setup cmd dir trr) = passed trr" "failure_mode (riscvdv_setup cmd dir trr) = failure_mode trr"
    "testname (riscvdv_setup cmd dir trr) = testname trr" for cmd dir
    by (simp_all add: riscvdv_setup_def)
  show ?thesis
    using assms unfolding get_riscvdv_compile_cmds_def
    by (auto simp: res_bind_eq_Inr frame split: if_split_asm dest!: massage_cmds_frame)
qed

lemma directed_cmds_frame:
  "get_directed_compile_cmds env trr = Inr (t, cmds) \<Longrightarrow>
     passed t = passed trr \<and> failure_mode t = failure_mode trr \<and> testname t = testname trr"
  by (auto simp: get_directed_compile_cmds_def Let_def res_simps split: option.splits)

lemma compile_test_outcome:
  assumes "compile_test env md trr = Inr (t, c)"
  shows "passed t = passed trr \<and> failure_mode t = failure_mode trr \<and> testname t = testname trr \<and>
    (\<exists>cs. compile_asm_cmds t = Some cs \<and> (c = 0 \<longleftrightarrow> (\<forall>cmd\<in>set cs. exit_code (ce_os env) cmd = 0)))"
proof -
  from assms obtain trr1 cmds log where
    "get_riscvdv_compile_cmds env md trr = Inr (trr1, cmds) \<or> get_directed_compile_cmds env trr = Inr (trr1, cmds)"
    and run: "compile_run env log (trr1, cmds) = Inr (t, c)"
    unfolding compile_test_def by (auto simp only: res_bind_eq_Inr split: option.splits test_type.splits)
  then have "passed trr1 = passed trr \<and> failure_mode trr1 = failure_mode trr \<and> testname trr1 = testname trr"
    using riscvdv_cmds_frame directed_cmds_frame by blast
  then show ?thesis using compile_run_frame [OF run] run_in_order_zero by auto
qed

text \<open>With a discrete debug module, every linker script of the commands is the one of the module, and
  the four objcopy commands write the four files the run is given.\<close>

lemma ddm_cmds_link:
  assumes "ddm_cmds md objcopy dir obj cmds = Inr cs" "c \<in> set (take (length cmds - 1) cs)" "Some w \<in> set c" "starts_with ''-T'' w"
  shows "w = ''-T'' @ path_str (pdiv (ibex_riscvdv_customtarget (ctl_files md)) ''ddm_link.ld'')"
  using assms by (auto simp: ddm_cmds_def Let_def split: if_splits)

end
