(* ===== verification/Trace_Csv.thy ===== *)
theory Trace_Csv
  imports Py_Str "HOL-Library.Word"
begin

text \<open>
  \<open>dv/uvm/core_ibex/riscv_dv_extension/ibex_log_to_trace_csv.py\<close>: turning the trace of an Ibex
  simulation into the CSV format of riscv-dv. Of the vendored \<open>riscv_trace_csv.py\<close> and \<open>lib.py\<close> it
  uses the register and immediate conversions and the rewriting of pseudo instructions, which
  are modelled too. A regular expression is a scanner that finds what the expression finds; in
  all of them the classes exclude the characters that follow, so that no match depends on
  backtracking.
\<close>

datatype log_error = LogValueError | LogIndexError | NoLogFile | NoInstructions

subsection \<open>Registers and numbers (\<open>lib.py\<close>)\<close>

definition abi_table :: "(string \<times> string) list" where
  "abi_table =
     zip (map (\<lambda>i. CHR ''x'' # nat_repr 10 i) [0..<32])
       [''zero'', ''ra'', ''sp'', ''gp'', ''tp'', ''t0'', ''t1'', ''t2'', ''s0'', ''s1'', ''a0'', ''a1'', ''a2'', ''a3'',
        ''a4'', ''a5'', ''a6'', ''a7'', ''s2'', ''s3'', ''s4'', ''s5'', ''s6'', ''s7'', ''s8'', ''s9'', ''s10'', ''s11'',
        ''t3'', ''t4'', ''t5'', ''t6''] @
     zip (map (\<lambda>i. CHR ''f'' # nat_repr 10 i) [0..<32])
       [''ft0'', ''ft1'', ''ft2'', ''ft3'', ''ft4'', ''ft5'', ''ft6'', ''ft7'', ''fs0'', ''fs1'', ''fa0'', ''fa1'', ''fa2'',
        ''fa3'', ''fa4'', ''fa5'', ''fa6'', ''fa7'', ''fs2'', ''fs3'', ''fs4'', ''fs5'', ''fs6'', ''fs7'', ''fs8'', ''fs9'',
        ''fs10'', ''fs11'', ''ft8'', ''ft9'', ''ft10'', ''ft11'']"

definition gpr_to_abi :: "string \<Rightarrow> string" where
  "gpr_to_abi gpr = (case map_of abi_table gpr of Some s \<Rightarrow> s | None \<Rightarrow> ''na'')"

text \<open>\<open>hex((val + (1 << 32)) % (1 << 32))\<close>\<close>

definition sint_to_hex :: "int \<Rightarrow> string" where
  "sint_to_hex val = ''0x'' @ nat_repr 16 (nat ((val + 2 ^ 32) mod 2 ^ 32))"

text \<open>\<open>int(s, 0)\<close> on strings of digits and signs: a decimal literal has no leading zero.\<close>

definition int_lit :: "string \<Rightarrow> int option" where
  "int_lit s =
     (let d = (case s of c # r \<Rightarrow> if c = CHR ''-'' then r else s | [] \<Rightarrow> s)
      in case d of
           c # e # r \<Rightarrow> if c = CHR ''0'' \<and> \<not> list_all (\<lambda>x. x = CHR ''0'') d then None else py_int 10 s
         | _ \<Rightarrow> py_int 10 s)"

text \<open>\<open>get_imm_hex_val\<close> of \<open>riscv_trace_csv.py\<close>\<close>

definition get_imm_hex_val :: "string \<Rightarrow> log_error + string" where
  "get_imm_hex_val imm =
     (case imm of
        [] \<Rightarrow> Inl LogIndexError
      | c # r \<Rightarrow>
          (case int_lit (if c = CHR ''-'' then r else imm) of
             None \<Rightarrow> Inl LogValueError
           | Some v \<Rightarrow> Inr (drop 2 (sint_to_hex (if c = CHR ''-'' then - v else v)))))"

subsection \<open>Scanners\<close>

definition is_alnum :: "char \<Rightarrow> bool" where
  "is_alnum c \<longleftrightarrow> is_lower c \<or> is_digit c"

definition is_imm :: "char \<Rightarrow> bool" where
  "is_imm c \<longleftrightarrow> is_digit c \<or> c = CHR ''-''"

text \<open>\<open>rd,imm(rs1)\<close> at the start of a string; \<open>empty_ok\<close> for \<open>BASE_RE\<close>, whose immediate may be
  empty.\<close>

definition addr_at :: "bool \<Rightarrow> string \<Rightarrow> (string \<times> string \<times> string) option" where
  "addr_at empty_ok s =
     (let rd = takeWhile is_alnum s; r1 = dropWhile is_alnum s
      in if rd = [] \<or> r1 = [] \<or> hd r1 \<noteq> CHR '','' then None
         else let imm = takeWhile is_imm (tl r1); r2 = dropWhile is_imm (tl r1)
           in if imm = [] \<and> \<not> empty_ok \<or> r2 = [] \<or> hd r2 \<noteq> CHR ''('' then None
              else let rs1 = takeWhile is_alnum (tl r2); r3 = dropWhile is_alnum (tl r2)
                in if rs1 = [] \<or> r3 = [] \<or> hd r3 \<noteq> CHR '')'' then None else Some (rd, imm, rs1))"

fun addr_search :: "bool \<Rightarrow> string \<Rightarrow> (string \<times> string \<times> string) option" where
  "addr_search empty_ok [] = None"
| "addr_search empty_ok (c # s) =
     (case addr_at empty_ok (c # s) of Some m \<Rightarrow> Some m | None \<Rightarrow> addr_search empty_ok s)"

text \<open>\<open>x<n>=0x<hex>\<close>, with a register other than \<open>x0\<close>.\<close>

definition rd_at :: "string \<Rightarrow> (string \<times> string) option" where
  "rd_at s =
     (case s of
        c # d # r \<Rightarrow>
          if c = CHR ''x'' \<and> is_digit d \<and> d \<noteq> CHR ''0'' then
            (let ds = d # takeWhile is_digit r; r1 = dropWhile is_digit r
             in if take 3 r1 = ''=0x'' \<and> takeWhile is_hex (drop 3 r1) \<noteq> []
                then Some (ds, takeWhile is_hex (drop 3 r1)) else None)
          else None
      | _ \<Rightarrow> None)"

fun rd_search :: "string \<Rightarrow> (string \<times> string) option" where
  "rd_search [] = None"
| "rd_search (c # s) = (case rd_at (c # s) of Some m \<Rightarrow> Some m | None \<Rightarrow> rd_search s)"

text \<open>The columns of a trace line: time, cycle, pc, encoding, and the instruction with its first
  operand word.\<close>

record instr_match =
  im_pc :: string
  im_bin :: string
  im_name :: string
  im_gap :: string
  im_operands :: string

definition word_at :: "(char \<Rightarrow> bool) \<Rightarrow> string \<Rightarrow> (string \<times> string \<times> string) option" where
  "word_at cls s =
     (let w = takeWhile (\<lambda>c. \<not> is_space c) s; r = dropWhile (\<lambda>c. \<not> is_space c) s
      in if w = [] \<or> \<not> list_all cls w then None
         else Some (w, takeWhile is_space r, dropWhile is_space r))"

definition instr_search :: "string \<Rightarrow> instr_match option" where
  "instr_search line =
     (case word_at is_digit (dropWhile is_space line) of
        None \<Rightarrow> None
      | Some (time, _, r1) \<Rightarrow> (case word_at is_digit r1 of
          None \<Rightarrow> None
        | Some (cycle, _, r2) \<Rightarrow> (case word_at is_hex r2 of
            None \<Rightarrow> None
          | Some (pc, _, r3) \<Rightarrow> (case word_at is_hex r3 of
              None \<Rightarrow> None
            | Some (bin, _, r4) \<Rightarrow> (case word_at (\<lambda>_. True) r4 of
                None \<Rightarrow> None
              | Some (name, gap, r5) \<Rightarrow> (case word_at (\<lambda>_. True) r5 of
                  None \<Rightarrow> None
                | Some (ops, _, _) \<Rightarrow>
                    Some \<lparr>im_pc = pc, im_bin = bin, im_name = name, im_gap = gap, im_operands = ops\<rparr>))))))"

subsection \<open>Pseudo instructions (\<open>lib.py\<close>)\<close>

text \<open>Those that become another instruction with an operand appended.\<close>

definition appending_pseudo :: "(string \<times> string \<times> string) list" where
  "appending_pseudo =
     [(''mv'', ''addi'', '',0''), (''not'', ''xori'', '',-1''), (''sext.w'', ''addiw'', '',0''),
      (''seqz'', ''sltiu'', '',1''), (''sltz'', ''slt'', '',zero''), (''csrr'', ''csrrw'', '',zero''),
      (''rev.p'', ''grevi'', '',1''), (''rev2.n'', ''grevi'', '',2''), (''rev.n'', ''grevi'', '',3''),
      (''rev4.b'', ''grevi'', '',4''), (''rev2.b'', ''grevi'', '',6''), (''rev.b'', ''grevi'', '',7''),
      (''rev8.h'', ''grevi'', '',8''), (''rev4.h'', ''grevi'', '',12''), (''rev2.h'', ''grevi'', '',14''),
      (''rev.h'', ''grevi'', '',15''), (''rev16'', ''grevi'', '',16''), (''rev8'', ''grevi'', '',24''),
      (''rev4'', ''grevi'', '',28''), (''rev2'', ''grevi'', '',30''), (''rev'', ''grevi'', '',31''),
      (''orc.p'', ''gorci'', '',1''), (''orc2.n'', ''gorci'', '',2''), (''orc.n'', ''gorci'', '',3''),
      (''orc4.b'', ''gorci'', '',4''), (''orc2.b'', ''gorci'', '',6''), (''orc.b'', ''gorci'', '',7''),
      (''orc8.h'', ''gorci'', '',8''), (''orc4.h'', ''gorci'', '',12''), (''orc2.h'', ''gorci'', '',14''),
      (''orc.h'', ''gorci'', '',15''), (''orc16'', ''gorci'', '',16''), (''orc8'', ''gorci'', '',24''),
      (''orc4'', ''gorci'', '',28''), (''orc2'', ''gorci'', '',30''), (''orc'', ''gorci'', '',31''),
      (''zext.b'', ''andi'', '',255''), (''zext.h'', ''pack'', '',zero''), (''zext.w'', ''pack'', '',zero''),
      (''zip.n'', ''shfli'', '',1''), (''unzip.n'', ''unshfli'', '',1''), (''zip2.b'', ''shfli'', '',2''),
      (''unzip2.b'', ''unshfli'', '',2''), (''zip.b'', ''shfli'', '',3''), (''unzip.b'', ''unshfli'', '',3''),
      (''zip4.h'', ''shfli'', '',4''), (''unzip4.h'', ''unshfli'', '',4''), (''zip2.h'', ''shfli'', '',6''),
      (''unzip2.h'', ''unshfli'', '',6''), (''zip.h'', ''shfli'', '',7''), (''unzip.h'', ''unshfli'', '',7''),
      (''zip8'', ''shfli'', '',8''), (''unzip8'', ''unshfli'', '',8''), (''zip4'', ''shfli'', '',12''),
      (''unzip4'', ''unshfli'', '',12''), (''zip2'', ''shfli'', '',14''), (''unzip2'', ''unshfli'', '',14''),
      (''zip'', ''shfli'', '',15''), (''unzip'', ''unshfli'', '',15'')]"

text \<open>Those with \<open>zero\<close> put between two operands, in front of all, or the first two swapped.\<close>

definition middle_pseudo :: "(string \<times> string) list" where
  "middle_pseudo =
     [(''neg'', ''sub''), (''negw'', ''subw''), (''snez'', ''sltu''), (''sgtz'', ''slt''), (''beqz'', ''beq''),
      (''bnez'', ''bne''), (''bgez'', ''bge''), (''bltz'', ''blt'')]"

definition front_pseudo :: "(string \<times> string) list" where
  "front_pseudo =
     [(''blez'', ''bge''), (''bgtz'', ''blt''), (''csrw'', ''csrrw''), (''csrs'', ''csrrs''), (''csrc'', ''csrrc''),
      (''csrwi'', ''csrrwi''), (''csrsi'', ''csrrsi''), (''csrci'', ''csrrci''), (''j'', ''jal'')]"

definition swap_pseudo :: "(string \<times> string) list" where
  "swap_pseudo = [(''bgt'', ''blt''), (''ble'', ''bge''), (''bgtu'', ''bltu''), (''bleu'', ''bgeu'')]"

definition convert_jalr :: "string \<Rightarrow> string" where
  "convert_jalr operands =
     (let ops = (case addr_search True operands of
                   Some (rd, imm, rs1) \<Rightarrow> rd @ '','' @ rs1 @ '','' @ imm
                 | None \<Rightarrow> operands)
      in if CHR '','' \<in> set ops then ops else ''ra,'' @ ops @ '',0'')"

definition convert_pseudo_instr :: "string \<Rightarrow> string \<Rightarrow> string \<Rightarrow> log_error + string \<times> string" where
  "convert_pseudo_instr name operands bin =
     (if name = ''nop'' then Inr (''addi'', ''zero,zero,0'')
      else case map_of appending_pseudo name of Some (new, suffix) \<Rightarrow> Inr (new, operands @ suffix)
      | None \<Rightarrow> (case map_of middle_pseudo name of
          Some new \<Rightarrow> (case split_chr CHR '','' operands of
              o0 # o1 # _ \<Rightarrow> Inr (new, o0 @ '',zero,'' @ o1) | _ \<Rightarrow> Inl LogIndexError)
      | None \<Rightarrow> (case map_of front_pseudo name of Some new \<Rightarrow> Inr (new, ''zero,'' @ operands)
      | None \<Rightarrow> (case map_of swap_pseudo name of
          Some new \<Rightarrow> (case split_chr CHR '','' operands of
              o0 # o1 # o2 # _ \<Rightarrow> Inr (new, o1 @ '','' @ o0 @ '','' @ o2) | _ \<Rightarrow> Inl LogIndexError)
      | None \<Rightarrow>
          if name = ''jr'' then Inr (''jalr'', ''zero,'' @ operands @ '',0'')
          else if name = ''jal'' then
            Inr (''jal'', if CHR '','' \<in> set operands then operands else ''ra,'' @ operands)
          else if name = ''jalr'' then Inr (''jalr'', convert_jalr operands)
          else if name = ''ret'' then
            (if bin = [] then Inl LogIndexError
             else if last bin = CHR ''2'' then Inr (''c.jr'', ''ra'') else Inr (''jalr'', ''zero,ra,0''))
          else Inr (name, operands)))))"

subsection \<open>Operands\<close>

definition pc_relative :: "string list" where
  "pc_relative = [''beq'', ''bne'', ''blt'', ''bge'', ''bltu'', ''bgeu'', ''c.beqz'', ''c.bnez'', ''beqz'', ''bnez'',
     ''bgez'', ''bltz'', ''blez'', ''bgtz'', ''c.j'', ''j'', ''c.jal'', ''jal'']"

definition rel_imm :: "string \<Rightarrow> string \<Rightarrow> log_error + string" where
  "rel_imm imm pc =
     (case (py_int 16 imm, py_int 16 pc) of
        (Some i, Some p) \<Rightarrow> Inr (sint_to_hex (i - p))
      | _ \<Rightarrow> Inl LogValueError)"

definition process_imm :: "string \<Rightarrow> string \<Rightarrow> string \<Rightarrow> log_error + string" where
  "process_imm name pc operands =
     (if name \<notin> set pc_relative then Inr operands
      else case rsplit_once CHR '','' operands of
             None \<Rightarrow> rel_imm operands pc
           | Some (before, imm) \<Rightarrow> res_bind (rel_imm imm pc) (\<lambda>off. Inr (before @ '','' @ off)))"

definition convert_operands_to_abi :: "string \<Rightarrow> string" where
  "convert_operands_to_abi s =
     py_join '','' (map (\<lambda>r. if gpr_to_abi r \<noteq> ''na'' then gpr_to_abi r else r) (split_chr CHR '','' s))"

subsection \<open>Entries\<close>

record trace_entry =
  te_gpr :: "string list"
  te_csr :: "string list"
  te_instr :: string
  te_operand :: string
  te_pc :: string
  te_binary :: string
  te_instr_str :: string
  te_mode :: string
  te_imm :: "string option"

definition expand_trace_entry :: "trace_entry \<Rightarrow> string \<Rightarrow> log_error + trace_entry" where
  "expand_trace_entry t operands =
     res_bind (process_imm (te_instr t) (te_pc t) operands) (\<lambda>ops1.
     res_bind (convert_pseudo_instr (te_instr t) ops1 (te_binary t)) (\<lambda>(name, ops2).
       case addr_search False ops2 of
         None \<Rightarrow> Inr (t\<lparr>te_instr := name, te_operand := convert_operands_to_abi ops2\<rparr>)
       | Some (rd, imm, rs1) \<Rightarrow>
           res_bind (get_imm_hex_val imm) (\<lambda>h.
             Inr (t\<lparr>te_instr := name, te_imm := Some h,
                    te_operand := convert_operands_to_abi (rd @ '','' @ rs1 @ '','' @ imm)\<rparr>))))"

text \<open>One line: \<open>None\<close> if it holds no instruction.\<close>

definition trace_line :: "bool \<Rightarrow> string \<Rightarrow> log_error + trace_entry option" where
  "trace_line full_trace line =
     (case instr_search line of
        None \<Rightarrow> Inr None
      | Some m \<Rightarrow>
          (let t = \<lparr>te_gpr = [], te_csr = [], te_instr = im_name m, te_operand = [], te_pc = im_pc m,
                    te_binary = im_bin m, te_instr_str = im_name m @ im_gap m @ im_operands m,
                    te_mode = [], te_imm = None\<rparr>
           in res_bind (if full_trace then expand_trace_entry t (im_operands m) else Inr t) (\<lambda>t'.
                Inr (Some (case rd_search line of
                    None \<Rightarrow> t'
                  | Some (rd, v) \<Rightarrow> t'\<lparr>te_gpr := te_gpr t' @ [gpr_to_abi (CHR ''x'' # rd) @ '':'' @ v]\<rparr>)))))"

definition process_ibex_sim_log_fd :: "bool \<Rightarrow> string list \<Rightarrow> log_error + trace_entry list" where
  "process_ibex_sim_log_fd full_trace lines =
     res_bind (res_map (trace_line full_trace) (takeWhile (\<lambda>l. \<not> str_in ''ecall'' l) lines)) (\<lambda>ts.
       Inr (List.map_filter (\<lambda>t. t) ts))"

text \<open>The CSV text: the fields of \<open>csv.DictWriter\<close>, with its minimal quoting.\<close>

definition csv_field :: "string \<Rightarrow> string" where
  "csv_field s =
     (if list_ex (\<lambda>c. c \<in> set s) [CHR '','', CHR 0x22, CHR 0x0D, newline]
      then [CHR 0x22] @ py_replace [CHR 0x22] [CHR 0x22, CHR 0x22] s @ [CHR 0x22] else s)"

definition csv_row :: "string list \<Rightarrow> string" where
  "csv_row flds = py_join '','' (map csv_field flds) @ [CHR 0x0D, newline]"

definition csv_header :: "string list" where
  "csv_header = [''pc'', ''instr'', ''gpr'', ''csr'', ''binary'', ''mode'', ''instr_str'', ''operand'', ''pad'']"

definition write_trace_entry :: "trace_entry \<Rightarrow> string" where
  "write_trace_entry t = csv_row
     [te_pc t, te_instr t, py_join '';'' (te_gpr t), py_join '';'' (te_csr t), te_binary t, te_mode t,
      te_instr_str t, te_operand t, []]"

definition process_ibex_sim_log :: "string list option \<Rightarrow> bool \<Rightarrow> log_error + string" where
  "process_ibex_sim_log file full_trace =
     (case file of
        None \<Rightarrow> Inl NoLogFile
      | Some lines \<Rightarrow>
          res_bind (process_ibex_sim_log_fd full_trace lines) (\<lambda>ts.
            if ts = [] then Inl NoInstructions
            else Inr (csv_row csv_header @ concat (map write_trace_entry ts))))"

subsection \<open>Lemmas\<close>

lemma sint_to_hex_word: "sint_to_hex v = ''0x'' @ nat_repr 16 (unat (word_of_int v :: 32 word))"
proof -
  have "(v + 2 ^ 32) mod 2 ^ 32 = v mod 2 ^ 32" by simp
  then show ?thesis by (simp add: sint_to_hex_def unat_eq_nat_uint uint_word_of_int)
qed

lemma sint_to_hex_read: "py_int 16 (sint_to_hex v) = Some (uint (word_of_int v :: 32 word))"
  unfolding sint_to_hex_word py_int_hex by simp

lemma rel_imm_read:
  assumes "py_int 16 imm = Some t" "py_int 16 pc = Some p"
  shows "\<exists>off n. rel_imm imm pc = Inr off \<and> py_int 16 off = Some n \<and>
    (word_of_int p + word_of_int n :: 32 word) = word_of_int t"
proof -
  have "(word_of_int p + word_of_int (uint (word_of_int (t - p) :: 32 word)) :: 32 word) = word_of_int t"
    by (simp add: wi_hom_syms)
  with assms show ?thesis by (auto simp: rel_imm_def sint_to_hex_read)
qed

subsection \<open>Properties\<close>

text \<open>C25: Branch and jump targets survive the conversion: where the trace has the absolute target
  as last operand, the entry has an offset, printed as an unsigned 32-bit number, that added to
  the program counter modulo 2^32 gives the target again; the operands before it are kept.\<close>

theorem branch_target_recovered:
  assumes "name \<in> set pc_relative" "CHR '','' \<notin> set imm"
    "py_int 16 imm = Some t" "py_int 16 pc = Some p"
  shows "\<exists>off n. process_imm name pc (before @ '','' @ imm) = Inr (before @ '','' @ off) \<and>
    process_imm name pc imm = Inr off \<and> py_int 16 off = Some n \<and>
    (word_of_int p + word_of_int n :: 32 word) = word_of_int t"
proof -
  from rel_imm_read [OF assms(3,4)] obtain off n where
    "rel_imm imm pc = Inr off" "py_int 16 off = Some n"
    "(word_of_int p + word_of_int n :: 32 word) = word_of_int t" by blast
  moreover have "rsplit_once CHR '','' imm = None"
    using assms(2) by (simp add: rsplit_once_def split_once_def)
  ultimately show ?thesis
    using assms(1,2) by (simp add: process_imm_def rsplit_once_append)
qed

theorem branch_target_recovered_witness:
  "\<exists>off n. process_imm ''beq'' ''00000080'' (''x1,x2'' @ '','' @ ''70'') = Inr (''x1,x2'' @ '','' @ off) \<and>
     py_int 16 off = Some n \<and> (word_of_int 128 + word_of_int n :: 32 word) = word_of_int 112"
proof -
  have "py_int 16 ''70'' = Some 112" "py_int 16 ''00000080'' = Some 128" by code_simp+
  moreover have "''beq'' \<in> set pc_relative" by (simp add: pc_relative_def)
  ultimately show ?thesis using branch_target_recovered [of "''beq''" "''70''" 112 "''00000080''" 128 "''x1,x2''"]
    by auto
qed

end
