(* ===== verification/Check_Logs.thy ===== *)
theory Check_Logs
  imports Trace_Csv Test_Result
begin

text \<open>
  The verdict on one run: \<open>check_ibex_uvm_log\<close> of \<open>riscv_dv_extension/ibex_log_to_trace_csv.py\<close>
  and \<open>dv/uvm/core_ibex/scripts/check_logs.py\<close>. Files are arguments: what opening the log gives,
  its lines (with their newlines) or the error. An exception that the code does not catch is a
  value of the left summand.
\<close>

subsection \<open>The UVM log\<close>

definition is_error_line :: "string \<Rightarrow> bool" where
  "is_error_line l = (str_in ''UVM_ERROR'' l \<or> str_in ''UVM_FATAL'' l \<or> str_in ''Error'' l)"

definition is_passed_line :: "string \<Rightarrow> bool" where
  "is_passed_line l = str_in ''RISC-V UVM TEST PASSED'' l"

definition is_failed_line :: "string \<Rightarrow> bool" where
  "is_failed_line l = str_in ''RISC-V UVM TEST FAILED'' l"

record uvm_scan =
  us_passed :: bool
  us_failed :: bool
  us_error :: "(nat \<times> string) option"
  us_result_seen :: bool

definition scan_line :: "nat \<Rightarrow> string \<Rightarrow> uvm_scan \<Rightarrow> uvm_scan" where
  "scan_line linenum line s =
     (let s1 = (if is_error_line line \<and> \<not> us_result_seen s
                then s\<lparr>us_error := Some (linenum, line), us_failed := True\<rparr> else s);
          s2 = (if is_passed_line line then s1\<lparr>us_result_seen := True, us_passed := True\<rparr> else s1)
      in if is_failed_line line then s2\<lparr>us_result_seen := True, us_failed := True\<rparr> else s2)"

text \<open>The loop over the lines from \<open>linenum\<close> on; it ends with the first FAILED line.\<close>

fun scan_log :: "nat \<Rightarrow> string list \<Rightarrow> uvm_scan \<Rightarrow> uvm_scan" where
  "scan_log linenum [] s = s"
| "scan_log linenum (line # rest) s =
     (if is_failed_line line then scan_line linenum line s
      else scan_log (linenum + 1) rest (scan_line linenum line s))"

definition scan_init :: uvm_scan where
  "scan_init = \<lparr>us_passed = False, us_failed = False, us_error = None, us_result_seen = False\<rparr>"

text \<open>The extract: the lines numbered \<open>range(e - 5, e + 5)\<close>, the error line marked.\<close>

definition log_extract :: "nat \<Rightarrow> string list \<Rightarrow> string list" where
  "log_extract e lines =
     map (\<lambda>(n, l). (if n = e then ''[E] '' else ''    '') @ nat_repr 10 n @ '': '' @ py_strip l)
       (filter (\<lambda>(n, l). int e - 5 \<le> int n \<and> int n < int e + 5) (zip [1..<length lines + 1] lines))"

datatype check_error = NoneInError | ParseError log_error | FieldIsNone

type_synonym uvm_verdict = "bool \<times> string list \<times> failure_modes"

definition check_ibex_uvm_log :: "string list \<Rightarrow> check_error + uvm_verdict" where
  "check_ibex_uvm_log lines =
     (let s = scan_log 1 lines scan_init
      in if \<not> us_failed s then Inr (us_passed s, [], NONE)
         else case us_error s of
             None \<Rightarrow> Inl NoneInError
           | Some (n, line) \<Rightarrow>
               Inr (False, log_extract n lines,
                    if str_in ''Test failed due to wall-clock timeout.'' line then TIMEOUT else LOG_ERROR))"

subsection \<open>One run\<close>

datatype open_error = NotFound string | OtherOSError string

definition os_message :: "open_error \<Rightarrow> string" where
  "os_message e = (case e of NotFound m \<Rightarrow> m | OtherOSError m \<Rightarrow> m)"

text \<open>\<open>process_ibex_sim_log\<close> seen from here: \<open>None\<close> if it returns, \<open>Some\<close> message if it raises an
  \<open>OSError\<close> or a \<open>RuntimeError\<close>. A file that is not found, the CSV file too, is reported as a
  missing log.\<close>

definition trace_outcome ::
  "open_error + string list \<Rightarrow> open_error option \<Rightarrow> string \<Rightarrow> check_error + string option" where
  "trace_outcome log csv name =
     (case (log, csv) of
        (Inl (NotFound _), _) \<Rightarrow> Inr (Some (''Logfile '' @ name @ '' not found''))
      | (Inl (OtherOSError m), _) \<Rightarrow> Inr (Some m)
      | (Inr _, Some (NotFound _)) \<Rightarrow> Inr (Some (''Logfile '' @ name @ '' not found''))
      | (Inr _, Some (OtherOSError m)) \<Rightarrow> Inr (Some m)
      | (Inr lines, None) \<Rightarrow>
          (case process_ibex_sim_log (Some lines) True of
             Inr _ \<Rightarrow> Inr None
           | Inl NoLogFile \<Rightarrow> Inr (Some (''Logfile '' @ name @ '' not found''))
           | Inl NoInstructions \<Rightarrow> Inr (Some (''No instructions in logfile: '' @ name))
           | Inl e \<Rightarrow> Inl (ParseError e)))"

definition timeout_text :: "int option \<Rightarrow> string" where
  "timeout_text t = (case t of None \<Rightarrow> ''None'' | Some i \<Rightarrow> int_str i)"

definition uvm_message :: "test_run_result \<Rightarrow> path \<Rightarrow> uvm_verdict \<Rightarrow> string" where
  "uvm_message trr log = (\<lambda>(ok, extract, mode).
     (if mode = TIMEOUT
      then ''[FAILURE] Simulation ended gracefully due to timeout ['' @ timeout_text (trr_timeout_s trr) @ ''s].''
             @ [newline]
      else [newline] @ ''[FAILED]: error seen in '' @ [CHR 0x27] @ path_name log @ [CHR 0x27, newline])
     @ (if extract = [] then []
        else ''---------------*LOG-EXTRACT*----------------'' @ [newline] @ py_join [newline] extract @ [newline]
             @ ''--------------------------------------------'' @ [newline]))"

record log_files =
  lf_log :: "path \<Rightarrow> open_error + string list"
  lf_csv :: "path \<Rightarrow> open_error option"

definition compare_test_run :: "log_files \<Rightarrow> test_run_result \<Rightarrow> check_error + test_run_result" where
  "compare_test_run fs trr =
     (if failure_mode trr = Some TIMEOUT then Inr (trr\<lparr>passed := Some False\<rparr>)
      else case (rtl_trace trr, dir_test trr, rtl_log trr) of
        (Some tr, Some dir, Some log) \<Rightarrow>
          res_bind (trace_outcome (lf_log fs tr) (lf_csv fs (pdiv dir ''rtl_trace.csv'')) (path_str tr))
            (\<lambda>out. case out of
               Some m \<Rightarrow>
                 Inr (trr\<lparr>passed := Some False, failure_mode := Some FILE_ERROR,
                   failure_message := Some (''[FAILED]: Processing the ibex trace failed: '' @ m @ [newline])\<rparr>)
             | None \<Rightarrow>
                 (case lf_log fs log of
                    Inl e \<Rightarrow>
                      Inr (trr\<lparr>passed := Some False, failure_mode := Some FILE_ERROR,
                        failure_message := Some (''[FAILED] Could not open simulation log: '' @ os_message e
                          @ [newline])\<rparr>)
                  | Inr lines \<Rightarrow>
                      res_bind (check_ibex_uvm_log lines) (\<lambda>v.
                        if \<not> fst v
                        then Inr (trr\<lparr>failure_mode := Some (snd (snd v)),
                                      failure_message := Some (uvm_message trr log v)\<rparr>)
                        else Inr (trr\<lparr>passed := Some True\<rparr>))))
      | _ \<Rightarrow> Inl FieldIsNone)"

subsection \<open>What the scan finds\<close>

text \<open>The errors that count: error lines with no result line before them, with their numbers.\<close>

definition is_result_line :: "string \<Rightarrow> bool" where
  "is_result_line l = (is_passed_line l \<or> is_failed_line l)"

fun counted_errors :: "nat \<Rightarrow> string list \<Rightarrow> (nat \<times> string) list" where
  "counted_errors n [] = []"
| "counted_errors n (l # ls) =
     (if is_error_line l then [(n, l)] else [])
     @ (if is_result_line l then [] else counted_errors (n + 1) ls)"

lemma counted_errors_iff:
  "(n, l) \<in> set (counted_errors k ls) \<longleftrightarrow>
     (\<exists>i<length ls. n = k + i \<and> l = ls ! i \<and> is_error_line l \<and> (\<forall>j<i. \<not> is_result_line (ls ! j)))"
proof (induction ls arbitrary: k)
  case (Cons a ls)
  show ?case
    by (cases "is_result_line a")
      (auto simp: Cons.IH Ex_less_Suc2 All_less_Suc2 split: if_splits)
qed simp

lemma scan_log_seen:
  "us_result_seen s \<Longrightarrow> us_error (scan_log n ls s) = us_error s \<and>
     us_failed (scan_log n ls s) = (us_failed s \<or> (\<exists>l\<in>set ls. is_failed_line l))"
proof (induction ls arbitrary: n s)
  case (Cons a ls)
  show ?case
  proof (cases "is_failed_line a")
    case True
    then show ?thesis using Cons.prems by (simp add: scan_line_def Let_def)
  next
    case False
    then show ?thesis
      using Cons.IH [of "scan_line n a s" "n + 1"] Cons.prems by (auto simp: scan_line_def Let_def)
  qed
qed simp

lemma scan_log_error:
  "\<not> us_result_seen s \<Longrightarrow>
     us_error (scan_log n ls s) = (if counted_errors n ls = [] then us_error s else Some (last (counted_errors n ls)))
     \<and> us_failed (scan_log n ls s) = (us_failed s \<or> counted_errors n ls \<noteq> [] \<or> (\<exists>l\<in>set ls. is_failed_line l))"
proof (induction ls arbitrary: n s)
  case (Cons a ls)
  consider "is_failed_line a" | "\<not> is_failed_line a" "is_passed_line a" | "\<not> is_result_line a"
    by (auto simp: is_result_line_def)
  then show ?case
  proof cases
    case 1
    then show ?thesis using Cons.prems by (simp add: scan_line_def Let_def is_result_line_def)
  next
    case 2
    then show ?thesis using scan_log_seen [of "scan_line n a s" "n + 1" ls] Cons.prems
      by (simp add: scan_line_def Let_def is_result_line_def)
  next
    case 3
    then show ?thesis using Cons.IH [of "scan_line n a s" "n + 1"] Cons.prems
      by (auto simp: scan_line_def Let_def is_result_line_def)
  qed
qed simp

lemma scan_log_passed:
  "\<not> (\<exists>l\<in>set ls. is_failed_line l) \<Longrightarrow>
     us_passed (scan_log n ls s) = (us_passed s \<or> (\<exists>l\<in>set ls. is_passed_line l))"
  by (induction ls arbitrary: n s) (auto simp: scan_line_def Let_def)

lemma check_log_cases:
  "check_ibex_uvm_log lines =
     (if counted_errors 1 lines \<noteq> [] then
        Inr (False, log_extract (fst (last (counted_errors 1 lines))) lines,
          if str_in ''Test failed due to wall-clock timeout.'' (snd (last (counted_errors 1 lines)))
          then TIMEOUT else LOG_ERROR)
      else if \<exists>l\<in>set lines. is_failed_line l then Inl NoneInError
      else Inr (\<exists>l\<in>set lines. is_passed_line l, [], NONE))"
proof -
  define c where "c = counted_errors 1 lines"
  define s where "s = scan_log 1 lines scan_init"
  have "us_error s = (if c = [] then None else Some (last c))"
    "us_failed s = (c \<noteq> [] \<or> (\<exists>l\<in>set lines. is_failed_line l))"
    using scan_log_error [of scan_init 1 lines] by (simp_all add: scan_init_def s_def c_def)
  moreover have "\<not> (\<exists>l\<in>set lines. is_failed_line l) \<Longrightarrow> us_passed s = (\<exists>l\<in>set lines. is_passed_line l)"
    using scan_log_passed [of lines 1 scan_init] by (simp add: scan_init_def s_def)
  ultimately show ?thesis
    unfolding check_ibex_uvm_log_def Let_def c_def [symmetric] s_def [symmetric]
    by (cases "last c") auto
qed

lemma no_counted_errors:
  "counted_errors 1 lines = [] \<longleftrightarrow>
     \<not> (\<exists>i<length lines. is_error_line (lines ! i) \<and> (\<forall>j<i. \<not> is_result_line (lines ! j)))"
proof -
  have "counted_errors 1 lines = [] \<longleftrightarrow> (\<forall>n l. (n, l) \<notin> set (counted_errors 1 lines))"
    by (cases "counted_errors 1 lines") auto
  then show ?thesis by (simp only: counted_errors_iff) auto
qed

text \<open>A run that comes in without a mark comes out as passed only if its log says so.\<close>

lemma compare_unmarked:
  assumes "compare_test_run fs trr = Inr t" "passed t = Some True" "passed trr = None"
  shows "failure_mode trr \<noteq> Some TIMEOUT \<and> rtl_cmds t = rtl_cmds trr \<and> testname t = testname trr \<and>
    compile_asm_cmds t = compile_asm_cmds trr \<and>
    (\<exists>log lines ext mode. rtl_log t = Some log \<and> lf_log fs log = Inr lines \<and>
       check_ibex_uvm_log lines = Inr (True, ext, mode))"
  using assms unfolding compare_test_run_def
  by (auto elim!: res_bindE split: if_split_asm option.split_asm sum.split_asm)

subsection \<open>Properties\<close>

text \<open>C23: The verdict on a UVM log. It is a pass exactly if some line says PASSED, none says
  FAILED, and no error line comes before (or in) the first result line. The log makes the check
  itself raise exactly if it says FAILED and shows no such error line: the code then searches in
  an error line it never found.\<close>

theorem uvm_log_verdict:
  "((\<exists>ext mode. check_ibex_uvm_log lines = Inr (True, ext, mode)) \<longleftrightarrow>
      (\<exists>l\<in>set lines. is_passed_line l) \<and> \<not> (\<exists>l\<in>set lines. is_failed_line l) \<and>
      \<not> (\<exists>i<length lines. is_error_line (lines ! i) \<and> (\<forall>j<i. \<not> is_result_line (lines ! j)))) \<and>
   (check_ibex_uvm_log lines = Inl NoneInError \<longleftrightarrow>
      (\<exists>l\<in>set lines. is_failed_line l) \<and>
      \<not> (\<exists>i<length lines. is_error_line (lines ! i) \<and> (\<forall>j<i. \<not> is_result_line (lines ! j))))"
  unfolding no_counted_errors [symmetric] by (simp add: check_log_cases)

text \<open>The extract shows the last counted error line, marked, and at most the five lines before
  and the four after it.\<close>

lemma log_extract_lines:
  "t \<in> set (log_extract e lines) \<longleftrightarrow>
     (\<exists>i<length lines. int e - 5 \<le> int (i + 1) \<and> int (i + 1) < int e + 5 \<and>
        t = (if i + 1 = e then ''[E] '' else ''    '') @ nat_repr 10 (i + 1) @ '': '' @ py_strip (lines ! i))"
proof -
  have "(n, l) \<in> set (zip [1..<length lines + 1] lines) \<longleftrightarrow> (\<exists>i<length lines. n = i + 1 \<and> l = lines ! i)"
    for n l by (auto simp: in_set_conv_nth simp del: upt_Suc)
  then show ?thesis unfolding log_extract_def set_map set_filter image_iff by fastforce
qed

text \<open>C24: What comparing a run reports. If it returns a run marked as passed, then either the two
  logs were readable and the UVM log says so, or the UVM log says the run failed and the mark is
  the one the run had before: the code never clears it there. A run that the simulation step marked
  as timed out is never passed.\<close>

theorem compare_passed_only_if:
  assumes "compare_test_run fs trr = Inr trr'" "passed trr' = Some True"
  shows "failure_mode trr \<noteq> Some TIMEOUT \<and>
    (\<exists>log lines v. rtl_log trr = Some log \<and> lf_log fs log = Inr lines \<and> check_ibex_uvm_log lines = Inr v \<and>
       (if fst v then trr' = trr\<lparr>passed := Some True\<rparr>
        else passed trr = Some True \<and> failure_mode trr' = Some (snd (snd v))))"
  using assms
  by (auto simp: compare_test_run_def res_simps split: if_splits option.splits sum.splits)

theorem uvm_log_verdict_witness:
  "check_ibex_uvm_log [''UVM_INFO start'', ''--- RISC-V UVM TEST FAILED ---'', ''UVM_ERROR : 0''] = Inl NoneInError"
proof -
  have "(\<exists>l\<in>set [''UVM_INFO start'', ''--- RISC-V UVM TEST FAILED ---'', ''UVM_ERROR : 0'']. is_failed_line l) \<and>
     \<not> (\<exists>i<length [''UVM_INFO start'', ''--- RISC-V UVM TEST FAILED ---'', ''UVM_ERROR : 0''].
          is_error_line ([''UVM_INFO start'', ''--- RISC-V UVM TEST FAILED ---'', ''UVM_ERROR : 0''] ! i) \<and>
          (\<forall>j<i. \<not> is_result_line ([''UVM_INFO start'', ''--- RISC-V UVM TEST FAILED ---'', ''UVM_ERROR : 0''] ! j)))"
    by code_simp
  then show ?thesis unfolding uvm_log_verdict [THEN conjunct2] .
qed

definition sample_logs :: log_files where
  "sample_logs = \<lparr>lf_log = (\<lambda>p. if path_name p = ''trace'' then Inr
       [''1 5 80 1 nop x''] else Inr [''RISC-V UVM TEST PASSED'']),
     lf_csv = (\<lambda>_. None)\<rparr>"

definition sample_trr :: test_run_result where
  "sample_trr = empty_trr\<lparr>rtl_trace := Some (Path True [''trace'']), dir_test := Some (Path True [''t'']),
     rtl_log := Some (Path True [''log''])\<rparr>"

theorem compare_passed_only_if_witness:
  "case compare_test_run sample_logs sample_trr of Inl _ \<Rightarrow> False
   | Inr t \<Rightarrow> passed t = Some True \<and> (\<exists>log lines v. rtl_log sample_trr = Some log \<and>
       lf_log sample_logs log = Inr lines \<and> check_ibex_uvm_log lines = Inr v)"
proof -
  have "process_ibex_sim_log (Some [''1 5 80 1 nop x'']) True \<noteq> Inl e" for e
  proof -
    have "case process_ibex_sim_log (Some [''1 5 80 1 nop x'']) True of Inl e \<Rightarrow> False | Inr _ \<Rightarrow> True"
      by code_simp
    then show ?thesis by (auto split: sum.splits)
  qed
  moreover have "check_ibex_uvm_log [''RISC-V UVM TEST PASSED''] = Inr (True, [], NONE)" by code_simp
  ultimately have "case compare_test_run sample_logs sample_trr of Inl _ \<Rightarrow> False | Inr t \<Rightarrow> passed t = Some True"
    by (auto simp: compare_test_run_def sample_logs_def sample_trr_def empty_trr_def trace_outcome_def path_name_def
        split: sum.split)
  then obtain t where t: "compare_test_run sample_logs sample_trr = Inr t" "passed t = Some True"
    by (cases "compare_test_run sample_logs sample_trr") auto
  from compare_passed_only_if [OF this] t show ?thesis by auto
qed

end
