(* ===== verification/Report.thy ===== *)
theory Report
  imports Metadata
begin

text \<open>
  \<open>dv/uvm/core_ibex/scripts/collect_results.py\<close> and \<open>report_lib\<close>: collecting the results of the
  runs of a regression and the reports made of them.

  Floating point is not interpreted: the operations used are a record of parameters over a type
  of floats, so that what is proved holds for any of them. Division by zero is checked where
  Python does, on the integers and through \<open>fl_zero\<close>. Writing XML, JSON and HTML belongs to
  libraries; what the code hands them is modelled.
\<close>

record 'f floats =
  fl_ratio :: "int \<Rightarrow> int \<Rightarrow> 'f"
  fl_lit :: "string \<Rightarrow> 'f"
  fl_add :: "'f \<Rightarrow> 'f \<Rightarrow> 'f"
  fl_sub :: "'f \<Rightarrow> 'f \<Rightarrow> 'f"
  fl_mul :: "'f \<Rightarrow> 'f \<Rightarrow> 'f"
  fl_div :: "'f \<Rightarrow> 'f \<Rightarrow> 'f"
  fl_less :: "'f \<Rightarrow> 'f \<Rightarrow> bool"
  fl_trunc :: "'f \<Rightarrow> int"
  fl_round2 :: "'f \<Rightarrow> 'f"
  fl_fixed :: "nat \<Rightarrow> 'f \<Rightarrow> string"

datatype report_error =
    ZeroDivision | ReportType | ReportIndex | ReportKey string | ReportValue | ReportRuntime | ReportOS

subsection \<open>\<open>report_lib/util.py\<close>: colours and the text of one run\<close>

definition css_red_green_gradient :: "'f floats \<Rightarrow> 'f \<Rightarrow> string" where
  "css_red_green_gradient F v =
     (let one = fl_lit F ''1.0''; yellow = fl_lit F ''0.7''; n255 = fl_ratio F 255 1;
          (red, green) = (if fl_less F v yellow then (one, fl_div F v yellow)
                          else (fl_div F (fl_sub F one v) (fl_sub F one yellow), one))
      in ''rgb('' @ int_str (fl_trunc F (fl_mul F red n255)) @ '','' @
         int_str (fl_trunc F (fl_mul F green n255)) @ '',0)'')"

definition text_or_none :: "string option \<Rightarrow> string" where
  "text_or_none s = (case s of None \<Rightarrow> ''None'' | Some t \<Rightarrow> t)"

definition trr_name :: "test_run_result \<Rightarrow> string" where
  "trr_name trr = text_or_none (testname trr) @ ''.'' @ text_or_none (map_option int_str (trr_seed trr))"

text \<open>The four paths shown, relative to the test directory; \<open>relative_to\<close> raises a \<open>ValueError\<close>
  for a path outside it.\<close>

definition shown_path :: "path option \<Rightarrow> path option \<Rightarrow> report_error + string" where
  "shown_path dir p = (case p of
     None \<Rightarrow> Inr ''MISSING''
   | Some q \<Rightarrow> (case dir of
       None \<Rightarrow> Inl ReportType
     | Some d \<Rightarrow> if is_relative_to q d then Inr (path_str (relative_to q d)) else Inl ReportValue))"

definition shown_paths :: "test_run_result \<Rightarrow> report_error + (string, yval) dict" where
  "shown_paths trr =
     res_map (\<lambda>(k, p). res_bind (shown_path (dir_test trr) p) (\<lambda>s. Inr (k, YStr s)))
       [(''binary'', binary trr), (''rtl_log'', rtl_log trr), (''rtl_trace'', rtl_trace trr),
        (''iss_cosim_trace'', iss_cosim_trace trr)]"

text \<open>\<open>readlines()\<close> of a text that ends with a newline, each line stripped of newlines.\<close>

definition text_lines :: "string \<Rightarrow> string list" where
  "text_lines s = (let ls = split_chr newline s in if last ls = [] then butlast ls else ls)"

definition run_passed :: "test_run_result \<Rightarrow> bool" where
  "run_passed trr \<longleftrightarrow> passed trr = Some True"

definition gen_test_run_result_text :: "test_run_result \<Rightarrow> report_error + string" where
  "gen_test_run_result_text trr =
     res_bind (shown_paths trr) (\<lambda>d.
       let name = trr_name trr;
           lines = [name, replicate (length name) CHR ''-''] @ text_lines (pprint_dict d) @
                   [if run_passed trr then [newline] @ ''[PASSED]'' else text_or_none (failure_message trr)]
       in Inr ([newline] @ py_join [newline] lines @ [newline]))"

subsection \<open>Counting\<close>

type_synonym test_summary = "(string option, int \<times> int) dict"

definition count_run :: "test_run_result \<Rightarrow> test_summary \<Rightarrow> test_summary" where
  "count_run trr d =
     (let (p, f) = (case dget d (testname trr) of None \<Rightarrow> (0, 0) | Some c \<Rightarrow> c)
      in dset (testname trr) (if run_passed trr then (p + 1, f) else (p, f + 1)) d)"

definition create_test_summary_dict :: "test_run_result list \<Rightarrow> test_summary" where
  "create_test_summary_dict tests = fold count_run tests []"

subsection \<open>Coverage reports\<close>

datatype 'f metric = Covered int int | Average 'f

type_synonym 'f cov_report = "(string, (string, 'f metric) dict) dict"

text \<open>\<open>str.splitlines\<close> on the line boundaries of the first 256 characters.\<close>

definition is_linebreak :: "char \<Rightarrow> bool" where
  "is_linebreak c \<longleftrightarrow> c \<in> {newline, CHR 0x0B, CHR 0x0C, CHR 0x0D, CHR 0x1C, CHR 0x1D, CHR 0x1E, CHR 0x85}"

definition py_splitlines :: "string \<Rightarrow> string list" where
  "py_splitlines s =
     (let ls = split_p is_linebreak (py_replace [CHR 0x0D, newline] [newline] s)
      in if last ls = [] then butlast ls else ls)"

text \<open>\<open>XLM_TABLE_HEADER_RE\<close>: a word, an optional star, spaces, then \<open>average\<close> or \<open>covered\<close>.\<close>

definition header_at :: "string \<Rightarrow> ((string \<times> string) \<times> string) option" where
  "header_at s =
     (let w = takeWhile is_word s; r = dropWhile is_word s;
          r1 = (if r \<noteq> [] \<and> hd r = CHR ''*'' then tl r else r); r2 = dropWhile is_space r1
      in if w = [] \<or> r2 = r1 then None
         else if starts_with ''average'' r2 then Some ((w, ''average''), drop 7 r2)
         else if starts_with ''covered'' r2 then Some ((w, ''covered''), drop 7 r2) else None)"

lemma header_at_shorter: "header_at s = Some (m, r) \<Longrightarrow> length r < length s"
proof -
  assume h: "header_at s = Some (m, r)"
  let ?r = "dropWhile is_word s"
  let ?r1 = "if ?r \<noteq> [] \<and> hd ?r = CHR ''*'' then tl ?r else ?r"
  have "length ?r < length s" using h
    by (cases s) (auto simp: header_at_def Let_def intro: le_imp_less_Suc length_dropWhile_le split: if_splits)
  moreover have "length (dropWhile is_space ?r1) \<le> length ?r"
    by (rule order_trans [OF length_dropWhile_le]) auto
  moreover have "length r \<le> length (dropWhile is_space ?r1)"
    using h unfolding header_at_def Let_def by (auto split: if_splits)
  ultimately show ?thesis by linarith
qed

function header_matches :: "string \<Rightarrow> (string \<times> string) list" where
  "header_matches s =
     (if s = [] then []
      else case header_at s of Some (m, r) \<Rightarrow> m # header_matches r | None \<Rightarrow> header_matches (tl s))"
  by pat_completeness auto
termination
  by (relation "measure length") (auto dest: header_at_shorter)

declare header_matches.simps [simp del]

text \<open>\<open>XLM_TABLE_COVERAGE_RE\<close>: \<open>(digits/digits\<close> with a closing parenthesis further on.\<close>

definition coverage_at :: "string \<Rightarrow> (string \<times> string) option" where
  "coverage_at s =
     (if s = [] \<or> hd s \<noteq> CHR ''('' then None
      else let a = takeWhile is_digit (tl s); r = dropWhile is_digit (tl s)
        in if a = [] \<or> r = [] \<or> hd r \<noteq> CHR ''/'' then None
           else let b = takeWhile is_digit (tl r); r' = dropWhile is_digit (tl r)
             in if b = [] \<or> CHR '')'' \<notin> set r' then None else Some (a, b))"

text \<open>\<open>XLM_TABLE_AVERAGE_RE\<close>: digits, possibly any one character and digits, then a percent sign.\<close>

definition average_at :: "string \<Rightarrow> string option" where
  "average_at s =
     (let a = takeWhile is_digit s; r = dropWhile is_digit s
      in if a = [] \<or> r = [] then None
         else let b = takeWhile is_digit (tl r); r' = dropWhile is_digit (tl r)
           in if b \<noteq> [] \<and> r' \<noteq> [] \<and> hd r' = CHR ''%'' then Some (a @ hd r # b)
              else if hd r = CHR ''%'' then Some a else None)"

fun search_at :: "(string \<Rightarrow> 'a option) \<Rightarrow> string \<Rightarrow> 'a option" where
  "search_at scan [] = None"
| "search_at scan (c # s) = (case scan (c # s) of Some m \<Rightarrow> Some m | None \<Rightarrow> search_at scan s)"

text \<open>\<open>re.sub(r'%\s+\(', '%(', line)\<close>\<close>

function join_percent :: "string \<Rightarrow> string" where
  "join_percent [] = []"
| "join_percent (c # s) =
     (if c = CHR ''%'' \<and> s \<noteq> [] \<and> is_space (hd s) \<and> starts_with ''('' (dropWhile is_space s)
      then CHR ''%'' # join_percent (dropWhile is_space s) else c # join_percent s)"
  by pat_completeness auto
termination
  by (relation "measure length") (auto intro: le_imp_less_Suc length_dropWhile_le)

text \<open>Of the characters the average may have between its digits, \<open>float\<close> takes these.\<close>

definition float_char :: "char \<Rightarrow> bool" where
  "float_char c \<longleftrightarrow> is_digit c \<or> c \<in> set ''._eE''"

text \<open>The header lines: the metrics they name, and the number of the line after the last one.\<close>

definition header_line :: "nat \<Rightarrow> string \<Rightarrow> int \<times> (string \<times> string) list \<Rightarrow> int \<times> (string \<times> string) list" where
  "header_line n line st =
     (if str_in ''name'' line
      then (int n + 2, snd st @ header_matches (py_join '' '' (tl (py_words (map lower_chr line))))) else st)"

definition cov_cell ::
    "'f floats \<Rightarrow> (string \<times> string) list \<Rightarrow> nat \<Rightarrow> string \<Rightarrow> (string, 'f metric) dict \<Rightarrow>
     report_error + (string, 'f metric) dict" where
  "cov_cell F info i v d =
     (if length info \<le> i then Inl ReportIndex
      else let name = fst (info ! i) @ ''-'' @ snd (info ! i)
        in if snd (info ! i) = ''covered''
           then (case search_at coverage_at v of
                   None \<Rightarrow> Inr d
                 | Some (a, b) \<Rightarrow> Inr (dset name (Covered (int (val_digits 10 a)) (int (val_digits 10 b))) d))
           else (case search_at average_at v of
                   None \<Rightarrow> Inr d
                 | Some a \<Rightarrow> if list_all float_char a
                             then Inr (dset name (Average (fl_lit F a)) d) else Inl ReportValue))"

fun cov_cells ::
    "'f floats \<Rightarrow> (string \<times> string) list \<Rightarrow> nat \<Rightarrow> string list \<Rightarrow> (string, 'f metric) dict \<Rightarrow>
     report_error + (string, 'f metric) dict" where
  "cov_cells F info i [] d = Inr d"
| "cov_cells F info i (v # vs) d = res_bind (cov_cell F info i v d) (cov_cells F info (i + 1) vs)"

definition cov_line ::
    "'f floats \<Rightarrow> (string \<times> string) list \<Rightarrow> 'f cov_report \<Rightarrow> string \<Rightarrow> report_error + 'f cov_report" where
  "cov_line F info rep line =
     (case py_words (join_percent line) of
        [] \<Rightarrow> Inr rep
      | name # vs \<Rightarrow> res_bind (cov_cells F info 0 vs []) (\<lambda>d. Inr (dset name d rep)))"

definition parse_xcelium_cov_report :: "'f floats \<Rightarrow> string \<Rightarrow> report_error + 'f cov_report" where
  "parse_xcelium_cov_report F text =
     (let lines = py_splitlines text;
          (start, info) = fold (\<lambda>(n, l). header_line n l) (zip [0..<length lines] lines) (-1, [])
      in if start = -1 then Inl ReportRuntime
         else res_fold (cov_line F info) [] (drop (nat start) lines))"

subsection \<open>The coverage summary\<close>

type_synonym 'f cov_summary = "(string, 'f option) dict"

definition IBEX_COVERAGE_METRICS :: "string list" where
  "IBEX_COVERAGE_METRICS = [''block'', ''branch'', ''statement'', ''expression'', ''toggle'', ''fsm'', ''assertion'']"

definition COVERGROUP_IGNORE :: "string list" where
  "COVERGROUP_IGNORE = [''push_pull_agent_pkg'']"

definition add_cov_to_summary ::
    "'f floats \<Rightarrow> string \<Rightarrow> (string, 'f metric) dict \<Rightarrow> 'f cov_summary \<Rightarrow> report_error + 'f cov_summary" where
  "add_cov_to_summary F name data summary =
     (case dget data (name @ ''-covered'') of
        None \<Rightarrow> Inr summary
      | Some (Covered c t) \<Rightarrow>
          if t = 0 then Inl ZeroDivision else Inr (dset name (Some (fl_ratio F c t)) summary)
      | Some (Average _) \<Rightarrow> Inl (ReportKey ''covered''))"

definition cg_step ::
    "'f floats \<Rightarrow> 'f \<times> int \<Rightarrow> string \<times> (string, 'f metric) dict \<Rightarrow> report_error + 'f \<times> int" where
  "cg_step F = (\<lambda>(total, n) (module, data).
     if module \<in> set COVERGROUP_IGNORE then Inr (total, n)
     else case dget data ''covergroup-average'' of
            None \<Rightarrow> Inr (total, n)
          | Some (Average a) \<Rightarrow> Inr (fl_add F total a, n + 1)
          | Some (Covered _ _) \<Rightarrow> Inl (ReportKey ''average''))"

definition calc_cg_average :: "'f floats \<Rightarrow> 'f cov_report \<Rightarrow> report_error + 'f option" where
  "calc_cg_average F rep =
     res_bind (res_fold (cg_step F) (fl_ratio F 0 1, 0) rep) (\<lambda>(total, n).
       Inr (if n > 0 then Some (fl_div F (fl_div F total (fl_ratio F 100 1)) (fl_ratio F n 1)) else None))"

text \<open>\<open>None\<close> stands for the \<open>None\<close> of a regression without a coverage report; \<open>read\<close> is opening and
  reading a file.\<close>

definition create_cov_summary_dict ::
    "'f floats \<Rightarrow> (path \<Rightarrow> string option) \<Rightarrow> regression_metadata \<Rightarrow> report_error + 'f cov_summary option" where
  "create_cov_summary_dict F read md =
     (case cov_report_log (phase md) of
        None \<Rightarrow> Inr None
      | Some log \<Rightarrow>
          (let dir = pdiv (parent log) ''report''
           in case (read (pdiv dir ''cov_report.txt''), read (pdiv dir ''cov_report_cg.txt'')) of
                (Some cov_text, Some cg_text) \<Rightarrow>
                  res_bind (parse_xcelium_cov_report F cov_text) (\<lambda>rep.
                  res_bind (parse_xcelium_cov_report F cg_text) (\<lambda>cg.
                  res_bind (case dget rep ''ibex_top'' of
                              None \<Rightarrow> Inr []
                            | Some data \<Rightarrow>
                                res_fold (\<lambda>s m. add_cov_to_summary F m data s) [] IBEX_COVERAGE_METRICS)
                    (\<lambda>summary. res_bind (calc_cg_average F cg) (\<lambda>a.
                      Inr (Some (dset ''covergroup'' a summary))))))
              | _ \<Rightarrow> Inl ReportOS))"

subsection \<open>\<open>report_lib/text.py\<close>\<close>

definition box_comment :: "string \<Rightarrow> string" where
  "box_comment line =
     (let hr = replicate 80 CHR ''#'' in hr @ [newline] @ ''# '' @ line @ [newline] @ hr)"

definition gen_summary_line :: "'f floats \<Rightarrow> nat \<Rightarrow> nat \<Rightarrow> report_error + string" where
  "gen_summary_line F np nf =
     (if np + nf = 0 then Inl ZeroDivision
      else Inr (fl_fixed F 2 (fl_mul F (fl_ratio F (int np) (int (np + nf))) (fl_ratio F 100 1)) @ ''% PASS '' @
                nat_repr 10 np @ '' PASSED, '' @ nat_repr 10 nf @ '' FAILED''))"

definition details :: "string \<Rightarrow> string \<Rightarrow> test_run_result list \<Rightarrow> report_error + string" where
  "details title nothing runs =
     res_bind (res_map gen_test_run_result_text runs) (\<lambda>texts.
       Inr ([newline] @ box_comment title @ [newline] @ (if runs = [] then nothing @ [newline] else []) @
            concat (map (\<lambda>t. t @ [newline]) texts)))"

definition output_results_text ::
    "'f floats \<Rightarrow> test_run_result list \<Rightarrow> test_run_result list \<Rightarrow> (string, string) dict \<Rightarrow> report_error + string" where
  "output_results_text F pass fail summary =
     res_bind (gen_summary_line F (length pass) (length fail)) (\<lambda>line.
     res_bind (details ''Details of failing tests'' ''No failing tests. Nice job!'' fail) (\<lambda>df.
     res_bind (details ''Details of passing tests'' ''No passing tests. Hmmmm...'' pass) (\<lambda>dp.
       Inr (line @ [newline] @ pprint_dict (map (\<lambda>(k, v). (k, YStr v)) summary) @ [newline] @ df @ dp))))"

subsection \<open>\<open>report_lib/junit_xml.py\<close>\<close>

text \<open>A test case has a name, its standard output and the texts \<open>add_failure_info\<close> is called with; a test suite is a
  name and its cases.\<close>

record test_case =
  tc_name :: string
  tc_stdout :: string
  tc_failures :: "string list"

type_synonym test_suite = "string option \<times> test_case list"

type_synonym suite_info = "(string option, test_case list \<times> string \<times> string) dict"

definition junit_run :: "suite_info \<Rightarrow> test_run_result \<Rightarrow> report_error + suite_info" where
  "junit_run info trr =
     (let (cases, out, fails) = (case dget info (testname trr) of None \<Rightarrow> ([], [], []) | Some x \<Rightarrow> x)
      in res_bind (gen_test_run_result_text trr) (\<lambda>t.
           Inr (dset (testname trr)
             (cases @ [\<lparr>tc_name = trr_name trr, tc_stdout = t,
                        tc_failures = (if run_passed trr then [] else [t])\<rparr>],
              out @ t @ [newline], if run_passed trr then fails else fails @ t) info)))"

definition junit_suites :: "test_run_result list \<Rightarrow> report_error + test_suite list \<times> test_suite list" where
  "junit_suites runs =
     res_bind (res_fold junit_run [] runs) (\<lambda>info.
       Inr (map (\<lambda>(name, cases, _, _). (name, cases)) info,
            map (\<lambda>(name, _, out, fails).
              (name, [\<lparr>tc_name = text_or_none name, tc_stdout = out, tc_failures = [fails]\<rparr>])) info))"

subsection \<open>\<open>report_lib/dvsim_json.py\<close>\<close>

datatype 'f json = JStr "string option" | JInt int | JFloat 'f | JList "'f json list" | JObj "(string \<times> 'f json) list"

definition dvsim_test :: "'f floats \<Rightarrow> string option \<times> int \<times> int \<Rightarrow> report_error + 'f json" where
  "dvsim_test F = (\<lambda>(name, p, f).
     if p + f = 0 then Inl ZeroDivision
     else Inr (JObj [(''name'', JStr name), (''max_runtime_s'', JInt 0), (''simulated_time_us'', JInt 0),
            (''passing_runs'', JInt p), (''total_runs'', JInt (p + f)),
            (''pass_rate'', JFloat (fl_round2 F (fl_mul F (fl_ratio F p (p + f)) (fl_ratio F 100 1))))]))"

definition create_dvsim_report_dict ::
    "'f floats \<Rightarrow> string \<Rightarrow> string \<Rightarrow> string \<Rightarrow> test_summary \<Rightarrow> 'f cov_summary option \<Rightarrow> report_error + 'f json" where
  "create_dvsim_report_dict F tool block_name block_variant tests cov_dict =
     res_bind (res_map (dvsim_test F) tests) (\<lambda>infos.
     res_bind (case cov_dict of None \<Rightarrow> Inr []
       | Some d \<Rightarrow> res_map (\<lambda>(k, v). case v of None \<Rightarrow> Inl ReportType
           | Some x \<Rightarrow> Inr (k, JFloat (fl_mul F x (fl_ratio F 100 1)))) d) (\<lambda>cov_json.
       Inr (JObj [(''tool'', JStr (Some (if tool = ''xlm'' then ''xcelium'' else tool))),
                  (''block_name'', JStr (Some block_name)), (''block_variant'', JStr (Some block_variant)),
                  (''results'', JObj [(''coverage'', JObj cov_json), (''testpoints'', JList []),
                                      (''unmapped_tests'', JList infos)])])))"

subsection \<open>\<open>report_lib/html.py\<close>\<close>

definition pct_str :: "'f floats \<Rightarrow> 'f \<Rightarrow> string" where
  "pct_str F v = fl_fixed F 1 (fl_mul F v (fl_ratio F 100 1)) @ ''%''"

definition pct_style :: "'f floats \<Rightarrow> 'f \<Rightarrow> string" where
  "pct_style F v = ''background-color: '' @ css_red_green_gradient F v @ '';''"

text \<open>What the template is rendered with, apart from the arguments it is passed as they are.\<close>

record 'f html_context =
  h_test_summaries :: "(string option \<times> int \<times> int \<times> 'f) list"
  h_passing :: int
  h_total :: int
  h_pass_rate :: 'f

definition html_context :: "'f floats \<Rightarrow> test_summary \<Rightarrow> report_error + 'f html_context" where
  "html_context F tests =
     res_bind (res_map (\<lambda>(name, p, f). if p + f = 0 then Inl ZeroDivision
                          else Inr (name, p, p + f, fl_ratio F p (p + f))) tests) (\<lambda>rows.
       let passing = sum_list (map (\<lambda>(_, p, _). p) tests); total = sum_list (map (\<lambda>(_, p, f). p + f) tests)
       in if total = 0 then Inl ZeroDivision
          else Inr \<lparr>h_test_summaries = rows, h_passing = passing, h_total = total,
                    h_pass_rate = fl_ratio F passing total\<rparr>)"

subsection \<open>\<open>report_lib/svg.py\<close>\<close>

datatype 'f svg_element =
    SvgRect int int int int string
  | SvgText 'f 'f "string list" string
  | SvgG "int option" "'f svg_element list"

definition SVG_HEIGHT :: int where
  "SVG_HEIGHT = 20"

definition SVG_GAP :: int where
  "SVG_GAP = 5"

definition SVG_VALUE_WIDTH :: int where
  "SVG_VALUE_WIDTH = 60"

record dashboard_element =
  de_name :: string
  de_value :: string
  de_name_width :: int
  de_value_colour :: string
  de_value_width :: int
  de_height :: int

definition DashboardElement :: "string \<Rightarrow> string \<Rightarrow> int \<Rightarrow> string \<Rightarrow> dashboard_element" where
  "DashboardElement name v name_width colour =
     \<lparr>de_name = name, de_value = v, de_name_width = name_width, de_value_colour = colour,
      de_value_width = SVG_VALUE_WIDTH, de_height = SVG_HEIGHT\<rparr>"

definition box_elements :: "'f floats \<Rightarrow> int \<Rightarrow> int \<Rightarrow> string \<Rightarrow> string \<Rightarrow> string \<Rightarrow> 'f svg_element list" where
  "box_elements F w h colour cls txt =
     [SvgRect 0 0 w h colour, SvgText (fl_ratio F w 2) (fl_ratio F h 2) [''text'', cls] txt]"

definition de_svg :: "'f floats \<Rightarrow> dashboard_element \<Rightarrow> 'f svg_element list" where
  "de_svg F e =
     [SvgG None (box_elements F (de_name_width e) (de_height e) ''#666'' ''name'' (de_name e)),
      SvgG (Some (de_name_width e))
        (box_elements F (de_value_width e) (de_height e) (de_value_colour e) ''value'' (de_value e))]"

definition de_width :: "dashboard_element \<Rightarrow> int" where
  "de_width e = de_name_width e + de_value_width e"

fun dashboard_svg :: "'f floats \<Rightarrow> int \<Rightarrow> int \<Rightarrow> dashboard_element list \<Rightarrow> 'f svg_element list" where
  "dashboard_svg F gap x [] = []"
| "dashboard_svg F gap x (e # es) =
     SvgG (Some x) (de_svg F e) # dashboard_svg F gap (x + de_width e + gap) es"

definition dashboard_width :: "int \<Rightarrow> dashboard_element list \<Rightarrow> int" where
  "dashboard_width gap es = fold (\<lambda>e acc. acc + de_width e + gap) es 0 - gap"

definition cov_value :: "'f cov_summary \<Rightarrow> string \<Rightarrow> report_error + 'f" where
  "cov_value d k = (case dget d k of None \<Rightarrow> Inl (ReportKey k) | Some None \<Rightarrow> Inl ReportType | Some (Some x) \<Rightarrow> Inr x)"

definition svg_coverage :: "'f floats \<Rightarrow> 'f cov_summary option \<Rightarrow> report_error + dashboard_element list" where
  "svg_coverage F cov_dict = (case cov_dict of
     None \<Rightarrow> Inr []
   | Some [] \<Rightarrow> Inr []
   | Some d \<Rightarrow>
       res_bind (res_map (cov_value d) [''block'', ''branch'', ''statement'', ''expression'', ''fsm'']) (\<lambda>vs.
       let code = fl_div F (fold (\<lambda>v acc. fl_add F acc v) vs (fl_ratio F 0 1)) (fl_ratio F 5 1)
       in res_bind (cov_value d ''covergroup'') (\<lambda>cg.
            Inr [DashboardElement ''Functional Coverage'' (pct_str F cg) 150 (css_red_green_gradient F cg),
                 DashboardElement ''Code Coverage'' (pct_str F code) 120 (css_red_green_gradient F code)])))"

text \<open>The width, the height and the elements of the picture, its style sheet left out.\<close>

definition output_results_svg ::
    "'f floats \<Rightarrow> test_summary \<Rightarrow> 'f cov_summary option \<Rightarrow> report_error + int \<times> int \<times> 'f svg_element list" where
  "output_results_svg F tests cov_dict =
     (let passing = sum_list (map (\<lambda>(_, p, _). p) tests); failing = sum_list (map (\<lambda>(_, _, f). f) tests);
          total = passing + failing
      in if total = 0 then Inl ZeroDivision
         else let pct = fl_ratio F passing total
           in res_bind (svg_coverage F cov_dict) (\<lambda>extra.
                let es = [DashboardElement ''Total Tests'' (int_str total) 120 ''#6cf'',
                          DashboardElement ''Tests Passing'' (pct_str F pct) 120 (css_red_green_gradient F pct)] @ extra
                in Inr (dashboard_width SVG_GAP es, SVG_HEIGHT, dashboard_svg F SVG_GAP 0 es)))"

subsection \<open>\<open>collect_results.py\<close>\<close>

text \<open>Reading the pickle of a run: it may raise a \<open>RuntimeError\<close>, which the code catches, or
  something else, which it does not.\<close>

datatype pickle_read = PickleRun test_run_result | PickleRuntime string | PickleOther

definition verdict_text :: "test_run_result \<Rightarrow> string" where
  "verdict_text trr =
     (if run_passed trr then ''PASS''
      else ''FAILED'' @ (if failure_mode trr = Some TIMEOUT then '' {T}'' else []))"

text \<open>The handler of a \<open>RuntimeError\<close> constructs \<open>TestRunResult(name=...)\<close>, but the class has no
  field of that name: a \<open>TypeError\<close>.\<close>

definition collect_step ::
    "(path \<Rightarrow> pickle_read) \<Rightarrow> (string, string) dict \<times> test_run_result list \<times> test_run_result list \<Rightarrow> path \<Rightarrow>
     report_error + (string, string) dict \<times> test_run_result list \<times> test_run_result list" where
  "collect_step read = (\<lambda>(summary, pass, fail) f.
     (case read f of
        PickleRun trr \<Rightarrow>
          Inr (dset (trr_name trr) (verdict_text trr) summary,
               if run_passed trr then pass @ [trr] else pass, if run_passed trr then fail else fail @ [trr])
      | PickleRuntime m \<Rightarrow> Inl ReportType
      | PickleOther \<Rightarrow> Inl ReportOS))"

record 'f report_files =
  rp_junit :: "test_suite list"
  rp_junit_merged :: "test_suite list"
  rp_text :: string
  rp_html :: "'f html_context"
  rp_json :: "'f json"
  rp_svg :: "(int \<times> int \<times> 'f svg_element list) option"
  rp_line :: string
  rp_md :: regression_metadata

text \<open>The metadata keeps the names of the three log files. \<open>has_svg\<close> tells whether the svg module
  was found.\<close>

definition set_regr_logs :: "regression_metadata \<Rightarrow> regression_metadata" where
  "set_regr_logs md =
     (let d = dir_run (dirs md)
      in md\<lparr>phase := (phase md)\<lparr>regr_log := Some (pdiv d ''regr.log''),
                                 regr_log_junit := Some (pdiv d ''regr_junit.xml''),
                                 regr_log_junit_merged := Some (pdiv d ''regr_junit_merged.xml'')\<rparr>\<rparr>)"

definition collect_results ::
    "'f floats \<Rightarrow> (path \<Rightarrow> pickle_read) \<Rightarrow> (path \<Rightarrow> string option) \<Rightarrow> bool \<Rightarrow> regression_metadata \<Rightarrow>
     report_error + 'f report_files \<times> int" where
  "collect_results F read open_text has_svg md =
     res_bind (res_fold (collect_step read) ([], [], []) (tests_pickle_files md)) (\<lambda>(summary, pass, fail).
     res_bind (junit_suites (pass @ fail)) (\<lambda>(suites, merged).
     res_bind (output_results_text F pass fail summary) (\<lambda>txt.
       let tests = create_test_summary_dict (pass @ fail)
       in res_bind (if simulator md = ''xlm'' then create_cov_summary_dict F open_text md else Inr (Some [])) (\<lambda>covs.
          res_bind (html_context F tests) (\<lambda>html.
          res_bind (create_dvsim_report_dict F (simulator md) ''ibex'' ''opentitan'' tests covs) (\<lambda>js.
          res_bind (if has_svg then res_bind (output_results_svg F tests covs) (\<lambda>x. Inr (Some x)) else Inr None) (\<lambda>sv.
          res_bind (gen_summary_line F (length pass) (length fail)) (\<lambda>line.
            Inr (\<lparr>rp_junit = suites, rp_junit_merged = merged, rp_text = txt, rp_html = html, rp_json = js,
                  rp_svg = sv, rp_line = line, rp_md = set_regr_logs md\<rparr>,
                 if fail = [] then 0 else 1)))))))))"

subsection \<open>Lemmas\<close>

definition runs_of :: "string option \<Rightarrow> bool \<Rightarrow> test_run_result list \<Rightarrow> int" where
  "runs_of name ok ts = int (length (filter (\<lambda>t. testname t = name \<and> run_passed t = ok) ts))"

lemma runs_of_simps [simp]:
  "runs_of n ok [] = 0"
  "runs_of n ok (t # ts) = (if testname t = n \<and> run_passed t = ok then 1 else 0) + runs_of n ok ts"
  by (simp_all add: runs_of_def)

definition counts_or_zero :: "test_summary \<Rightarrow> string option \<Rightarrow> int \<times> int" where
  "counts_or_zero d n = (case dget d n of None \<Rightarrow> (0, 0) | Some c \<Rightarrow> c)"

lemma dget_count_run:
  "dget (count_run t d) n =
     (if testname t = n
      then Some (fst (counts_or_zero d n) + (if run_passed t then 1 else 0),
                 snd (counts_or_zero d n) + (if run_passed t then 0 else 1))
      else dget d n)"
  by (auto simp: count_run_def counts_or_zero_def Let_def split: option.splits prod.splits)

lemma fold_count_run:
  "dget (fold count_run ts d) n =
     (if \<exists>t\<in>set ts. testname t = n
      then Some (fst (counts_or_zero d n) + runs_of n True ts, snd (counts_or_zero d n) + runs_of n False ts)
      else dget d n)"
proof (induction ts arbitrary: d)
  case (Cons t ts)
  have zero: "\<not> (\<exists>t\<in>set ts. testname t = n) \<Longrightarrow> runs_of n ok ts = 0" for ok
    by (induction ts) auto
  have c: "counts_or_zero (count_run t d) n =
      (if testname t = n
       then (fst (counts_or_zero d n) + (if run_passed t then 1 else 0),
             snd (counts_or_zero d n) + (if run_passed t then 0 else 1))
       else counts_or_zero d n)"
    by (simp add: counts_or_zero_def [of "count_run t d"] dget_count_run) (simp add: counts_or_zero_def)
  show ?case
    by (cases "testname t = n"; cases "\<exists>t\<in>set ts. testname t = n")
      (auto simp: Cons.IH c dget_count_run zero)
qed simp

lemma count_run_keys: "distinct (dkeys d) \<Longrightarrow> distinct (dkeys (fold count_run ts d))"
proof (induction ts arbitrary: d)
  case (Cons t ts)
  have "distinct (dkeys (count_run t d))"
    using Cons.prems by (auto simp: count_run_def Let_def distinct_update split: option.splits)
  then show ?case using Cons.IH by simp
qed simp

lemma collect_steps:
  assumes "res_fold (collect_step read) (summary, pass, fail) fs = Inr (summary', pass', fail')"
  shows "\<exists>runs. map read fs = map PickleRun runs \<and> pass' = pass @ filter run_passed runs \<and>
    fail' = fail @ filter (\<lambda>t. \<not> run_passed t) runs"
  using assms
proof (induction fs arbitrary: summary pass fail)
  case (Cons f fs)
  from Cons.prems obtain t s1 p1 f1 where t: "read f = PickleRun t"
    and s1: "collect_step read (summary, pass, fail) f = Inr (s1, p1, f1)"
    and rest: "res_fold (collect_step read) (s1, p1, f1) fs = Inr (summary', pass', fail')"
    by (auto simp: collect_step_def res_simps split: pickle_read.splits)
  from Cons.IH [OF rest] obtain runs where
    "map read fs = map PickleRun runs" "pass' = p1 @ filter run_passed runs"
    "fail' = f1 @ filter (\<lambda>t. \<not> run_passed t) runs" by blast
  with t s1 show ?case by (intro exI [of _ "t # runs"]) (auto simp: collect_step_def split: if_splits)
qed simp

text \<open>What is known when collecting ends.\<close>

lemma collect_ends:
  assumes "collect_results F read open_text has_svg md = Inr (files, c)"
  obtains runs where "map read (tests_pickle_files md) = map PickleRun runs" "tests_pickle_files md \<noteq> []"
    "c = (if \<forall>t\<in>set runs. run_passed t then 0 else 1)"
proof -
  from assms obtain summary pass fail where
    r: "res_fold (collect_step read) ([], [], []) (tests_pickle_files md) = Inr (summary, pass, fail)"
    and n: "\<exists>txt. output_results_text F pass fail summary = Inr txt"
    and e: "c = (if fail = [] then 0 else 1)"
    by (auto simp: collect_results_def res_simps Let_def)
  from collect_steps [OF r] obtain runs where runs: "map read (tests_pickle_files md) = map PickleRun runs"
    "pass = filter run_passed runs" "fail = filter (\<lambda>t. \<not> run_passed t) runs" by auto
  from n have "pass \<noteq> [] \<or> fail \<noteq> []"
    by (auto simp: output_results_text_def gen_summary_line_def res_simps split: if_splits)
  with runs have "tests_pickle_files md \<noteq> []" by auto
  moreover have "fail = [] \<longleftrightarrow> (\<forall>t\<in>set runs. run_passed t)"
    unfolding runs(3) by (auto simp: filter_empty_conv)
  ultimately show ?thesis using that runs(1) e by auto
qed

text \<open>The elements of the dashboard lie side by side, each \<open>gap\<close> after the one before, and the
  width of the picture ends with the last.\<close>

lemma dashboard_last:
  "es \<noteq> [] \<Longrightarrow> \<exists>y. last (dashboard_svg F gap x es) = SvgG (Some y) (de_svg F (last es)) \<and>
     y + de_width (last es) = x + dashboard_width gap es"
proof (induction es arbitrary: x)
  case (Cons e es)
  have acc: "fold (\<lambda>e acc. acc + de_width e + gap) es a = a + fold (\<lambda>e acc. acc + de_width e + gap) es 0"
    for a by (induction es arbitrary: a) (simp, metis (no_types, lifting) add.assoc add.commute add_0 fold_simps(2))
  show ?case
  proof (cases es)
    case Nil
    then show ?thesis by (simp add: dashboard_width_def)
  next
    case (Cons e' es')
    with Cons.IH [of "x + de_width e + gap"] obtain y where
      "last (dashboard_svg F gap (x + de_width e + gap) es) = SvgG (Some y) (de_svg F (last es))"
      "y + de_width (last es) = x + de_width e + gap + dashboard_width gap es" by auto
    then show ?thesis using Cons acc [of "de_width e + gap"]
      by (intro exI [of _ y]) (auto simp: dashboard_width_def)
  qed
qed simp

subsection \<open>Properties\<close>

text \<open>The summary of the runs has one entry per test name, which counts exactly the passing and
  the failing runs of that name.\<close>

theorem test_summary_counts:
  "distinct (dkeys (create_test_summary_dict ts)) \<and>
   dget (create_test_summary_dict ts) n =
     (if n \<in> testname ` set ts then Some (runs_of n True ts, runs_of n False ts) else None)"
  by (auto simp: create_test_summary_dict_def count_run_keys fold_count_run counts_or_zero_def)

text \<open>C26: Collecting the results of a regression. If it ends, then there is at least one run, every
  run could be read, and the exit code is 0 exactly if all of them passed. Without a run it does
  not end well: the percentage of the summary line divides by zero.\<close>

theorem collect_exit_code:
  assumes "collect_results F read open_text has_svg md = Inr (files, exit_code)"
  shows "tests_pickle_files md \<noteq> [] \<and>
    (\<exists>runs. map read (tests_pickle_files md) = map PickleRun runs \<and>
       (exit_code = 0 \<longleftrightarrow> (\<forall>t\<in>set runs. passed t = Some True)) \<and> (exit_code = 0 \<or> exit_code = 1))"
  using assms by (rule collect_ends) (auto simp: run_passed_def)

lemma collect_without_runs:
  "tests_pickle_files md = [] \<Longrightarrow> collect_results F read open_text has_svg md = Inl ZeroDivision"
  by (simp add: collect_results_def junit_suites_def output_results_text_def gen_summary_line_def)

end
