(* ===== verification/Report_Exact.thy ===== *)
theory Report_Exact
  imports Report Complex_Main
begin

text \<open>
  The reports over exact arithmetic: the rational numbers as an instance of the float operations,
  the colours of a rate, and a regression whose results are collected.
\<close>

subsection \<open>Exact arithmetic\<close>

text \<open>Rational numbers as floats: exact where IEEE arithmetic rounds.\<close>

definition rat_lit :: "string \<Rightarrow> rat" where
  "rat_lit s = (case split_once CHR ''.'' s of
     None \<Rightarrow> of_nat (val_digits 10 s)
   | Some (a, b) \<Rightarrow> of_nat (val_digits 10 (a @ b)) / 10 ^ length b)"

definition rat_round :: "nat \<Rightarrow> rat \<Rightarrow> int" where
  "rat_round k x = \<lfloor>x * 10 ^ k + 1 / 2\<rfloor>"

definition rat_fixed :: "nat \<Rightarrow> rat \<Rightarrow> string" where
  "rat_fixed k x =
     (let n = rat_round k x; a = nat \<bar>n\<bar>; fracs = nat_repr 10 (a mod 10 ^ k)
      in (if n < 0 then ''-'' else []) @ nat_repr 10 (a div 10 ^ k) @
         (if k = 0 then [] else ''.'' @ replicate (k - length fracs) CHR ''0'' @ fracs))"

definition rat_floats :: "rat floats" where
  "rat_floats =
     \<lparr>fl_ratio = (\<lambda>a b. of_int a / of_int b), fl_lit = rat_lit, fl_add = (+), fl_sub = (-), fl_mul = (*),
      fl_div = (/), fl_less = (<), fl_trunc = (\<lambda>x. if x < 0 then \<lceil>x\<rceil> else \<lfloor>x\<rfloor>),
      fl_round2 = (\<lambda>x. of_int (rat_round 2 x) / 100), fl_fixed = rat_fixed\<rparr>"

text \<open>For a rate between 0 and 1 the colour is one: both channels are between 0 and 255.\<close>

lemma css_channels:
  assumes "0 \<le> v" "v \<le> 1"
  shows "\<exists>r g. css_red_green_gradient rat_floats v = ''rgb('' @ int_str r @ '','' @ int_str g @ '',0)'' \<and>
    0 \<le> r \<and> r \<le> 255 \<and> 0 \<le> g \<and> g \<le> 255"
proof -
  have lits: "rat_lit ''1.0'' = 1" "rat_lit ''0.7'' = 7 / 10"
    by (simp_all add: rat_lit_def split_once_def val_digits_def digit_val_def is_digit_def)
  let ?r = "if v < 7 / 10 then 1 else (1 - v) / (1 - 7 / 10) :: rat"
  let ?g = "if v < 7 / 10 then v / (7 / 10) else 1 :: rat"
  have "css_red_green_gradient rat_floats v = ''rgb('' @ int_str \<lfloor>?r * 255\<rfloor> @ '','' @ int_str \<lfloor>?g * 255\<rfloor> @ '',0)''"
    using assms by (simp add: css_red_green_gradient_def rat_floats_def lits Let_def)
  moreover have "0 \<le> ?r * 255" "?r * 255 \<le> 255" "0 \<le> ?g * 255" "?g * 255 \<le> 255"
    using assms by (auto simp: field_simps)
  then have "0 \<le> \<lfloor>?r * 255\<rfloor> \<and> \<lfloor>?r * 255\<rfloor> \<le> 255 \<and> 0 \<le> \<lfloor>?g * 255\<rfloor> \<and> \<lfloor>?g * 255\<rfloor> \<le> 255"
    by (simp add: floor_le_iff)
  ultimately show ?thesis by blast
qed

definition sample_run :: "bool \<Rightarrow> test_run_result" where
  "sample_run ok = empty_trr\<lparr>testname := Some ''add'', trr_seed := Some 1, passed := Some ok\<rparr>"

theorem collect_exit_code_witness:
  "case collect_results rat_floats (\<lambda>p. PickleRun (sample_run True)) (\<lambda>_. None) False
       ((sample_md ''all'')\<lparr>tests_pickle_files := [Path True [''m'']], simulator := ''vcs''\<rparr>)
   of Inl e \<Rightarrow> False | Inr (files, c) \<Rightarrow> c = 0"
proof -
  let ?md = "(sample_md ''all'')\<lparr>tests_pickle_files := [Path True [''m'']], simulator := ''vcs''\<rparr>"
  let ?read = "\<lambda>p. PickleRun (sample_run True)"
  have "\<exists>files c. collect_results rat_floats ?read (\<lambda>_. None) False ?md = Inr (files, c)"
    by (simp add: collect_results_def collect_step_def sample_md_def sample_run_def empty_trr_def run_passed_def
        junit_suites_def junit_run_def gen_test_run_result_text_def shown_paths_def shown_path_def Let_def
        output_results_text_def gen_summary_line_def details_def create_test_summary_dict_def count_run_def
        html_context_def create_dvsim_report_dict_def dvsim_test_def)
  then obtain files c where r: "collect_results rat_floats ?read (\<lambda>_. None) False ?md = Inr (files, c)"
    by blast
  from collect_exit_code [OF r] obtain runs where runs:
    "map ?read (tests_pickle_files ?md) = map PickleRun runs"
    "c = 0 \<longleftrightarrow> (\<forall>t\<in>set runs. passed t = Some True)" by blast
  from runs(1) have "runs = [sample_run True]" by (cases runs) auto
  with runs(2) r show ?thesis by (simp add: sample_run_def)
qed

end
