(* ===== verification/Tool_Requirements.thy ===== *)
theory Tool_Requirements
  imports Py_Val Shlex "HOL-Library.List_Lexorder"
begin

text \<open>
  \<open>util/check_tool_requirements.py\<close> and the requirements it reads, \<open>tool_requirements.py\<close>: does an
  installed tool report a version that is recent enough?

  \<open>packaging.version.Version\<close> is a parameter: \<open>parse\<close>, which may reject a string, and the order
  \<open>older\<close>. The locale \<open>version_order\<close> holds what its documentation (PEP 440) says of plain release
  numbers: dotted numbers are versions, compared number by number, missing ones being 0. Running a
  tool and the installed Python modules are parameters as well. What is only logged is left out.
\<close>

subsection \<open>Release numbers\<close>

fun release_less :: "nat list \<Rightarrow> nat list \<Rightarrow> bool" where
  "release_less [] ys = list_ex (\<lambda>y. y \<noteq> 0) ys"
| "release_less (x # xs) [] = False"
| "release_less (x # xs) (y # ys) = (x < y \<or> x = y \<and> release_less xs ys)"

definition digits :: "string \<Rightarrow> bool" where
  "digits w \<longleftrightarrow> w \<noteq> [] \<and> list_all is_digit w"

definition dotted :: "string list \<Rightarrow> string" where
  "dotted ws = py_join ''.'' ws"

locale version_order =
  fixes parse :: "string \<Rightarrow> 'v option"
    and older :: "'v \<Rightarrow> 'v \<Rightarrow> bool"
  assumes parse_dotted: "ws \<noteq> [] \<Longrightarrow> list_all digits ws \<Longrightarrow> parse (dotted ws) \<noteq> None"
    and less_dotted: "ws \<noteq> [] \<Longrightarrow> list_all digits ws \<Longrightarrow> us \<noteq> [] \<Longrightarrow> list_all digits us \<Longrightarrow>
      parse (dotted ws) = Some v \<Longrightarrow> parse (dotted us) = Some u \<Longrightarrow>
      older v u \<longleftrightarrow> release_less (map (val_digits 10) ws) (map (val_digits 10) us)"

subsection \<open>Requirements\<close>

datatype tool_class = PlainTool | VerilatorTool | VeribleTool | VcsTool | PyModuleTool

record tool_req =
  rq_class :: tool_class
  rq_tool :: string
  rq_min_version :: string
  rq_as_needed :: bool

definition class_of :: "string \<Rightarrow> tool_class" where
  "class_of tool =
     (if tool = ''edalize'' then PyModuleTool else if tool = ''vcs'' then VcsTool
      else if tool = ''verible'' then VeribleTool else if tool = ''verilator'' then VerilatorTool
      else PlainTool)"

definition get_tool_cmd :: "tool_req \<Rightarrow> string list" where
  "get_tool_cmd r = (case rq_class r of
     VeribleTool \<Rightarrow> [''verible-verilog-lint'', ''--version'']
   | VcsTool \<Rightarrow> [''vcs'', ''-full64'', ''-ID'']
   | _ \<Rightarrow> [rq_tool r, ''--version''])"

definition tool_env :: "tool_req \<Rightarrow> (string, string) dict" where
  "tool_env r = (if rq_class r = VcsTool then [(''VCS_ARCH_OVERRIDE'', ''linux'')] else [])"

subsection \<open>The installed version\<close>

text \<open>\<open>r'Compiler version = VCS [A-Z]-(.*)'\<close>, matched at the start of a line without trailing
  spaces.\<close>

definition vcs_version_line :: "string \<Rightarrow> string option" where
  "vcs_version_line line =
     (let p = ''Compiler version = VCS ''; l = rstrip_p is_space line; r = drop (length p) l
      in if starts_with p l \<and> 2 \<le> length r \<and> is_upper (hd r) \<and> r ! 1 = CHR ''-'' then Some (drop 2 r) else None)"

text \<open>\<open>None\<close> is a \<open>ValueError\<close>.\<close>

definition parse_version_output :: "tool_req \<Rightarrow> string \<Rightarrow> string option" where
  "parse_version_output r out =
     (if rq_class r = VcsTool
      then (case filter (\<lambda>l. vcs_version_line l \<noteq> None) (split_chr newline out) of
              [] \<Rightarrow> None | l # _ \<Rightarrow> vcs_version_line l)
      else (case py_words (hd (split_chr newline out)) of [] \<Rightarrow> None | ws \<Rightarrow> Some (last ws)))"

text \<open>How a subprocess ends: with its output, or with an error of \<open>subprocess.run\<close> that is caught.\<close>

datatype proc_end = ProcOut string | ProcError string

record tool_host =
  th_run :: "string list \<Rightarrow> (string, string) dict \<Rightarrow> proc_end"
  th_shell :: "string \<Rightarrow> proc_end"
  th_module :: "string \<Rightarrow> string option"

text \<open>What escapes the script: Verilator's output without a space, a module that is not installed.\<close>

datatype tool_escape = EscIndexError | EscPackageNotFound string

text \<open>Inside, \<open>Inl\<close> is a \<open>RuntimeError\<close> with its message.\<close>

definition run_version :: "tool_host \<Rightarrow> tool_req \<Rightarrow> string + string" where
  "run_version host r =
     (let cmd_txt = repr_str (py_join '' '' (map shlex_quote (get_tool_cmd r))) in
      case th_run host (get_tool_cmd r) (tool_env r) of
        ProcError err \<Rightarrow> Inl (''Failed to run '' @ cmd_txt @
          (if tool_env r = [] then []
           else '' (with environment overrides: '' @ py_join '', '' (map (\<lambda>(k, v). k @ ''='' @ v) (tool_env r)) @ '')'') @
          '' to check version: '' @ err)
      | ProcOut [] \<Rightarrow> Inl (''No output from running '' @ cmd_txt @ '' to check version.'')
      | ProcOut out \<Rightarrow> (case parse_version_output r out of
            Some v \<Rightarrow> Inr v
          | None \<Rightarrow> Inl (''Bad output from running '' @ cmd_txt @ '' to check version: '' @
              (if rq_class r = VcsTool then ''No line matched version regex.'' else ''Empty first line.''))))"

definition get_version :: "tool_host \<Rightarrow> tool_req \<Rightarrow> tool_escape + (string + string)" where
  "get_version host r = (case rq_class r of
     VerilatorTool \<Rightarrow>
       (case th_shell host ''verilator --version'' of
          ProcError err \<Rightarrow> Inr (Inl (''Unable to call Verilator to check version: '' @ err))
        | ProcOut out \<Rightarrow> (case split_chr CHR '' '' out of
              a # b # _ \<Rightarrow> Inr (Inr (py_strip b)) | _ \<Rightarrow> Inl EscIndexError))
   | PyModuleTool \<Rightarrow>
       (case th_module host (rq_tool r) of
          None \<Rightarrow> Inl (EscPackageNotFound (rq_tool r)) | Some v \<Rightarrow> Inr (Inr v))
   | _ \<Rightarrow> Inr (run_version host r))"

subsection \<open>Semantic versions\<close>

text \<open>The hash suffix of Verible is dropped: \<open>v([0-9]+)\.([0-9]+)-([0-9]+)-g[0-9a-f]+\<close>.\<close>

definition verible_semver :: "string \<Rightarrow> string option" where
  "verible_semver s =
     (let a = takeWhile is_digit (tl s); r1 = dropWhile is_digit (tl s);
          b = takeWhile is_digit (tl r1); r2 = dropWhile is_digit (tl r1);
          c = takeWhile is_digit (tl r2); r3 = dropWhile is_digit (tl r2)
      in if starts_with ''v'' s \<and> a \<noteq> [] \<and> starts_with ''.'' r1 \<and> b \<noteq> [] \<and> starts_with ''-'' r2 \<and> c \<noteq> [] \<and>
            starts_with ''-g'' r3 \<and> drop 2 r3 \<noteq> [] \<and> list_all is_hex (drop 2 r3)
         then Some (dotted [a, b, c]) else None)"

text \<open>The optional groups of \<open>([0-9]+).([0-9]+)(?:-SP([0-9]+))?(?:-([0-9]+))?\<close> with what is left.\<close>

definition opt_group :: "string \<Rightarrow> string \<Rightarrow> string \<times> string" where
  "opt_group pre s =
     (let d = takeWhile is_digit (drop (length pre) s)
      in if starts_with pre s \<and> d \<noteq> [] then (d, dropWhile is_digit (drop (length pre) s)) else ([], s))"

text \<open>One way to match: the first number has \<open>k\<close> digits, one character follows it.\<close>

definition vcs_match_at :: "bool \<Rightarrow> string \<Rightarrow> nat \<Rightarrow> (string \<times> string \<times> string \<times> string) option" where
  "vcs_match_at from_req s k =
     (let r = drop k s; minor = takeWhile is_digit (tl r);
          (sp, r1) = opt_group ''-SP'' (dropWhile is_digit (tl r)); (patch, r2) = opt_group ''-'' r1
      in if r \<noteq> [] \<and> hd r \<noteq> newline \<and> minor \<noteq> [] \<and> (from_req \<longrightarrow> r2 = [] \<or> r2 = [newline])
         then Some (take k s, minor, sp, patch) else None)"

text \<open>The search gives the first number as many digits as it can.\<close>

definition vcs_match :: "bool \<Rightarrow> string \<Rightarrow> (string \<times> string \<times> string \<times> string) option" where
  "vcs_match from_req s =
     (case filter (\<lambda>k. vcs_match_at from_req s k \<noteq> None) (rev [1..<length (takeWhile is_digit s) + 1]) of
        [] \<Rightarrow> None | k # _ \<Rightarrow> vcs_match_at from_req s k)"

definition vcs_semver :: "bool \<Rightarrow> string \<Rightarrow> string option" where
  "vcs_semver from_req s =
     map_option (\<lambda>(major, minor, sp, patch).
         major @ ''.'' @ minor @ nat_repr 10 (val_digits 10 sp * 100 + val_digits 10 patch)) (vcs_match from_req s)"

text \<open>\<open>to_semver\<close>: the message of a \<open>ValueError\<close>, or the version.\<close>

definition to_semver :: "tool_req \<Rightarrow> string \<Rightarrow> bool \<Rightarrow> string + string" where
  "to_semver r version from_req = (case rq_class r of
     VeribleTool \<Rightarrow> (case verible_semver version of
         Some v \<Rightarrow> Inr v | None \<Rightarrow> Inl (version @ '' has invalid version string format.''))
   | VcsTool \<Rightarrow> (case vcs_semver from_req version of
         Some v \<Rightarrow> Inr v | None \<Rightarrow> Inl (repr_str version @ '' is not a recognised VCS version string.''))
   | _ \<Rightarrow> Inr version)"

subsection \<open>Checking a tool\<close>

text \<open>The result of \<open>check\<close>: is it good, with a message. \<open>bad v\<close> is the text of the library's error for
  a string it does not take for a version.\<close>

definition check ::
    "(string \<Rightarrow> 'v option) \<Rightarrow> ('v \<Rightarrow> 'v \<Rightarrow> bool) \<Rightarrow> (string \<Rightarrow> string) \<Rightarrow> tool_host \<Rightarrow> tool_req \<Rightarrow>
     tool_escape + bool \<times> string" where
  "check parse older bad host r =
     (case to_semver r (rq_min_version r) True of
        Inl err \<Rightarrow> Inr (False, ''Failed to convert requirement to semantic version: '' @ err)
      | Inr min_semver \<Rightarrow> (case parse min_semver of
          None \<Rightarrow> Inr (False, ''Bad semver inferred from required version ('' @ min_semver @ ''): '' @ bad min_semver)
        | Some min_sv \<Rightarrow> (case get_version host r of
            Inl esc \<Rightarrow> Inl esc
          | Inr (Inl err) \<Rightarrow> Inr (False, err)
          | Inr (Inr actual) \<Rightarrow> (case to_semver r actual False of
              Inl err \<Rightarrow> Inr (False, ''Failed to convert installed to semantic version: '' @ err)
            | Inr semver \<Rightarrow> (case parse semver of
                None \<Rightarrow> Inr (False, ''Bad semver inferred from installed version ('' @ semver @ ''): '' @ bad semver)
              | Some sv \<Rightarrow>
                  if older sv min_sv
                  then Inr (False, ''Installed version is too old: found version '' @ actual @
                              '', but need at least '' @ rq_min_version r)
                  else Inr (True, ''Sufficiently recent version (found '' @ actual @ ''; needed '' @
                              rq_min_version r @ '')''))))))"

subsection \<open>Reading the requirements\<close>

datatype req_error =
    MissingKey string | VersionNotString string | AsNeededNotBool string | UnexpectedKeys string "string list"
  | NoRequirements | RequirementsNotDict | InvalidKey yval | InvalidValue string

definition dict_to_tool_req :: "string \<Rightarrow> (string, yval) dict \<Rightarrow> req_error + tool_req" where
  "dict_to_tool_req tool raw =
     (case dget raw ''min_version'' of
        None \<Rightarrow> Inl (MissingKey tool)
      | Some v \<Rightarrow> (case v of
          YStr min_version \<Rightarrow>
            res_bind (case dget raw ''as_needed'' of
                None \<Rightarrow> Inr False | Some (YBool b) \<Rightarrow> Inr b | Some _ \<Rightarrow> Inl (AsNeededNotBool tool)) (\<lambda>as_needed.
              let rest = filter (\<lambda>k. k \<noteq> ''min_version'' \<and> k \<noteq> ''as_needed'') (dkeys raw)
              in if rest \<noteq> [] then Inl (UnexpectedKeys tool rest)
                 else Inr \<lparr>rq_class = class_of tool, rq_tool = tool, rq_min_version = min_version,
                           rq_as_needed = as_needed\<rparr>)
        | _ \<Rightarrow> Inl (VersionNotString tool)))"

text \<open>What executing the requirements file leaves under \<open>__TOOL_REQUIREMENTS__\<close>.\<close>

datatype req_file = Undefined | NotADict | ReqDict "(yval \<times> yval) list"

definition requirement :: "(string, tool_req) dict \<Rightarrow> yval \<times> yval \<Rightarrow> req_error + (string, tool_req) dict" where
  "requirement reqs = (\<lambda>(key, v). case key of
     YStr tool \<Rightarrow>
       (case (case v of YStr s \<Rightarrow> YDict [(''min_version'', YStr s)] | _ \<Rightarrow> v) of
          YDict d \<Rightarrow> res_bind (dict_to_tool_req tool d) (\<lambda>r. Inr (dset tool r reqs))
        | _ \<Rightarrow> Inl (InvalidValue tool))
   | _ \<Rightarrow> Inl (InvalidKey key))"

definition read_tool_requirements :: "req_file \<Rightarrow> req_error + (string, tool_req) dict" where
  "read_tool_requirements f = (case f of
     Undefined \<Rightarrow> Inl NoRequirements
   | NotADict \<Rightarrow> Inl RequirementsNotDict
   | ReqDict raw \<Rightarrow> res_fold requirement [] raw)"

text \<open>The file of the repository.\<close>

definition TOOL_REQUIREMENTS :: req_file where
  "TOOL_REQUIREMENTS = ReqDict
     [(YStr ''verilator'', YStr ''4.210''),
      (YStr ''edalize'', YStr ''0.2.0''),
      (YStr ''vcs'', YDict [(''min_version'', YStr ''2020.03-SP2''), (''as_needed'', YBool True)]),
      (YStr ''vivado'', YDict [(''min_version'', YStr ''2020.2''), (''as_needed'', YBool True)])]"

subsection \<open>The script\<close>

text \<open>The loop over the requirements: the tools named on the command line that are still pending,
  and the tools that failed.\<close>

definition main_step ::
    "(string \<Rightarrow> 'v option) \<Rightarrow> ('v \<Rightarrow> 'v \<Rightarrow> bool) \<Rightarrow> (string \<Rightarrow> string) \<Rightarrow> tool_host \<Rightarrow> string list \<times> string list \<Rightarrow>
     string \<times> tool_req \<Rightarrow> tool_escape + string list \<times> string list" where
  "main_step parse older bad host = (\<lambda>(pending, missing) (tool, req).
     if rq_as_needed req \<and> tool \<notin> set pending then Inr (pending, missing)
     else res_bind (check parse older bad host req) (\<lambda>(good, msg).
            Inr (filter (\<lambda>t. t \<noteq> tool) pending, if good then missing else missing @ [tool])))"

definition tool_main ::
    "(string \<Rightarrow> 'v option) \<Rightarrow> ('v \<Rightarrow> 'v \<Rightarrow> bool) \<Rightarrow> (string \<Rightarrow> string) \<Rightarrow> tool_host \<Rightarrow> req_file \<Rightarrow> string list \<Rightarrow>
     tool_escape + int" where
  "tool_main parse older bad host f tools =
     (case read_tool_requirements f of
        Inl err \<Rightarrow> Inr 1
      | Inr reqs \<Rightarrow>
          res_bind (res_fold (main_step parse older bad host) (tools, []) reqs) (\<lambda>(pending, missing).
            Inr (if missing = [] \<and> pending = [] then 0 else 1)))"

subsection \<open>Lemmas\<close>

lemma digits_repr: "digits (nat_repr 10 n)"
  by (auto simp: digits_def list_all_iff dest: nat_repr_digits)

lemma digits_append: "digits u \<Longrightarrow> digits v \<Longrightarrow> digits (u @ v)"
  by (simp add: digits_def)

lemma digits_takeWhile: "takeWhile is_digit s \<noteq> [] \<Longrightarrow> digits (takeWhile is_digit s)"
  by (auto simp: digits_def list_all_iff dest: set_takeWhileD)

context version_order
begin

text \<open>The versions of two dotted numbers compare like the numbers.\<close>

lemma compare_dotted:
  assumes "ws \<noteq> []" "list_all digits ws" "us \<noteq> []" "list_all digits us"
  obtains v u where "parse (dotted ws) = Some v" "parse (dotted us) = Some u"
    "older v u \<longleftrightarrow> release_less (map (val_digits 10) ws) (map (val_digits 10) us)"
  using parse_dotted [OF assms(1,2)] parse_dotted [OF assms(3,4)] less_dotted [OF assms] by blast

text \<open>A tool whose requirement and whose reported version become dotted numbers is good exactly if
  the number it reports is not below.\<close>

lemma check_dotted:
  assumes "to_semver r (rq_min_version r) True = Inr (dotted us)" "us \<noteq> []" "list_all digits us"
    and "get_version host r = Inr (Inr actual)" "to_semver r actual False = Inr (dotted ws)" "ws \<noteq> []" "list_all digits ws"
  shows "\<exists>good msg. check parse older bad host r = Inr (good, msg) \<and>
    (good \<longleftrightarrow> \<not> release_less (map (val_digits 10) ws) (map (val_digits 10) us))"
proof -
  obtain v u where "parse (dotted ws) = Some v" "parse (dotted us) = Some u"
    "older v u \<longleftrightarrow> release_less (map (val_digits 10) ws) (map (val_digits 10) us)"
    using compare_dotted [OF assms(6,7,2,3)] by blast
  then show ?thesis by (simp add: check_def assms(1,4,5))
qed

end

subsection \<open>VCS versions\<close>

text \<open>\<open>2020.03-SP1-2\<close>: year, month, service pack and patch, the last two left out when 0.\<close>

definition vcs_text :: "string \<Rightarrow> string \<Rightarrow> nat \<Rightarrow> nat \<Rightarrow> string" where
  "vcs_text y m sp p = y @ ''.'' @ m @ (if sp = 0 then [] else ''-SP'' @ nat_repr 10 sp) @
     (if p = 0 then [] else ''-'' @ nat_repr 10 p)"

text \<open>The number that stands for month, service pack and patch: the digits of the month followed by
  those of \<open>100 * sp + p\<close>.\<close>

definition vcs_minor :: "nat \<Rightarrow> nat \<Rightarrow> nat \<Rightarrow> nat" where
  "vcs_minor m sp p = m * 10 ^ length (nat_repr 10 (sp * 100 + p)) + (sp * 100 + p)"

definition no_digit :: "string \<Rightarrow> bool" where
  "no_digit s \<longleftrightarrow> s = [] \<or> \<not> is_digit (hd s)"

lemma takeWhile_digits: "list_all is_digit d \<Longrightarrow> no_digit r \<Longrightarrow> takeWhile is_digit (d @ r) = d"
  by (cases r) (auto simp: no_digit_def list_all_iff takeWhile_append2)

lemma dropWhile_digits: "list_all is_digit d \<Longrightarrow> no_digit r \<Longrightarrow> dropWhile is_digit (d @ r) = r"
  by (cases r) (auto simp: no_digit_def list_all_iff dropWhile_append2)

lemma opt_group_present:
  "digits d \<Longrightarrow> no_digit r \<Longrightarrow> opt_group pre (pre @ d @ r) = (d, r)"
  by (simp add: opt_group_def digits_def takeWhile_digits dropWhile_digits)

lemma opt_group_absent: "\<not> starts_with pre s \<Longrightarrow> opt_group pre s = ([], s)"
  by (simp add: opt_group_def)

lemma no_digit_simps [simp]:
  "no_digit []" "no_digit (c # s) \<longleftrightarrow> \<not> is_digit c"
  by (simp_all add: no_digit_def)

lemma not_digit_chars [simp]: "\<not> is_digit CHR ''-''" "\<not> is_digit CHR ''.''"
  by (simp_all add: is_digit_def)

definition cruft_ok :: "string \<Rightarrow> bool" where
  "cruft_ok s \<longleftrightarrow> s = [] \<or> \<not> is_digit (hd s) \<and> hd s \<noteq> CHR ''-''"

lemma cruft_no_digit: "cruft_ok s \<Longrightarrow> no_digit s"
  by (auto simp: cruft_ok_def no_digit_def)

lemma cruft_no_group: "cruft_ok s \<Longrightarrow> \<not> starts_with (CHR ''-'' # w) s"
  by (cases s) (auto simp: cruft_ok_def)

lemma opt_group_number:
  assumes "no_digit tail" "\<not> starts_with pre tail"
  shows "opt_group pre ((if n = 0 then [] else pre @ nat_repr 10 n) @ tail) = (if n = 0 then [] else nat_repr 10 n, tail)"
  using opt_group_present [OF digits_repr assms(1), of pre n] opt_group_absent [OF assms(2)] by simp

lemma vcs_match_text:
  assumes "digits y" "digits m" "cruft_ok cruft" "from_req \<Longrightarrow> cruft = []"
  shows "vcs_match from_req (vcs_text y m sp p @ cruft) =
    Some (y, m, if sp = 0 then [] else nat_repr 10 sp, if p = 0 then [] else nat_repr 10 p)"
proof -
  let ?sp = "if sp = 0 then [] else ''-SP'' @ nat_repr 10 sp"
  let ?p = "(if p = 0 then [] else ''-'' @ nat_repr 10 p) @ cruft"
  let ?s = "vcs_text y m sp p @ cruft"
  have s: "?s = y @ CHR ''.'' # m @ ?sp @ ?p" by (simp add: vcs_text_def)
  have nd: "no_digit ?p" using cruft_no_digit [OF assms(3)] by simp
  have ns: "\<not> starts_with ''-SP'' ?p"
  proof (cases "p = 0")
    case True
    then show ?thesis using cruft_no_group [OF assms(3)] by simp
  next
    case False
    obtain c w where c: "nat_repr 10 p = c # w" by (cases "nat_repr 10 p") auto
    then have "is_digit c" using nat_repr_digits [of c p] by simp
    then show ?thesis using False c by (auto simp: is_digit_def)
  qed
  have tw: "takeWhile is_digit ?s = y" using assms(1) by (simp add: s digits_def takeWhile_digits)
  have nm: "no_digit (?sp @ ?p)" using nd by simp
  have m: "takeWhile is_digit (m @ ?sp @ ?p) = m" "dropWhile is_digit (m @ ?sp @ ?p) = ?sp @ ?p"
    using assms(2) nm by (simp_all only: digits_def takeWhile_digits dropWhile_digits)
  have g1: "opt_group ''-SP'' (?sp @ ?p) = (if sp = 0 then [] else nat_repr 10 sp, ?p)"
    by (rule opt_group_number [OF nd ns])
  have g2: "opt_group ''-'' ?p = (if p = 0 then [] else nat_repr 10 p, cruft)"
    by (rule opt_group_number [OF cruft_no_digit [OF assms(3)] cruft_no_group [OF assms(3), of "[]"]])
  have at: "vcs_match_at from_req ?s (length y) =
      Some (y, m, if sp = 0 then [] else nat_repr 10 sp, if p = 0 then [] else nat_repr 10 p)"
    using assms(2,4) by (simp add: vcs_match_at_def s m g1 g2 Let_def digits_def)
  have "1 \<le> length y" using assms(1) by (cases y) (simp_all add: digits_def)
  then have "rev [1..<length y + 1] = length y # rev [1..<length y]" by (simp add: upt_Suc)
  then show ?thesis unfolding vcs_match_def tw using at by simp
qed

lemma val_digits_Nil [simp]: "val_digits b [] = 0"
  by (simp add: val_digits_def)

lemma vcs_semver_text:
  assumes "digits y" "digits m" "cruft_ok cruft" "from_req \<Longrightarrow> cruft = []"
  shows "vcs_semver from_req (vcs_text y m sp p @ cruft) = Some (dotted [y, m @ nat_repr 10 (sp * 100 + p)])"
  using vcs_match_text [OF assms] by (simp add: vcs_semver_def dotted_def)

lemma val_digits_append: "val_digits b (u @ v) = val_digits b u * b ^ length v + val_digits b v"
proof (induction v rule: rev_induct)
  case (snoc x v)
  have snoc_val: "val_digits b (w @ [x]) = val_digits b w * b + digit_val x" for w
    by (simp add: val_digits_def)
  have "val_digits b (u @ v @ [x]) = val_digits b (u @ v) * b + digit_val x"
    using snoc_val [of "u @ v"] by simp
  then show ?case by (simp only: snoc.IH snoc_val length_append) (simp add: algebra_simps)
qed simp

lemma val_digits_vcs_minor:
  "val_digits 10 (m @ nat_repr 10 (sp * 100 + p)) = vcs_minor (val_digits 10 m) sp p"
  by (simp add: val_digits_append vcs_minor_def)

lemma vcs_minor_le:
  assumes "m < m'" "sp = sp'" "p = p'"
  shows "vcs_minor m sp p < vcs_minor m' sp' p'"
  using assms by (simp add: vcs_minor_def)

definition vcs_req :: "string \<Rightarrow> bool \<Rightarrow> tool_req" where
  "vcs_req v as_needed = \<lparr>rq_class = VcsTool, rq_tool = ''vcs'', rq_min_version = v, rq_as_needed = as_needed\<rparr>"

context version_order
begin

lemma vcs_check:
  assumes "digits y" "digits m" "cruft_ok cruft" "digits y'" "digits m'"
    and "get_version host (vcs_req (vcs_text y' m' sp' p') an) = Inr (Inr (vcs_text y m sp p @ cruft))"
  shows "\<exists>good msg. check parse older bad host (vcs_req (vcs_text y' m' sp' p') an) = Inr (good, msg) \<and>
    (good \<longleftrightarrow> \<not> release_less [val_digits 10 y, vcs_minor (val_digits 10 m) sp p]
                          [val_digits 10 y', vcs_minor (val_digits 10 m') sp' p'])"
proof -
  have sv: "to_semver (vcs_req v an) t fr = (case vcs_semver fr t of
      Some x \<Rightarrow> Inr x | None \<Rightarrow> Inl (repr_str t @ '' is not a recognised VCS version string.''))" for v t fr
    by (simp add: to_semver_def vcs_req_def)
  have mv: "rq_min_version (vcs_req v an) = v" for v by (simp add: vcs_req_def)
  have ok: "list_all digits [y, m @ nat_repr 10 (sp * 100 + p)]" "list_all digits [y', m' @ nat_repr 10 (sp' * 100 + p')]"
    using assms(1,2,4,5) by (auto intro: digits_append digits_repr)
  have req: "to_semver (vcs_req (vcs_text y' m' sp' p') an) (rq_min_version (vcs_req (vcs_text y' m' sp' p') an)) True =
      Inr (dotted [y', m' @ nat_repr 10 (sp' * 100 + p')])"
    using vcs_semver_text [OF assms(4,5), of "[]" True] by (simp add: sv mv cruft_ok_def)
  have act: "to_semver (vcs_req (vcs_text y' m' sp' p') an) (vcs_text y m sp p @ cruft) False =
      Inr (dotted [y, m @ nat_repr 10 (sp * 100 + p)])"
    using vcs_semver_text [OF assms(1,2,3), of False] by (simp add: sv)
  show ?thesis
    using check_dotted [OF req _ ok(2) assms(6) act _ ok(1), of bad] by (simp add: val_digits_vcs_minor)
qed

lemma verible_check:
  assumes "list_all digits [a, b, c]" "list_all digits [a', b', c']" "h \<noteq> []" "list_all is_hex h" "h' \<noteq> []" "list_all is_hex h'"
    and "rq_class r = VeribleTool" "rq_min_version r = ''v'' @ a' @ ''.'' @ b' @ ''-'' @ c' @ ''-g'' @ h'"
    and "get_version host r = Inr (Inr (''v'' @ a @ ''.'' @ b @ ''-'' @ c @ ''-g'' @ h))"
  shows "\<exists>good msg. check parse older bad host r = Inr (good, msg) \<and>
    (good \<longleftrightarrow> \<not> release_less (map (val_digits 10) [a, b, c]) (map (val_digits 10) [a', b', c']))"
proof -
  have sv: "verible_semver (''v'' @ a @ ''.'' @ b @ ''-'' @ c @ ''-g'' @ h) = Some (dotted [a, b, c])"
    if "list_all digits [a, b, c]" "h \<noteq> []" "list_all is_hex h" for a b c h
    using that by (simp add: verible_semver_def digits_def takeWhile_digits dropWhile_digits)
  have req: "to_semver r (rq_min_version r) True = Inr (dotted [a', b', c'])"
    using sv [OF assms(2,5,6)] unfolding to_semver_def assms(7,8) by (simp del: append.simps)
  have act: "to_semver r (''v'' @ a @ ''.'' @ b @ ''-'' @ c @ ''-g'' @ h) False = Inr (dotted [a, b, c])"
    using sv [OF assms(1,3,4)] unfolding to_semver_def assms(7) by (simp del: append.simps)
  show ?thesis
    by (rule check_dotted [OF req _ assms(2) assms(9) act _ assms(1)]) simp_all
qed

end

subsection \<open>An order of release numbers\<close>

text \<open>The numbers of a version without trailing zeros, compared lexicographically.\<close>

datatype release = Release (segments: "nat list")

definition strip_zeros :: "nat list \<Rightarrow> nat list" where
  "strip_zeros xs = rev (dropWhile (\<lambda>x. x = 0) (rev xs))"

definition parse_release :: "string \<Rightarrow> release option" where
  "parse_release s =
     (let ws = split_chr CHR ''.'' s
      in if list_all digits ws then Some (Release (strip_zeros (map (val_digits 10) ws))) else None)"

instantiation release :: linorder
begin

definition less_eq_release :: "release \<Rightarrow> release \<Rightarrow> bool" where
  "r \<le> s \<longleftrightarrow> segments r \<le> segments s"

definition less_release :: "release \<Rightarrow> release \<Rightarrow> bool" where
  "r < s \<longleftrightarrow> segments r < segments s"

instance
  by intro_classes (auto simp: less_eq_release_def less_release_def intro: release.expand)

end

lemma strip_zeros_Cons:
  "strip_zeros (x # xs) = (if x = 0 \<and> strip_zeros xs = [] then [] else x # strip_zeros xs)"
  by (auto simp: strip_zeros_def dropWhile_append rev_swap)

lemma strip_zeros_Nil_iff: "strip_zeros xs = [] \<longleftrightarrow> list_all (\<lambda>x. x = 0) xs"
  by (induction xs) (auto simp: strip_zeros_Cons, simp add: strip_zeros_def)

lemma release_less_strip: "release_less xs ys \<longleftrightarrow> strip_zeros xs < strip_zeros ys"
proof (induction xs ys rule: release_less.induct)
  case (1 ys)
  have "strip_zeros [] = []" by (simp add: strip_zeros_def)
  then have "strip_zeros [] < strip_zeros ys \<longleftrightarrow> strip_zeros ys \<noteq> []"
    by (cases "strip_zeros ys") simp_all
  then show ?case by (simp add: strip_zeros_Nil_iff list_ex_iff list_all_iff)
next
  case (2 x xs)
  then show ?case by (simp add: strip_zeros_def)
next
  case (3 x xs y ys)
  have z: "strip_zeros zs < [] \<longleftrightarrow> False" "[] < strip_zeros zs \<longleftrightarrow> strip_zeros zs \<noteq> []" for zs :: "nat list"
    by (cases "strip_zeros zs"; simp)+
  show ?case using 3 z by (auto simp: strip_zeros_Cons)
qed

lemma split_dotted: "ws \<noteq> [] \<Longrightarrow> list_all digits ws \<Longrightarrow> split_chr CHR ''.'' (dotted ws) = ws"
  unfolding dotted_def by (rule split_join_chr) (fastforce simp: digits_def list_all_iff dest: not_digit_chars(2) [THEN notE])+

interpretation releases: version_order parse_release "(<)"
proof
  fix ws us :: "string list" and v u
  assume ws: "ws \<noteq> []" "list_all digits ws"
  then show "parse_release (dotted ws) \<noteq> None" by (simp add: parse_release_def split_dotted Let_def)
  assume us: "us \<noteq> []" "list_all digits us"
    and "parse_release (dotted ws) = Some v" "parse_release (dotted us) = Some u"
  then show "v < u \<longleftrightarrow> release_less (map (val_digits 10) ws) (map (val_digits 10) us)"
    using ws by (auto simp: parse_release_def split_dotted Let_def less_release_def release_less_strip)
qed

subsection \<open>The loop of the script\<close>

definition needed :: "string list \<Rightarrow> string \<times> tool_req \<Rightarrow> bool" where
  "needed tools = (\<lambda>(tool, req). rq_as_needed req \<longrightarrow> tool \<in> set tools)"

lemma main_step_needed:
  "main_step parse older bad host (pending, missing) (tool, req) =
     (if \<not> needed pending (tool, req) then Inr (pending, missing)
      else res_bind (check parse older bad host req) (\<lambda>(good, msg).
        Inr (filter (\<lambda>t. t \<noteq> tool) pending, if good then missing else missing @ [tool])))"
  by (simp add: main_step_def needed_def)

lemma main_loop:
  "distinct (dkeys reqs) \<Longrightarrow>
   (\<exists>missing'. res_fold (main_step parse older bad host) (pending, missing) reqs = Inr (pending', missing') \<and> missing' = []) \<longleftrightarrow>
     missing = [] \<and> pending' = filter (\<lambda>t. t \<notin> set (dkeys reqs)) pending \<and>
     (\<forall>x\<in>set reqs. needed pending x \<longrightarrow> (\<exists>msg. check parse older bad host (snd x) = Inr (True, msg)))"
proof (induction reqs arbitrary: pending missing)
  case (Cons x reqs)
  obtain tool req where x: "x = (tool, req)" by (cases x)
  from Cons.prems x have d: "distinct (dkeys reqs)" "tool \<notin> set (dkeys reqs)" by auto
  have needed_filter: "needed (filter (\<lambda>t. t \<noteq> tool) pending) y = needed pending y" if "y \<in> set reqs" for y
    using d(2) that by (force simp: needed_def)
  have keys: "filter (\<lambda>t. t \<notin> set (dkeys reqs)) (filter (\<lambda>t. t \<noteq> tool) pending) =
      filter (\<lambda>t. t \<notin> set (dkeys (x # reqs))) pending"
    by (simp add: x conj_commute)
  have absent: "\<not> needed pending (tool, req) \<Longrightarrow> filter (\<lambda>t. t \<notin> set (dkeys (x # reqs))) pending =
      filter (\<lambda>t. t \<notin> set (dkeys reqs)) pending"
    by (auto simp: x needed_def intro: filter_cong)
  show ?case
  proof (cases "needed pending (tool, req)")
    case False
    then show ?thesis
      using Cons.IH [OF d(1), of pending missing] absent by (simp add: x main_step_needed)
  next
    case True
    show ?thesis
    proof (cases "\<exists>msg. check parse older bad host req = Inr (True, msg)")
      case good: True
      then obtain msg where "check parse older bad host req = Inr (True, msg)" ..
      then show ?thesis
        using True Cons.IH [OF d(1), of "filter (\<lambda>t. t \<noteq> tool) pending" missing] keys needed_filter
        by (auto simp: x main_step_needed)
    next
      case bad: False
      then show ?thesis
        using True Cons.IH [OF d(1), of "filter (\<lambda>t. t \<noteq> tool) pending" "missing @ [tool]"]
        by (cases "check parse older bad host req") (auto simp: x main_step_needed)
    qed
  qed
qed auto

lemma requirements_distinct: "read_tool_requirements f = Inr reqs \<Longrightarrow> distinct (dkeys reqs)"
proof -
  have step: "distinct (dkeys reqs')" if "requirement reqs kv = Inr reqs'" "distinct (dkeys reqs)" for reqs reqs' kv
    using that by (auto simp: requirement_def res_simps distinct_update split: prod.splits yval.splits)
  have "res_fold requirement reqs0 raw = Inr reqs \<Longrightarrow> distinct (dkeys reqs0) \<Longrightarrow> distinct (dkeys reqs)" for reqs0 raw
    by (induction raw arbitrary: reqs0) (auto simp: res_simps dest: step)
  then show "read_tool_requirements f = Inr reqs \<Longrightarrow> distinct (dkeys reqs)"
    by (auto simp: read_tool_requirements_def split: req_file.splits)
qed

subsection \<open>Properties\<close>

text \<open>C39: How a VCS version is judged. The check never fails to read versions of the form
  \<open>YEAR.MONTH[-SPn][-PATCH]\<close>; it compares the years, and then the number made of the digits of the
  month followed by those of \<open>100 * n + PATCH\<close>, which is not the order of the versions: what comes
  after the month shifts the month's digits.\<close>

theorem vcs_check_decides:
  assumes "version_order parse older"
    and "digits y" "digits m" "cruft_ok cruft" "digits y'" "digits m'"
    and "get_version host (vcs_req (vcs_text y' m' sp' p') an) = Inr (Inr (vcs_text y m sp p @ cruft))"
  shows "\<exists>good msg. check parse older bad host (vcs_req (vcs_text y' m' sp' p') an) = Inr (good, msg) \<and>
    (good \<longleftrightarrow> val_digits 10 y' < val_digits 10 y \<or> val_digits 10 y' = val_digits 10 y \<and>
       vcs_minor (val_digits 10 m') sp' p' \<le> vcs_minor (val_digits 10 m) sp p)"
proof -
  have "\<not> release_less [a, b] [a', b'] \<longleftrightarrow> a' < a \<or> a' = a \<and> b' \<le> b" for a b a' b' :: nat
    by auto
  then show ?thesis using version_order.vcs_check [OF assms] by simp
qed

text \<open>The VCS requirement of the repository is \<open>2020.03-SP2\<close>, and no VCS of the year 2020 without
  a service pack meets it, not even those of the months after March.\<close>

theorem vcs_newer_rejected:
  assumes "version_order parse older" "digits m" "length m = 2" "cruft_ok cruft"
    and "get_version host (vcs_req ''2020.03-SP2'' True) = Inr (Inr (''2020.'' @ m @ cruft))"
  shows "(\<exists>reqs. read_tool_requirements TOOL_REQUIREMENTS = Inr reqs \<and>
      dget reqs ''vcs'' = Some (vcs_req ''2020.03-SP2'' True)) \<and>
    (\<exists>msg. check parse older bad host (vcs_req ''2020.03-SP2'' True) = Inr (False, msg))"
proof
  show "\<exists>reqs. read_tool_requirements TOOL_REQUIREMENTS = Inr reqs \<and>
      dget reqs ''vcs'' = Some (vcs_req ''2020.03-SP2'' True)"
    by (simp add: read_tool_requirements_def TOOL_REQUIREMENTS_def requirement_def dict_to_tool_req_def
        vcs_req_def class_of_def)
  have r: "nat_repr 10 2 = ''2''" "nat_repr 10 0 = ''0''" "nat_repr 10 200 = ''200''"
    by (simp_all add: digit_chr_def numeral_2_eq_2) (code_simp+)
  have t: "vcs_text ''2020'' ''03'' 2 0 = ''2020.03-SP2''" "vcs_text ''2020'' m 0 0 = ''2020.'' @ m"
    by (simp_all add: vcs_text_def r)
  have d: "digits ''2020''" "digits ''03''" by (simp_all add: digits_def is_digit_def)
  have v: "val_digits 10 ''03'' = 3" by (simp add: val_digits_def digit_val_def is_digit_def)
  obtain a b where m: "m = [a, b]" using assms(3) by (cases m; cases "tl m") auto
  have "is_digit a" "is_digit b" using assms(2) by (simp_all add: m digits_def)
  then have "val_digits 10 m \<le> 99" by (auto simp: m val_digits_def digit_val_def is_digit_def)
  then have "vcs_minor (val_digits 10 m) 0 0 < vcs_minor 3 2 0" by (simp add: vcs_minor_def r)
  then show "\<exists>msg. check parse older bad host (vcs_req ''2020.03-SP2'' True) = Inr (False, msg)"
    using version_order.vcs_check [OF assms(1) d(1) assms(2,4) d, of host 2 0 True 0 0 bad] assms(5)
    by (auto simp: t v)
qed

text \<open>The script exits with 0 exactly if the requirements can be read, every tool named on the
  command line is among them, and every tool that is required, always or because it is named, is
  found recent enough.\<close>

theorem tool_main_zero:
  "tool_main parse older bad host f tools = Inr 0 \<longleftrightarrow>
     (\<exists>reqs. read_tool_requirements f = Inr reqs \<and> set tools \<subseteq> set (dkeys reqs) \<and>
        (\<forall>x\<in>set reqs. (rq_as_needed (snd x) \<longrightarrow> fst x \<in> set tools) \<longrightarrow>
           (\<exists>msg. check parse older bad host (snd x) = Inr (True, msg))))"
proof (cases "read_tool_requirements f")
  case (Inl e)
  then show ?thesis by (simp add: tool_main_def)
next
  case (Inr reqs)
  have "tool_main parse older bad host f tools = Inr 0 \<longleftrightarrow>
      (\<exists>missing'. res_fold (main_step parse older bad host) (tools, []) reqs = Inr ([], missing') \<and> missing' = [])"
    by (auto simp: tool_main_def Inr res_simps split: if_splits)
  also have "\<dots> \<longleftrightarrow> [] = filter (\<lambda>t. t \<notin> set (dkeys reqs)) tools \<and>
      (\<forall>x\<in>set reqs. needed tools x \<longrightarrow> (\<exists>msg. check parse older bad host (snd x) = Inr (True, msg)))"
    by (subst main_loop [OF requirements_distinct [OF Inr]]) simp
  also have "[] = filter (\<lambda>t. t \<notin> set (dkeys reqs)) tools \<longleftrightarrow> set tools \<subseteq> set (dkeys reqs)"
    by (auto simp: filter_empty_conv eq_commute [of "[]"])
  finally show ?thesis by (simp add: Inr needed_def split_beta)
qed

subsection \<open>A machine with VCS 2020.12\<close>

definition sample_host :: tool_host where
  "sample_host =
     \<lparr>th_run = (\<lambda>cmd env. if hd cmd = ''vcs'' then ProcOut (''vcs script'' @ [newline] @ ''Compiler version = VCS Q-2020.12_Full64'' @ [newline])
                        else ProcError ''not found''),
      th_shell = (\<lambda>_. ProcOut ''Verilator 4.210 2021-07-07''), th_module = (\<lambda>_. Some ''0.2.0'')\<rparr>"

lemma sample_vcs: "get_version sample_host (vcs_req v an) = Inr (Inr ''2020.12_Full64'')"
proof -
  have "parse_version_output (vcs_req v an) (''vcs script'' @ [newline] @ ''Compiler version = VCS Q-2020.12_Full64'' @ [newline]) =
      Some ''2020.12_Full64''"
    unfolding parse_version_output_def vcs_req_def tool_req.simps by code_simp
  then show ?thesis
    by (simp add: get_version_def run_version_def sample_host_def vcs_req_def get_tool_cmd_def Let_def)
qed

theorem vcs_check_decides_witness:
  "\<exists>good msg. check parse_release (<) (\<lambda>_. []) sample_host (vcs_req ''2020.03'' True) = Inr (good, msg) \<and> good"
proof -
  have d: "digits ''2020''" "digits ''12''" "digits ''03''" "cruft_ok ''_Full64''"
    by (simp_all add: digits_def is_digit_def cruft_ok_def)
  have t: "vcs_text ''2020'' ''12'' 0 0 @ ''_Full64'' = ''2020.12_Full64''" "vcs_text ''2020'' ''03'' 0 0 = ''2020.03''"
    by (simp_all add: vcs_text_def)
  have "vcs_minor (val_digits 10 ''03'') 0 0 \<le> vcs_minor (val_digits 10 ''12'') 0 0"
    by (simp add: vcs_minor_def val_digits_def digit_val_def is_digit_def)
  then show ?thesis
    using vcs_check_decides [OF releases.version_order_axioms d(1,2,4,1,3), of sample_host 0 0 True 0 0 "\<lambda>_. []"]
    by (auto simp: t sample_vcs)
qed

theorem vcs_newer_rejected_witness:
  "\<exists>msg. check parse_release (<) (\<lambda>_. []) sample_host (vcs_req ''2020.03-SP2'' True) = Inr (False, msg)"
  using vcs_newer_rejected [OF releases.version_order_axioms, of "''12''" "''_Full64''" sample_host "\<lambda>_. []"]
  by (simp add: sample_vcs digits_def is_digit_def cruft_ok_def)

text \<open>Verilator and edalize are there; without a tool named, VCS is not looked at.\<close>

theorem tool_main_zero_witness:
  "tool_main parse_release (<) (\<lambda>_. []) sample_host TOOL_REQUIREMENTS [] = Inr 0"
proof -
  let ?check = "\<lambda>c t v. check parse_release (<) (\<lambda>_. []) sample_host
      \<lparr>rq_class = c, rq_tool = t, rq_min_version = v, rq_as_needed = False\<rparr>"
  have "case ?check VerilatorTool ''verilator'' ''4.210'' of Inr (g, _) \<Rightarrow> g | Inl _ \<Rightarrow> False"
    "case ?check PyModuleTool ''edalize'' ''0.2.0'' of Inr (g, _) \<Rightarrow> g | Inl _ \<Rightarrow> False"
    by code_simp+
  then have "\<exists>msg. ?check VerilatorTool ''verilator'' ''4.210'' = Inr (True, msg)"
    "\<exists>msg. ?check PyModuleTool ''edalize'' ''0.2.0'' = Inr (True, msg)"
    by (auto split: sum.splits prod.splits)
  then show ?thesis
    unfolding tool_main_zero
    by (simp add: read_tool_requirements_def TOOL_REQUIREMENTS_def requirement_def dict_to_tool_req_def class_of_def)
qed

end
