(* ===== verification/Gen_Testlist.thy ===== *)
theory Gen_Testlist
  imports Test_Schema
begin

text \<open>
  \<open>dv/uvm/core_ibex/directed_tests/gen_testlist.py\<close>: writing the list of directed tests, with the
  configurations, the handwritten tests and one entry per source file of the suites asked for.
  What a shell command prints is the parameter \<open>shell\<close>; the order in which Python runs through a set
  of strings is the parameter \<open>order\<close>.
\<close>

subsection \<open>Configurations and handwritten tests\<close>

text \<open>The lines of the text with the configurations.\<close>

definition config_header :: "string list" where
  "config_header = [
     ''# Copyright lowRISC contributors.'',
     ''# Licensed under the Apache License, Version 2.0, see LICENSE for details.'',
     ''# SPDX-License-Identifier: Apache-2.0'',
     '''',
     ''##########################################################'',
     '''',
     ''# This file is generated by gen_testlist.py script and largely copies'',
     ''# the formatting of the testlist.yaml used by riscv-dv, but only specifies'',
     ''# directed tests.'',
     ''#'',
     ''# - All paths are relative to THIS FILE.'',
     ''# - Each '' @ [CHR 0x27] @ ''test'' @ [CHR 0x27] @ '' can specify a config by name to re-use common configuration'',
     ''# - If a test redefines a key already in the config, the test option takes priority.'',
     '''',
     ''##########################################################'',
     '''',
     ''- config: riscv-tests'',
     ''  ld_script: link.ld'',
     ''  includes: .'',
     ''  gcc_opts: -static -mcmodel=medany -fvisibility=hidden -nostdlib -nostartfiles'',
     ''            -I../../../vendor/riscv-test-env/'',
     ''            -I../../../vendor/riscv-test-env/p/'',
     ''            -I../../../vendor/riscv-tests/isa/macros/scalar/'',
     ''  rtl_test: core_ibex_base_test'',
     ''  rtl_params:'',
     ''    PMPEnable: 1'',
     ''  timeout_s: 300'',
     '''',
     ''- config: riscv-arch-tests'',
     ''  ld_script: link.ld'',
     ''  includes: .'',
     ''  gcc_opts: -static -mcmodel=medany -fvisibility=hidden -nostdlib -nostartfiles'',
     ''            -I../../../vendor/riscv-arch-tests/riscv-test-suite/env/'',
     ''            -I../../../vendor/riscv-isa-sim/arch_test_target/spike/'',
     ''  rtl_test: core_ibex_base_test'',
     ''  rtl_params:'',
     ''    PMPEnable: 1'',
     ''  timeout_s: 300'',
     '''',
     ''- config: epmp-tests'',
     ''  ld_script: ../../../../vendor/riscv-isa-sim/tests/mseccfg/mseccfg_test.ld'',
     ''  includes: .'',
     ''  gcc_opts: -march=rv32imc -O2 -I . -I ./. -I ../softfloat -I ../riscv -fno-builtin-printf'',
     ''            -fdata-sections -fno-section-anchors -DPRINTF_SUPPORTED=1'',
     ''            ../../../vendor/riscv-isa-sim/tests/mseccfg/crt.S'',
     ''            ../../../vendor/riscv-isa-sim/tests/mseccfg/syscalls.c'',
     ''            -mcmodel=medany -static -nostdlib -nostartfiles -lm -lgcc'',
     ''            -Wl,-M -Wl,-Map=link.log'',
     ''  rtl_test: core_ibex_base_test'',
     ''  rtl_params:'',
     ''    PMPEnable: 1'',
     ''  timeout_s: 300'']"


record handwritten =
  hw_test :: string
  hw_desc :: string
  hw_srcs :: string
  hw_config :: string
  hw_gcc_opts :: "string list"

definition text_of_lines :: "string list \<Rightarrow> string" where
  "text_of_lines ls = concat (map (\<lambda>l. l @ [newline]) ls)"

text \<open>An entry; options that go over the line are continued below.\<close>

definition hw_lines :: "handwritten \<Rightarrow> string list" where
  "hw_lines t =
     [[], ''- test: '' @ hw_test t, ''  desc: >'', ''    '' @ hw_desc t, ''  iterations: 1'',
      ''  test_srcs: '' @ hw_srcs t, ''  config: '' @ hw_config t] @
     (case hw_gcc_opts t of [] \<Rightarrow> []
      | l # ls \<Rightarrow> (''  gcc_opts: '' @ l) # map (\<lambda>l. ''            '' @ l) ls)"

definition plain_test :: "string \<Rightarrow> string \<Rightarrow> handwritten" where
  "plain_test name desc =
     \<lparr>hw_test = name, hw_desc = desc, hw_srcs = name @ ''/'' @ name @ ''.S'', hw_config = ''riscv-tests'', hw_gcc_opts = []\<rparr>"

definition mseccfg_test :: "string \<Rightarrow> string \<Rightarrow> handwritten" where
  "mseccfg_test variant opts =
     \<lparr>hw_test = ''pmp_mseccfg_test_'' @ variant, hw_desc = ''mseccfg test'',
      hw_srcs = ''pmp_mseccfg_test/pmp_mseccfg_test.S'', hw_config = ''riscv-tests'',
      hw_gcc_opts =
        [''-static -mcmodel=medany -fvisibility=hidden -nostdlib -nostartfiles'',
         ''-I../../../vendor/riscv-test-env/'', ''-I../../../vendor/riscv-test-env/p/'',
         ''-I../../../vendor/riscv-tests/isa/macros/scalar/'', opts]\<rparr>"

definition mseccfg_u0 :: "handwritten list" where
  "mseccfg_u0 =
     [mseccfg_test ''rlb1_l0_0_u0'' ''-DPMP_REGION=4 -DRLB -DSET_PMP_L=0 -DSET_PMP_L_PREV=0'',
      mseccfg_test ''rlb1_l0_1_u0'' ''-DPMP_REGION=4 -DRLB -DSET_PMP_L=1 -DSET_PMP_L_PREV=0'',
      mseccfg_test ''rlb1_l1_0_u0'' ''-DPMP_REGION=4 -DRLB -DSET_PMP_L=0 -DSET_PMP_L_PREV=1'',
      mseccfg_test ''rlb1_l1_1_u0'' ''-DPMP_REGION=4 -DRLB -DSET_PMP_L=1 -DSET_PMP_L_PREV=1'',
      mseccfg_test ''rlb0_l0_0_u0'' ''-DPMP_REGION=4 -DSET_PMP_L=0 -DSET_PMP_L_PREV=0'',
      mseccfg_test ''rlb0_l0_1_next_l1_u0'' ''-DSET_PMP_L=1 -DSET_PMP_L_PREV=0 -DPMP_NEXT_L1'',
      mseccfg_test ''rlb0_l0_1_next_l1_r1_u0'' ''-DSET_PMP_L=1 -DSET_PMP_L_PREV=0 -DPMP_NEXT_L1_R1'',
      mseccfg_test ''rlb0_l0_1_next_l1_w1_u0'' ''-DSET_PMP_L=1 -DSET_PMP_L_PREV=0 -DPMP_NEXT_L1_W1'',
      mseccfg_test ''rlb0_l0_1_next_l1_x1_u0'' ''-DSET_PMP_L=1 -DSET_PMP_L_PREV=0 -DPMP_NEXT_L1_X1'',
      mseccfg_test ''rlb0_l0_1_next_l1_r1_w1_u0'' ''-DSET_PMP_L=1 -DSET_PMP_L_PREV=0 -DPMP_NEXT_L1_R1_W1'',
      mseccfg_test ''rlb0_l0_1_next_l1_r1_x1_u0'' ''-DSET_PMP_L=1 -DSET_PMP_L_PREV=0 -DPMP_NEXT_L1_R1_X1'',
      mseccfg_test ''rlb0_l0_1_next_l1_w1_x1_u0'' ''-DSET_PMP_L=1 -DSET_PMP_L_PREV=0 -DPMP_NEXT_L1_W1_X1'',
      mseccfg_test ''rlb0_l0_1_next_l1_r1_w1_x1_u0'' ''-DSET_PMP_L=1 -DSET_PMP_L_PREV=0 -DPMP_NEXT_L1_R1_W1_X1'']"

definition mseccfg_u1 :: "handwritten list" where
  "mseccfg_u1 =
     [mseccfg_test ''rlb1_l0_0_u1'' ''-DPMP_REGION=4 -DRLB -DSET_PMP_L=0 -DSET_PMP_L_PREV=0 -DU_MODE'',
      mseccfg_test ''rlb1_l0_1_u1'' ''-DPMP_REGION=4 -DRLB -DSET_PMP_L=1 -DSET_PMP_L_PREV=0 -DU_MODE'',
      mseccfg_test ''rlb1_l1_0_u1'' ''-DPMP_REGION=4 -DRLB -DSET_PMP_L=0 -DSET_PMP_L_PREV=1 -DU_MODE'',
      mseccfg_test ''rlb1_l1_1_u1'' ''-DPMP_REGION=4 -DRLB -DSET_PMP_L=1 -DSET_PMP_L_PREV=1 -DU_MODE'',
      mseccfg_test ''rlb0_l0_0_u1'' ''-DPMP_REGION=4 -DSET_PMP_L=0 -DSET_PMP_L_PREV=0 -DU_MODE'',
      mseccfg_test ''rlb0_l0_1_next_l1_u1'' ''-DSET_PMP_L=1 -DSET_PMP_L_PREV=0 -DPMP_NEXT_L1 -DU_MODE'',
      mseccfg_test ''rlb0_l0_1_next_l1_r1_u1'' ''-DSET_PMP_L=1 -DSET_PMP_L_PREV=0 -DPMP_NEXT_L1_R1 -DU_MODE'',
      mseccfg_test ''rlb0_l0_1_next_l1_w1_u1'' ''-DSET_PMP_L=1 -DSET_PMP_L_PREV=0 -DPMP_NEXT_L1_W1 -DU_MODE'',
      mseccfg_test ''rlb0_l0_1_next_l1_x1_u1'' ''-DSET_PMP_L=1 -DSET_PMP_L_PREV=0 -DPMP_NEXT_L1_X1 -DU_MODE'',
      mseccfg_test ''rlb0_l0_1_next_l1_r1_w1_u1'' ''-DSET_PMP_L=1 -DSET_PMP_L_PREV=0 -DPMP_NEXT_L1_R1_W1 -DU_MODE'',
      mseccfg_test ''rlb0_l0_1_next_l1_r1_x1_u1'' ''-DSET_PMP_L=1 -DSET_PMP_L_PREV=0 -DPMP_NEXT_L1_R1_X1 -DU_MODE'',
      mseccfg_test ''rlb0_l0_1_next_l1_w1_x1_u1'' ''-DSET_PMP_L=1 -DSET_PMP_L_PREV=0 -DPMP_NEXT_L1_W1_X1 -DU_MODE'',
      mseccfg_test ''rlb0_l0_1_next_l1_r1_w1_x1_u1'' ''-DSET_PMP_L=1 -DSET_PMP_L_PREV=0 -DPMP_NEXT_L1_R1_W1_X1 -DU_MODE'']"

definition handwritten_tests :: "handwritten list" where
  "handwritten_tests =
     [plain_test ''empty'' ''Empty directed test''] @ mseccfg_u0 @ mseccfg_u1 @
     [plain_test ''access_pmp_overlap'' ''PMP access basic test'', plain_test ''u_mode_exec_test'' ''PMP U mode exec test'']"

definition configs_and_handwritten :: string where
  "configs_and_handwritten =
     text_of_lines (config_header @ [[], ''# Custom directed tests''] @ concat (map hw_lines handwritten_tests))"

subsection \<open>The suites\<close>

definition suite_entry :: "string \<Rightarrow> string \<Rightarrow> string \<Rightarrow> string \<Rightarrow> string \<Rightarrow> string list" where
  "suite_entry suite suite_name extension grp name =
     [[], ''- test: '' @ name, ''  desc: >'', ''    riscv test - '' @ name, ''  iterations: 1'',
      ''  test_srcs: '' @ suite @ grp @ ''/'' @ name @ extension, ''  config: '' @ suite_name]"

text \<open>The lines a command prints: what comes before the last newline.\<close>

definition printed_lines :: "string \<Rightarrow> string list" where
  "printed_lines out = butlast (split_chr newline out)"

definition append_directed_testlist ::
    "(string \<Rightarrow> string) \<Rightarrow> string list \<Rightarrow> string \<Rightarrow> string \<Rightarrow> bool \<Rightarrow> string" where
  "append_directed_testlist shell tests suite suite_name is_assembly =
     (let extension = (if is_assembly then ''.S'' else ''.c'');
          grep = (if is_assembly then '' | egrep .S'' else '' | egrep .c'')
      in text_of_lines ([[], ''# Test-suite: '' @ suite_name] @
           concat (map (\<lambda>grp.
             concat (map (\<lambda>file. suite_entry suite suite_name extension grp (hd (split_str extension file)))
               (printed_lines (shell (''ls '' @ suite @ grp @ grep))))) tests)))"

definition list_tests :: "(string \<Rightarrow> string) \<Rightarrow> string \<Rightarrow> string list" where
  "list_tests shell dir = printed_lines (shell (''ls '' @ dir))"

text \<open>The content of the file: \<open>None\<close> if there is no file to truncate, which is an error.\<close>

definition gen_testlist ::
    "(string \<Rightarrow> string) \<Rightarrow> (string list \<Rightarrow> string list) \<Rightarrow> string option \<Rightarrow> string \<Rightarrow> string option" where
  "gen_testlist shell order old add_tests =
     (case old of
        None \<Rightarrow> None
      | Some _ \<Rightarrow>
          (let wanted = (\<lambda>s. s \<in> set (split_chr CHR '','' add_tests) \<or> add_tests = ''all'')
           in Some (configs_and_handwritten @
             (if wanted ''riscv-tests''
              then append_directed_testlist shell (order [''rv32mi'', ''rv32uc'', ''rv32ui'', ''rv32um''])
                     ''../../../../vendor/riscv-tests/isa/'' ''riscv-tests'' True else []) @
             (if wanted ''riscv-arch-tests''
              then append_directed_testlist shell
                     (order [''rv32i_m/B/src'', ''rv32i_m/C/src'', ''rv32i_m/I/src'', ''rv32i_m/M/src'', ''rv32i_m/Zifencei/src''])
                     ''../../../../vendor/riscv-arch-tests/riscv-test-suite/'' ''riscv-arch-tests'' True else []) @
             (if wanted ''epmp-tests''
              then append_directed_testlist shell (order [''outputs''])
                     ''../../../../vendor/riscv-isa-sim/tests/mseccfg/gengen_src/'' ''epmp-tests'' False else []))))"

subsection \<open>Lemmas\<close>

lemma printed_text: "\<forall>l\<in>set ls. newline \<notin> set l \<Longrightarrow> printed_lines (text_of_lines ls) = ls"
proof (induction ls)
  case (Cons l ls)
  have "split_chr newline ((l @ [newline]) @ text_of_lines ls) = l # split_chr newline (text_of_lines ls)"
    using Cons.prems split_p_append [of l "\<lambda>c. c = newline" newline "text_of_lines ls"] by auto
  then show ?case using Cons by (simp add: printed_lines_def text_of_lines_def)
qed (simp add: printed_lines_def text_of_lines_def)

lemma extension_dropped:
  assumes "e \<noteq> CHR ''.''" "\<not> str_in [CHR ''.'', e] name"
  shows "hd (split_str [CHR ''.'', e] (name @ [CHR ''.'', e])) = name"
  using assms(2)
proof (induction name)
  case (Cons c name)
  have "\<not> starts_with [CHR ''.'', e] ((c # name) @ [CHR ''.'', e])"
    using assms(1) Cons.prems by (cases name) auto
  with Cons show ?case by simp
qed simp

definition declared_configs :: "string list" where
  "declared_configs = map (drop 10) (filter (starts_with ''- config: '') config_header)"

lemma declared_configs: "declared_configs = [''riscv-tests'', ''riscv-arch-tests'', ''epmp-tests'']"
  by code_simp

text \<open>Every entry and every test entry are on lines of their own, so a test list is its lines.\<close>

lemma text_of_lines_append: "text_of_lines (xs @ ys) = text_of_lines xs @ text_of_lines ys"
  by (simp add: text_of_lines_def)

subsection \<open>Properties\<close>

text \<open>The handwritten tests can be selected and run by name: no two share a name, each inherits
  from a configuration that the file declares, and the name of a run, \<open>TEST.SEED\<close>, is read back to
  the test and the seed.\<close>

lemma handwritten_addressable:
  "distinct (map hw_test handwritten_tests) \<and>
   list_all (\<lambda>t. hw_config t \<in> set declared_configs) handwritten_tests \<and>
   (t \<in> set handwritten_tests \<longrightarrow>
     read_test_dot_seed (hw_test t @ ''.'' @ nat_repr 10 n) = Some (hw_test t, int n))"
proof -
  have "distinct (map hw_test handwritten_tests)" by code_simp
  moreover have "list_all (\<lambda>t. hw_config t \<in> set [''riscv-tests'']) handwritten_tests" by code_simp
  then have "list_all (\<lambda>t. hw_config t \<in> set declared_configs) handwritten_tests"
    by (auto simp: declared_configs list_all_iff)
  moreover have "list_all (\<lambda>t. hw_test t \<noteq> [] \<and> CHR ''.'' \<notin> set (hw_test t)) handwritten_tests" by code_simp
  then have "t \<in> set handwritten_tests \<longrightarrow>
      read_test_dot_seed (hw_test t @ ''.'' @ nat_repr 10 n) = Some (hw_test t, int n)"
    using read_tds_roundtrip [of "hw_test t" n] by (simp add: list_all_iff)
  ultimately show ?thesis by blast
qed

text \<open>The entries of a suite. Where the listing of every group has one file \<open>NAME.S\<close> (or
  \<open>NAME.c\<close>) per line, the text added has exactly one entry per file, group by group, whose test and
  source are the file.\<close>

theorem suite_entries:
  assumes "\<And>g. g \<in> set groups \<Longrightarrow> shell (''ls '' @ suite @ g @ '' | egrep .'' @ (if asm then ''S'' else ''c'')) =
      text_of_lines (map (\<lambda>n. n @ (if asm then ''.S'' else ''.c'')) (names g))"
    and "\<And>g n. g \<in> set groups \<Longrightarrow> n \<in> set (names g) \<Longrightarrow> newline \<notin> set n \<and> \<not> str_in (if asm then ''.S'' else ''.c'') n"
  shows "append_directed_testlist shell groups suite suite_name asm =
    text_of_lines ([[], ''# Test-suite: '' @ suite_name] @
      concat (map (\<lambda>g. concat (map (suite_entry suite suite_name (if asm then ''.S'' else ''.c'') g) (names g))) groups))"
proof -
  let ?ext = "if asm then ''.S'' else ''.c''"
  have lines: "printed_lines (shell (''ls '' @ suite @ g @ '' | egrep '' @ ?ext)) = map (\<lambda>n. n @ ?ext) (names g)"
    if "g \<in> set groups" for g
    using assms(1) [OF that] assms(2) [OF that] by (subst printed_text [symmetric]) (auto split: if_splits)
  have name: "hd (split_str ?ext (n @ ?ext)) = n" if "g \<in> set groups" "n \<in> set (names g)" for g n
    using assms(2) [OF that] extension_dropped by (auto split: if_splits)
  have "concat (map (\<lambda>file. suite_entry suite suite_name ?ext g (hd (split_str ?ext file))) (map (\<lambda>n. n @ ?ext) (names g))) =
      concat (map (suite_entry suite suite_name ?ext g) (names g))" if "g \<in> set groups" for g
    using name [OF that] by (simp add: o_def cong: map_cong)
  then show ?thesis
    using lines by (cases asm) (simp_all add: append_directed_testlist_def Let_def cong: map_cong)
qed

text \<open>The help text names the third suite \<open>epmp_tests\<close> in its example; with that name nothing of it is
  added.\<close>

lemma help_example_adds_no_epmp:
  "gen_testlist shell order old ''riscv-tests,epmp_tests'' = gen_testlist shell order old ''riscv-tests''"
proof -
  have s: "split_chr CHR '','' ''riscv-tests,epmp_tests'' = [''riscv-tests'', ''epmp_tests'']"
    "split_chr CHR '','' ''riscv-tests'' = [''riscv-tests'']"
    by code_simp+
  show ?thesis by (cases old) (simp_all add: gen_testlist_def Let_def s del: split_p.simps)
qed

theorem suite_entries_witness:
  "append_directed_testlist (\<lambda>_. text_of_lines [''csr.S'', ''illegal.S'']) [''rv32mi''] ''isa/'' ''riscv-tests'' True =
     text_of_lines ([[], ''# Test-suite: riscv-tests''] @
       suite_entry ''isa/'' ''riscv-tests'' ''.S'' ''rv32mi'' ''csr'' @
       suite_entry ''isa/'' ''riscv-tests'' ''.S'' ''rv32mi'' ''illegal'')"
  using suite_entries [of "[''rv32mi'']" "\<lambda>_. text_of_lines [''csr.S'', ''illegal.S'']" "''isa/''" True
      "\<lambda>_. [''csr'', ''illegal'']" "''riscv-tests''"]
  by (fastforce simp: text_of_lines_def)

subsection \<open>Reading the list back\<close>

text \<open>The generated text as a reader of YAML sees it, as far as this text goes.\<close>

definition line_field :: "string \<Rightarrow> string \<times> string" where
  "line_field l = (takeWhile (\<lambda>c. c \<noteq> CHR '':'') l, drop 2 (dropWhile (\<lambda>c. c \<noteq> CHR '':'') l))"

text \<open>A line \<open>- KEY: VALUE\<close> starts an entry, lines indented by two blanks add to it, and deeper
  ones continue a value; empty lines and comments are passed over.\<close>

definition read_line :: "(string, string) dict list \<Rightarrow> string \<Rightarrow> (string, string) dict list" where
  "read_line es l =
     (if starts_with ''- '' l then es @ [[line_field (drop 2 l)]]
      else if starts_with ''  '' l \<and> \<not> starts_with ''   '' l \<and> es \<noteq> []
      then butlast es @ [last es @ [line_field (drop 2 l)]]
      else es)"

definition read_entries :: "string \<Rightarrow> (string, string) dict list" where
  "read_entries txt = foldl read_line [] (printed_lines txt)"

text \<open>The entries with a test, with its source and configuration, and the configurations.\<close>

definition tests_in :: "(string, string) dict list \<Rightarrow> (string \<times> string option \<times> string option) list" where
  "tests_in es = List.map_filter (\<lambda>e. map_option (\<lambda>t. (t, dget e ''test_srcs'', dget e ''config'')) (dget e ''test'')) es"

definition configs_in :: "(string, string) dict list \<Rightarrow> string list" where
  "configs_in es = List.map_filter (\<lambda>e. if dget e ''test'' = None then dget e ''config'' else None) es"

lemma read_blank: "read_line es [] = es"
  by (simp add: read_line_def)

lemma read_comment: "read_line es (CHR ''#'' # l) = es"
  by (simp add: read_line_def)

lemma read_deeper: "read_line es (CHR '' '' # CHR '' '' # CHR '' '' # l) = es"
  by (simp add: read_line_def)

lemma read_deeper_all: "foldl read_line es (map ((@) ''            '') ls) = es"
  by (induction ls arbitrary: es) (simp_all add: read_deeper)

lemma read_first: "read_line es (CHR ''-'' # CHR '' '' # l) = es @ [[line_field l]]"
  by (simp add: read_line_def)

lemma read_next: "c \<noteq> CHR '' '' \<Longrightarrow> read_line (es @ [e]) (CHR '' '' # CHR '' '' # c # l) = es @ [e @ [line_field (c # l)]]"
  by (simp add: read_line_def)

lemma tests_in_append: "tests_in (es @ fs) = tests_in es @ tests_in fs"
  by (simp add: tests_in_def List.map_filter_def)

lemma configs_in_append: "configs_in (es @ fs) = configs_in es @ configs_in fs"
  by (simp add: configs_in_def List.map_filter_def)

text \<open>Lines that add entries of tests to those read before.\<close>

definition reads :: "string list \<Rightarrow> (string \<times> string option \<times> string option) list \<Rightarrow> bool" where
  "reads ls ts \<longleftrightarrow> (\<forall>es. \<exists>es'. foldl read_line es ls = es @ es' \<and> configs_in es' = [] \<and> tests_in es' = ts)"

lemma reads_Nil: "reads [] []"
  by (simp add: reads_def configs_in_def tests_in_def List.map_filter_simps)

lemma reads_append:
  assumes "reads ls ts" "reads ls' ts'"
  shows "reads (ls @ ls') (ts @ ts')"
  unfolding reads_def
proof
  fix es
  from assms(1) obtain es1 where 1: "foldl read_line es ls = es @ es1" "configs_in es1 = []" "tests_in es1 = ts"
    unfolding reads_def by blast
  from assms(2) obtain es2 where 2: "foldl read_line (es @ es1) ls' = (es @ es1) @ es2" "configs_in es2 = []" "tests_in es2 = ts'"
    unfolding reads_def by blast
  from 1 2 show "\<exists>es'. foldl read_line es (ls @ ls') = es @ es' \<and> configs_in es' = [] \<and> tests_in es' = ts @ ts'"
    by (intro exI [of _ "es1 @ es2"]) (simp add: configs_in_append tests_in_append)
qed

lemma reads_concat: "(\<And>x. reads (f x) (g x)) \<Longrightarrow> reads (concat (map f xs)) (concat (map g xs))"
  by (induction xs) (auto intro: reads_Nil reads_append)

lemma reads_one:
  assumes "\<And>es. foldl read_line es ls = es @ [e]" "dget e ''test'' = Some t"
  shows "reads ls [(t, dget e ''test_srcs'', dget e ''config'')]"
  unfolding reads_def using assms
  by (intro allI exI [of _ "[e]"]) (simp add: configs_in_def tests_in_def List.map_filter_simps)

lemma read_hw:
  "foldl read_line es (hw_lines t) =
     es @ [[(''test'', hw_test t), (''desc'', ''>''), (''iterations'', ''1''), (''test_srcs'', hw_srcs t),
            (''config'', hw_config t)] @ map (Pair ''gcc_opts'') (take 1 (hw_gcc_opts t))]"
  by (cases "hw_gcc_opts t")
    (simp_all add: hw_lines_def read_blank read_first read_deeper read_next line_field_def read_deeper_all)

lemma read_suite_entry:
  "foldl read_line es (suite_entry suite suite_name ext grp name) =
     es @ [[(''test'', name), (''desc'', ''>''), (''iterations'', ''1''),
            (''test_srcs'', suite @ grp @ ''/'' @ name @ ext), (''config'', suite_name)]]"
  by (simp add: suite_entry_def read_blank read_first read_deeper read_next line_field_def)

lemma reads_hw: "reads (hw_lines t) [(hw_test t, Some (hw_srcs t), Some (hw_config t))]"
  using reads_one [OF read_hw, where t = "hw_test t"] by simp

lemma reads_suite_entry:
  "reads (suite_entry suite suite_name ext grp name) [(name, Some (suite @ grp @ ''/'' @ name @ ext), Some suite_name)]"
  using reads_one [OF read_suite_entry, where t = name] by simp

lemma read_header: "tests_in (foldl read_line [] config_header) = [] \<and>
   configs_in (foldl read_line [] config_header) = [''riscv-tests'', ''riscv-arch-tests'', ''epmp-tests'']"
  by code_simp


text \<open>The suites: name, directory, groups, and whether they are in assembly.\<close>

definition suites :: "(string \<times> string \<times> string list \<times> bool) list" where
  "suites =
     [(''riscv-tests'', ''../../../../vendor/riscv-tests/isa/'', [''rv32mi'', ''rv32uc'', ''rv32ui'', ''rv32um''], True),
      (''riscv-arch-tests'', ''../../../../vendor/riscv-arch-tests/riscv-test-suite/'',
       [''rv32i_m/B/src'', ''rv32i_m/C/src'', ''rv32i_m/I/src'', ''rv32i_m/M/src'', ''rv32i_m/Zifencei/src''], True),
      (''epmp-tests'', ''../../../../vendor/riscv-isa-sim/tests/mseccfg/gengen_src/'', [''outputs''], False)]"

text \<open>The tests of a suite, given the files of each directory, and that the shell lists these.\<close>

definition suite_tests ::
    "(string \<Rightarrow> string list) \<Rightarrow> (string list \<Rightarrow> string list) \<Rightarrow> string \<times> string \<times> string list \<times> bool \<Rightarrow>
     (string \<times> string option \<times> string option) list" where
  "suite_tests names order = (\<lambda>(suite_name, suite, groups, asm).
     concat (map (\<lambda>g. map (\<lambda>n. (n, Some (suite @ g @ ''/'' @ n @ (if asm then ''.S'' else ''.c'')), Some suite_name))
                         (names (suite @ g))) (order groups)))"

definition listed ::
    "(string \<Rightarrow> string) \<Rightarrow> (string \<Rightarrow> string list) \<Rightarrow> string \<times> string \<times> string list \<times> bool \<Rightarrow> bool" where
  "listed shell names = (\<lambda>(suite_name, suite, groups, asm).
     list_all (\<lambda>g.
       shell (''ls '' @ suite @ g @ '' | egrep .'' @ (if asm then ''S'' else ''c'')) =
         text_of_lines (map (\<lambda>n. n @ (if asm then ''.S'' else ''.c'')) (names (suite @ g))) \<and>
       list_all (\<lambda>n. newline \<notin> set n \<and> \<not> str_in (if asm then ''.S'' else ''.c'') n) (names (suite @ g))) groups)"

definition suite_lines ::
    "(string \<Rightarrow> string list) \<Rightarrow> (string list \<Rightarrow> string list) \<Rightarrow> string \<times> string \<times> string list \<times> bool \<Rightarrow> string list" where
  "suite_lines names order = (\<lambda>(suite_name, suite, groups, asm).
     [[], ''# Test-suite: '' @ suite_name] @
      concat (map (\<lambda>g. concat (map (suite_entry suite suite_name (if asm then ''.S'' else ''.c'') g) (names (suite @ g)))) (order groups)))"

lemma suite_text:
  assumes "listed shell names (suite_name, suite, groups, asm)" "\<And>gs. set (order gs) = set gs"
  shows "append_directed_testlist shell (order groups) suite suite_name asm =
    text_of_lines (suite_lines names order (suite_name, suite, groups, asm))"
proof -
  from assms show ?thesis
    unfolding suite_lines_def prod.case
    by (intro suite_entries) (auto simp: listed_def list_all_iff)
qed

lemma reads_comment: "reads [[], CHR ''#'' # l] []"
  by (simp add: reads_def read_blank read_comment configs_in_def tests_in_def List.map_filter_simps)

lemma concat_singles: "concat (map (\<lambda>x. [f x]) xs) = map f xs"
  by (induction xs) auto

lemma reads_suite_lines: "reads (suite_lines names order sd) (suite_tests names order sd)"
proof -
  obtain suite_name suite groups asm where sd: "sd = (suite_name, suite, groups, asm)" by (cases sd)
  have "reads (concat (map (suite_entry suite suite_name ext g) ns))
      (map (\<lambda>n. (n, Some (suite @ g @ ''/'' @ n @ ext), Some suite_name)) ns)" for ext g ns
    using reads_concat [OF reads_suite_entry [where suite = suite and suite_name = suite_name and ext = ext and grp = g],
      where xs = ns] by (simp add: concat_singles)
  then have "reads (concat (map (\<lambda>g. concat (map (suite_entry suite suite_name ext g) (names (suite @ g)))) gs))
      (concat (map (\<lambda>g. map (\<lambda>n. (n, Some (suite @ g @ ''/'' @ n @ ext), Some suite_name)) (names (suite @ g))) gs))" for ext gs
    by (intro reads_concat)
  from reads_append [OF reads_comment [of "'' Test-suite: '' @ suite_name"] this [of "if asm then ''.S'' else ''.c''" "order groups"]]
  show ?thesis by (simp add: sd suite_lines_def suite_tests_def)
qed

lemma hw_lines_whole:
  "newline \<notin> set (hw_test t @ hw_desc t @ hw_srcs t @ hw_config t @ concat (hw_gcc_opts t)) \<Longrightarrow>
   \<forall>l\<in>set (hw_lines t). newline \<notin> set l"
  by (cases "hw_gcc_opts t") (auto simp: hw_lines_def)

lemma handwritten_whole: "\<forall>l\<in>set (config_header @ concat (map hw_lines handwritten_tests)). newline \<notin> set l"
proof -
  have "list_all (\<lambda>l. newline \<notin> set l) config_header" by code_simp
  moreover have "list_all (\<lambda>t. newline \<notin> set (hw_test t @ hw_desc t @ hw_srcs t @ hw_config t @ concat (hw_gcc_opts t)))
      handwritten_tests" by code_simp
  then have "\<forall>l\<in>set (hw_lines t). newline \<notin> set l" if "t \<in> set handwritten_tests" for t
    using that by (intro hw_lines_whole) (auto simp: list_all_iff)
  ultimately show ?thesis by (simp only: list_all_iff set_append set_concat set_map) blast
qed

lemma suite_lines_whole:
  assumes "listed shell names sd" "sd \<in> set suites" "\<And>gs. set (order gs) = set gs"
  shows "\<forall>l\<in>set (suite_lines names order sd). newline \<notin> set l"
proof -
  obtain suite_name suite groups asm where sd: "sd = (suite_name, suite, groups, asm)" by (cases sd)
  have "list_all (\<lambda>(suite_name, suite, groups, asm). newline \<notin> set (suite_name @ suite @ concat groups)) suites"
    by code_simp
  with assms(2) have plain: "newline \<notin> set (suite_name @ suite @ concat groups)"
    by (auto simp: list_all_iff sd)
  have "newline \<notin> set n" if "g \<in> set groups" "n \<in> set (names (suite @ g))" for g n
    using assms(1) that by (auto simp: sd listed_def list_all_iff)
  with plain show ?thesis by (auto simp: sd suite_lines_def suite_entry_def assms(3))
qed

lemma text_of_lines_Cons: "text_of_lines (l # ls) = l @ newline # text_of_lines ls"
  by (simp add: text_of_lines_def)

lemma text_of_lines_Nil: "text_of_lines [] = []"
  by (simp add: text_of_lines_def)

text \<open>C40: The list that is written, read back line by line, declares the three configurations and
  holds exactly the handwritten tests, in their order and each with its source and its
  configuration, followed by the tests of the suites that were asked for (by name or with
  \<open>all\<close>): one for every source file of the suite's directories, run from that file with the
  configuration of the suite. The file must exist before, and the shell must list one source file
  per line, its name holding the extension only at the end.\<close>

theorem generated_tests_read_back:
  assumes "list_all (listed shell names) suites" "\<And>gs. set (order gs) = set gs"
  shows "\<exists>txt. gen_testlist shell order (Some old) add_tests = Some txt \<and>
    tests_in (read_entries txt) =
      map (\<lambda>t. (hw_test t, Some (hw_srcs t), Some (hw_config t))) handwritten_tests @
      concat (map (suite_tests names order)
        (filter (\<lambda>sd. add_tests = ''all'' \<or> fst sd \<in> set (split_chr CHR '','' add_tests)) suites)) \<and>
    configs_in (read_entries txt) = map fst suites"
proof -
  let ?wanted = "\<lambda>s. s \<in> set (split_chr CHR '','' add_tests) \<or> add_tests = ''all''"
  let ?chosen = "filter (\<lambda>sd. add_tests = ''all'' \<or> fst sd \<in> set (split_chr CHR '','' add_tests)) suites"
  let ?ls = "config_header @ [[], ''# Custom directed tests''] @ concat (map hw_lines handwritten_tests) @
      concat (map (suite_lines names order) ?chosen)"
  have added: "append_directed_testlist shell (order groups) suite suite_name asm =
      text_of_lines (suite_lines names order (suite_name, suite, groups, asm))"
    if "(suite_name, suite, groups, asm) \<in> set suites" for suite_name suite groups asm
    using assms that by (intro suite_text) (auto simp: list_all_iff)
  have content: "gen_testlist shell order (Some old) add_tests = Some (text_of_lines ?ls)"
    unfolding gen_testlist_def configs_and_handwritten_def
    by (simp add: Let_def text_of_lines_append text_of_lines_Cons text_of_lines_Nil suites_def added)
  have "\<forall>l\<in>set ?ls. newline \<notin> set l"
    using handwritten_whole suite_lines_whole assms by (fastforce simp: list_all_iff)
  then have read: "read_entries (text_of_lines ?ls) = foldl read_line [] ?ls"
    unfolding read_entries_def by (subst printed_text) auto
  have "reads ([[], ''# Custom directed tests''] @ concat (map hw_lines handwritten_tests) @
      concat (map (suite_lines names order) ?chosen))
     (map (\<lambda>t. (hw_test t, Some (hw_srcs t), Some (hw_config t))) handwritten_tests @
      concat (map (suite_tests names order) ?chosen))"
    using reads_append [OF reads_comment reads_append
      [OF reads_concat [OF reads_hw, where xs = handwritten_tests] reads_concat [OF reads_suite_lines, where xs = ?chosen]]]
    by (simp add: concat_singles)
  then obtain es' where es': "foldl read_line [] ?ls = foldl read_line [] config_header @ es'" "configs_in es' = []"
    "tests_in es' = map (\<lambda>t. (hw_test t, Some (hw_srcs t), Some (hw_config t))) handwritten_tests @
      concat (map (suite_tests names order) ?chosen)"
    unfolding reads_def foldl_append by metis
  have "map fst suites = [''riscv-tests'', ''riscv-arch-tests'', ''epmp-tests'']" by (simp add: suites_def)
  then have "configs_in (read_entries (text_of_lines ?ls)) = map fst suites"
    by (simp only: read es'(1,2) configs_in_append conjunct2 [OF read_header] append_Nil2)
  moreover have "tests_in (read_entries (text_of_lines ?ls)) =
      map (\<lambda>t. (hw_test t, Some (hw_srcs t), Some (hw_config t))) handwritten_tests @
      concat (map (suite_tests names order) ?chosen)"
    by (simp only: read es'(1,3) tests_in_append conjunct1 [OF read_header] append_Nil)
  ultimately show ?thesis using content by blast
qed

definition sample_shell :: "string \<Rightarrow> string" where
  "sample_shell cmd =
     (if cmd = ''ls ../../../../vendor/riscv-tests/isa/rv32um | egrep .S''
      then text_of_lines [''div.S'', ''mul.S''] else [])"

theorem generated_tests_read_back_witness:
  "\<exists>txt. gen_testlist sample_shell id (Some []) ''riscv-tests'' = Some txt \<and>
     tests_in (read_entries txt) =
       map (\<lambda>t. (hw_test t, Some (hw_srcs t), Some (hw_config t))) handwritten_tests @
       [(''div'', Some ''../../../../vendor/riscv-tests/isa/rv32um/div.S'', Some ''riscv-tests''),
        (''mul'', Some ''../../../../vendor/riscv-tests/isa/rv32um/mul.S'', Some ''riscv-tests'')]"
proof -
  let ?names = "\<lambda>dir. if dir = ''../../../../vendor/riscv-tests/isa/rv32um'' then [''div'', ''mul''] else []"
  have "list_all (listed sample_shell ?names) suites" by code_simp
  then have "\<exists>txt. gen_testlist sample_shell id (Some []) ''riscv-tests'' = Some txt \<and>
    tests_in (read_entries txt) =
      map (\<lambda>t. (hw_test t, Some (hw_srcs t), Some (hw_config t))) handwritten_tests @
      concat (map (suite_tests ?names id)
        (filter (\<lambda>sd. ''riscv-tests'' = ''all'' \<or> fst sd \<in> set (split_chr CHR '','' ''riscv-tests'')) suites)) \<and>
    configs_in (read_entries txt) = map fst suites"
    by (rule generated_tests_read_back) simp
  moreover have "concat (map (suite_tests ?names id)
        (filter (\<lambda>sd. ''riscv-tests'' = ''all'' \<or> fst sd \<in> set (split_chr CHR '','' ''riscv-tests'')) suites)) =
      [(''div'', Some ''../../../../vendor/riscv-tests/isa/rv32um/div.S'', Some ''riscv-tests''),
       (''mul'', Some ''../../../../vendor/riscv-tests/isa/rv32um/mul.S'', Some ''riscv-tests'')]"
    by code_simp
  ultimately show ?thesis by (simp only:) blast
qed

end
