(* ===== verification/Build_Coverage.thy ===== *)
theory Build_Coverage
  imports Instr_Gen
begin

text \<open>
  \<open>dv/uvm/core_ibex/scripts/compile_tb.py\<close>, building the testbench, and \<open>merge_cov.py\<close>, merging the
  coverage of the runs; \<open>render_config_template.py\<close>, a file of the build made from the configuration.
  What \<open>pkg-config\<close> prints, the coverage databases found and how commands end
  are parameters; log output is left out.
\<close>

subsection \<open>Flags of the instruction set simulator\<close>

datatype tb_error =
    PkgFailed | TbShlex shlex_error | TbEnv string | TbNoPackages | TbCmd cmd_error | TbTool tool_error

definition rpath_prefix :: string where
  "rpath_prefix = ''-Wl,-rpath,''"

definition fixup_xcelium_rpath_token :: "string \<Rightarrow> string \<Rightarrow> string" where
  "fixup_xcelium_rpath_token sim t =
     (if sim = ''xlm'' \<and> starts_with rpath_prefix t
      then ''-Wld,-Xlinker,-rpath,'' @
           py_join '','' (map (\<lambda>p. ''-Xlinker,'' @ p) (split_chr CHR '','' (drop (length rpath_prefix) t)))
      else t)"

text \<open>\<open>pkg\<close> is the output of a \<open>pkg-config\<close> call, \<open>None\<close> if it fails.\<close>

definition get_iss_pkgconfig_flags ::
    "(string list \<Rightarrow> string option) \<Rightarrow> string list \<Rightarrow> string list \<Rightarrow> string \<Rightarrow> tb_error + string" where
  "get_iss_pkgconfig_flags pkg specifiers iss_pc sim =
     res_bind (res_map (\<lambda>s. case pkg ([''pkg-config'', s] @ iss_pc) of
         None \<Rightarrow> Inl PkgFailed
       | Some out \<Rightarrow> res_bind (res_err TbShlex (shlex_split (py_strip out)))
           (\<lambda>ts. Inr (map (fixup_xcelium_rpath_token sim) ts))) specifiers) (\<lambda>tss.
       Inr (py_join '' '' (map shlex_quote (concat tss))))"

subsection \<open>The testbench\<close>

definition spike_iss_pc :: "string list" where
  "spike_iss_pc = [''riscv-riscv'', ''riscv-disasm'', ''riscv-fdt'', ''riscv-fesvr'']"

definition iss_pkgconfig_dict :: "(string, string list) dict" where
  "iss_pkgconfig_dict =
     [(''ISS_CFLAGS'', [''--cflags'']), (''ISS_LDFLAGS'', [''--libs-only-other'']),
      (''ISS_LIBS'', [''--libs-only-l'', ''--libs-only-L''])]"

definition debug_module_opts :: string where
  "debug_module_opts =
     '' +define+DM_ADDR=1A11_0000 '' @ '' +define+DM_ADDR_MASK=0000_0FFF'' @ '' +define+BOOT_ADDR=8000_0000 '' @
     '' +define+DEBUG_MODE_HALT_ADDR=8000_0000 '' @ '' +define+DEBUG_MODE_EXCEPTION_ADDR=8000_0008 ''"

definition tb_subst :: "os_env \<Rightarrow> regression_metadata \<Rightarrow> string \<Rightarrow> (string, string) dict \<Rightarrow> (string, string) dict" where
  "tb_subst os md cmp_opts flags =
     (let r = (\<lambda>p. path_str (os_resolve os p)) in
      fold (\<lambda>(k, v) d. dset k v d) flags
        [(''core_ibex'', r (CORE_IBEX (md_project md))), (''tb_dir'', r (dir_tb (dirs md))),
         (''tb_build_log'', r (pdiv (dir_tb (dirs md)) ''compile_tb.log'')),
         (''cmp_opts'', cmp_opts @ debug_module_opts),
         (''dir_shared_cov'', if cov md then r (dir_shared_cov (dirs md)) else []),
         (''xlm_cov_cfg_file'', path_str (ot_xcelium_cov_scripts (ctl_files md)) @ ''/cover.ccf''),
         (''dut_cov_rtl_path'', dut_cov_rtl_path md)])"

definition required_env :: "string list" where
  "required_env = [''PRJ_DIR'', ''LOWRISC_IP_DIR'']"

text \<open>Run until a command fails; its code is the result.\<close>

definition compile_tb ::
    "os_env \<Rightarrow> (string list \<Rightarrow> string option) \<Rightarrow> regression_metadata \<Rightarrow> tb_error + regression_metadata \<times> int" where
  "compile_tb os pkg md =
     (case find_first (\<lambda>v. dget (os_environ os) v = None) required_env of
        Some v \<Rightarrow> Inl (TbEnv v)
      | None \<Rightarrow>
          if pkg ([''pkg-config'', ''--exists''] @ spike_iss_pc) = None then Inl TbNoPackages
          else
            res_bind (res_map (\<lambda>(k, v). res_bind (get_iss_pkgconfig_flags pkg v spike_iss_pc (simulator md))
                (\<lambda>s. Inr (k, s))) iss_pkgconfig_dict) (\<lambda>flags.
            res_bind (res_err TbCmd (get_compile_opts (os_config_cmd os) (path_str (IBEX_ROOT (md_project md)))
                (md_ibex_config md) (simulator md))) (\<lambda>cmp_opts.
            res_bind (res_err TbTool (get_tool_cmds (os_environ os) (os_yaml os)
                (path_str (ibex_riscvdv_simulator_yaml (ctl_files md))) (simulator md) ''compile''
                [(''cov_opts'', cov md), (''wave_opts'', waves md), (''cosim_opts'', True)]
                (tb_subst os md cmp_opts flags))) (\<lambda>cmds.
              Inr (md\<lparr>phase := (phase md)\<lparr>tb_build_log := Some (pdiv (dir_tb (dirs md)) ''compile_tb.log''),
                        tb_build_stdout := Some (pdiv (dir_tb (dirs md)) ''compile_tb_stdstreams.log''),
                        tb_build_cmds := Some cmds\<rparr>\<rparr>,
                   run_in_order os cmds)))))"

subsection \<open>Coverage\<close>

text \<open>The databases found are a list without repetitions; Python keeps them in a set, whose order is
  unspecified. Where none is found the function returns 1 instead of a set.\<close>

datatype cov_dbs = OneInstead | Dbs "path list"

definition find_cov_dbs :: "(string \<Rightarrow> path list) \<Rightarrow> string \<Rightarrow> cov_dbs" where
  "find_cov_dbs glob sim =
     (let found = (if sim = ''xlm'' then glob ''**/*.ucd'' else if sim = ''vcs'' then glob ''**/test.vdb'' else [])
      in if found = [] then OneInstead else Dbs (remdups found))"

datatype cov_error = CovType | CovAttribute

definition merge_vcs_cmd :: "regression_metadata \<Rightarrow> path list \<Rightarrow> string list" where
  "merge_vcs_cmd md dbs =
     (let d = dir_cov (dirs md) in
      [''urg'', ''-full64'', ''-format'', ''both'', ''-dbname'', path_str (pdiv d ''merged.vdb''),
       ''-report'', path_str (pdiv d ''report''), ''-log'', path_str (pdiv d ''merge.log''), ''-dir''] @ map path_str dbs)"

definition merge_cov_vcs :: "os_env \<Rightarrow> regression_metadata \<Rightarrow> cov_dbs \<Rightarrow> (cov_error + int) \<times> regression_metadata" where
  "merge_cov_vcs os md dbs =
     (case dbs of
        OneInstead \<Rightarrow> (Inl CovType, md)
      | Dbs ps \<Rightarrow>
          (let cmd = merge_vcs_cmd md ps; d = dir_cov (dirs md)
           in (Inr (exit_code os cmd),
               md\<lparr>phase := (phase md)\<lparr>cov_merge_log := Some (pdiv d ''merge.log''),
                     cov_merge_stdout := Some (pdiv d ''merge.log.stdout''), cov_merge_cmds := Some [cmd]\<rparr>\<rparr>)))"

definition imc_cmd :: "string list" where
  "imc_cmd = [''imc'', ''-64bit'', ''-licqueue'']"

definition xlm_merge_cmd :: "regression_metadata \<Rightarrow> string list" where
  "xlm_merge_cmd md =
     (let scripts = pdiv (pdiv (pdiv (OT_LOWRISC_IP (md_project md)) ''dv'') ''tools'') ''xcelium''
      in imc_cmd @ [''-exec'', path_str (pdiv scripts ''cov_merge.tcl''),
                    ''-logfile'', path_str (pdiv (dir_cov (dirs md)) ''merge.log'')])"

definition xlm_report_cmd :: "regression_metadata \<Rightarrow> string list" where
  "xlm_report_cmd md =
     (let scripts = pdiv (pdiv (pdiv (OT_LOWRISC_IP (md_project md)) ''dv'') ''tools'') ''xcelium''
      in imc_cmd @ [''-load'', path_str (dir_cov_merged (dirs md)),
                    ''-init'', path_str (pdiv (pdiv (CORE_IBEX (md_project md)) ''waivers'') ''coverage_waivers_xlm.tcl''),
                    ''-exec'', path_str (pdiv scripts ''cov_report.tcl''),
                    ''-logfile'', path_str (pdiv (dir_cov (dirs md)) ''report.log'')])"

definition xlm_phase :: "regression_metadata \<Rightarrow> md_phase" where
  "xlm_phase md =
     (let d = dir_cov (dirs md)
      in (phase md)\<lparr>cov_merge_db_list := Some (pdiv d ''cov_db_runfile''), cov_merge_log := Some (pdiv d ''merge.log''),
           cov_merge_stdout := Some (pdiv d ''merge.log.stdout''), cov_merge_cmds := Some [xlm_merge_cmd md],
           cov_report_log := Some (pdiv d ''report.log''), cov_report_stdout := Some (pdiv d ''report.log.stdout''),
           cov_report_cmds := Some [xlm_report_cmd md]\<rparr>)"

text \<open>The file with the databases, one directory per line; the metadata is written before the
  databases are looked at. The report is made only if the merge succeeds.\<close>

definition merge_cov_xlm ::
    "os_env \<Rightarrow> regression_metadata \<Rightarrow> cov_dbs \<Rightarrow> (cov_error + int \<times> string) \<times> regression_metadata" where
  "merge_cov_xlm os md dbs =
     (let md' = md\<lparr>phase := xlm_phase md\<rparr> in
      case dbs of
        OneInstead \<Rightarrow> (Inl CovType, md')
      | Dbs ps \<Rightarrow>
          (let runfile = py_join [newline] (map (\<lambda>d. path_str (parent d)) ps) @ [newline];
               merge_ret = exit_code os (xlm_merge_cmd md)
           in (Inr (if merge_ret \<noteq> 0 then merge_ret else exit_code os (xlm_report_cmd md), runfile), md')))"

text \<open>For any other simulator the message of the exception is built from an argument that does not
  exist: an \<open>AttributeError\<close> in place of the \<open>ValueError\<close>.\<close>

definition merge_cov :: "os_env \<Rightarrow> (string \<Rightarrow> path list) \<Rightarrow> regression_metadata \<Rightarrow> (cov_error + int) \<times> regression_metadata" where
  "merge_cov os glob md =
     (if simulator md \<notin> {''xlm'', ''vcs''} then (Inl CovAttribute, md)
      else let dbs = find_cov_dbs glob (simulator md) in
        if simulator md = ''vcs'' then merge_cov_vcs os md dbs
        else (case merge_cov_xlm os md dbs of (r, md') \<Rightarrow> (res_bind r (\<lambda>(c, _). Inr c), md')))"

subsection \<open>Rendering a template\<close>

text \<open>A template of mako is a function of the parameters of the configuration; \<open>None\<close> if its file
  cannot be read. The metadata is only read.\<close>

datatype render_error = TemplateMissing string | RenderConfig parse_error

definition render_template ::
    "(string \<Rightarrow> load_result) \<Rightarrow> string \<Rightarrow> (string \<Rightarrow> ((string, yval) dict \<Rightarrow> string) option) \<Rightarrow>
     string \<Rightarrow> string \<Rightarrow> render_error + string" where
  "render_template load ibex_root template config_name template_filename =
     res_bind (res_of_option (TemplateMissing template_filename) (template template_filename)) (\<lambda>render.
     res_bind (res_err RenderConfig (get_config load ibex_root config_name)) (\<lambda>cfg.
       Inr (render (params cfg))))"

definition render_main ::
    "(string \<Rightarrow> load_result) \<Rightarrow> (string \<Rightarrow> ((string, yval) dict \<Rightarrow> string) option) \<Rightarrow> regression_metadata \<Rightarrow>
     string \<Rightarrow> render_error + string" where
  "render_main load template md template_filename =
     res_bind (render_template load (path_str (IBEX_ROOT (md_project md))) template (md_ibex_config md) template_filename)
       (\<lambda>s. Inr (s @ [newline]))"

subsection \<open>Lemmas\<close>

text \<open>Flags reach the command as the shell words they are: quoted, joined and split again they are the
  tokens of \<open>pkg-config\<close>, with the paths of Xcelium reformatted.\<close>

lemma pkgconfig_words:
  assumes "get_iss_pkgconfig_flags pkg specifiers iss_pc sim = Inr flags"
  shows "\<exists>tss. length tss = length specifiers \<and>
    shlex_split flags = Inr (map (fixup_xcelium_rpath_token sim) (concat tss)) \<and>
    (\<forall>i<length specifiers. \<exists>out. pkg ([''pkg-config'', specifiers ! i] @ iss_pc) = Some out \<and>
       shlex_split (py_strip out) = Inr (tss ! i))"
proof -
  let ?one = "\<lambda>s. case pkg ([''pkg-config'', s] @ iss_pc) of
      None \<Rightarrow> Inl PkgFailed
    | Some out \<Rightarrow> res_bind (res_err TbShlex (shlex_split (py_strip out)))
        (\<lambda>ts. Inr (map (fixup_xcelium_rpath_token sim) ts))"
  from assms obtain uss where u: "res_map ?one specifiers = Inr uss"
    and f: "flags = py_join '' '' (map shlex_quote (concat uss))"
    unfolding get_iss_pkgconfig_flags_def by (auto elim: res_bindE)
  from u have l: "length specifiers = length uss" and e: "\<forall>i<length specifiers. ?one (specifiers ! i) = Inr (uss ! i)"
    unfolding res_map_eq_Inr list_all2_conv_all_nth by auto
  from e have "\<forall>i<length specifiers. \<exists>out ts. pkg ([''pkg-config'', specifiers ! i] @ iss_pc) = Some out \<and>
      shlex_split (py_strip out) = Inr ts \<and> uss ! i = map (fixup_xcelium_rpath_token sim) ts"
    by (fastforce split: option.splits elim: res_bindE)
  then obtain ts where t: "\<forall>i<length specifiers. \<exists>out. pkg ([''pkg-config'', specifiers ! i] @ iss_pc) = Some out \<and>
      shlex_split (py_strip out) = Inr (ts i) \<and> uss ! i = map (fixup_xcelium_rpath_token sim) (ts i)"
    by metis
  let ?tss = "map ts [0..<length specifiers]"
  have "uss = map (map (fixup_xcelium_rpath_token sim)) ?tss"
    using t l by (intro nth_equalityI) auto
  then have "concat uss = map (fixup_xcelium_rpath_token sim) (concat ?tss)" by (simp only: map_concat)
  then have "shlex_split flags = Inr (map (fixup_xcelium_rpath_token sim) (concat ?tss))"
    by (simp only: f shlex_split_join)
  then show ?thesis using t by (intro exI [of _ ?tss]) auto
qed

text \<open>Without a database the merge raises, for both simulators; for Xcelium the metadata then already
  names a report that is never made.\<close>

lemma merge_without_dbs:
  assumes "\<And>pattern. glob pattern = []" "simulator md \<in> {''xlm'', ''vcs''}"
  shows "fst (merge_cov os glob md) = Inl CovType"
    and "simulator md = ''xlm'' \<Longrightarrow> cov_report_log (phase (snd (merge_cov os glob md))) \<noteq> None"
  using assms by (auto simp: merge_cov_def find_cov_dbs_def merge_cov_vcs_def merge_cov_xlm_def xlm_phase_def Let_def)

end
