(* ===== verification/Smt2_Manip.thy ===== *)
theory Smt2_Manip
  imports Py_Str
begin

text \<open>
  \<open>dv/formal/smt2manip.py\<close>: selecting the properties of one step in an SMT2 file of yosys. The
  properties of earlier steps become assumptions, those of later steps and the cover properties
  are dropped, and the rest stays to be proved. The text read is the parameter; the lines the
  script prints are left out.
\<close>

datatype smt2_error = NotAStep | NoStepName | BadStepNumber

datatype smt2_choice = DeleteIt | AssumeIt | KeepIt

subsection \<open>The three kinds of line\<close>

definition assert_prefix :: string where
  "assert_prefix = ''; yosys-smt2-assert ''"

definition assert_match :: "string \<Rightarrow> (string \<times> string) option" where
  "assert_match line =
     (let r = drop (length assert_prefix) line;
          ident = takeWhile is_digit r; r' = dropWhile is_digit r;
          name = takeWhile (\<lambda>c. c \<noteq> CHR '' '') (tl r')
      in if starts_with assert_prefix line \<and> ident \<noteq> [] \<and> starts_with '' '' r' \<and> name \<noteq> []
         then Some (ident, name) else None)"

definition state_prefix :: string where
  "state_prefix = ''  (|top_a ''"

definition state_match :: "string \<Rightarrow> string option" where
  "state_match line =
     (let r = drop (length state_prefix) line; ident = takeWhile is_digit r
      in if starts_with state_prefix line \<and> ident \<noteq> [] \<and> starts_with ''| state)'' (dropWhile is_digit r)
         then Some ident else None)"

definition define_line :: string where
  "define_line = ''(define-fun |top_u| ((state |top_s|)) Bool (and''"

definition assume_line :: "string \<Rightarrow> string" where
  "assume_line ident = state_prefix @ ident @ ''| state)''"

subsection \<open>What becomes of a property\<close>

text \<open>The step and the name of a property, read from what follows the first six characters of its
  instance name, up to a dollar sign.\<close>

definition step_and_name :: "string \<Rightarrow> smt2_error + int \<times> string" where
  "step_and_name inst =
     (let name = takeWhile (\<lambda>c. c \<noteq> CHR ''$'') (drop 6 inst)
      in if \<not> starts_with ''Step'' name then Inl NotAStep
         else case split_once CHR ''_'' name of
             None \<Rightarrow> Inl NoStepName
           | Some (step, name') \<Rightarrow> (case py_int 10 (drop 4 step) of
               None \<Rightarrow> Inl BadStepNumber
             | Some k \<Rightarrow> Inr (k, name')))"

definition choice_of :: "int \<Rightarrow> string list \<Rightarrow> int \<times> string \<Rightarrow> smt2_choice" where
  "choice_of n props p =
     (let (k, name) = p
      in if ends_with ''_Cover'' name \<or> k > n \<or> k = n \<and> props \<noteq> [] \<and> name \<notin> set props then DeleteIt
         else if k < n then AssumeIt else KeepIt)"

subsection \<open>The loop over the lines\<close>

record smt2_state =
  mapped :: "string list"
  to_assume :: "string list"
  to_delete :: "string list"

definition smt2_line :: "int \<Rightarrow> string list \<Rightarrow> smt2_state \<Rightarrow> string \<Rightarrow> smt2_error + smt2_state" where
  "smt2_line n props st line =
     (let kept = st\<lparr>mapped := mapped st @ [line]\<rparr> in
      case assert_match line of
        Some (ident, inst) \<Rightarrow> res_bind (step_and_name inst) (\<lambda>p. Inr (case choice_of n props p of
            DeleteIt \<Rightarrow> kept\<lparr>to_delete := to_delete st @ [ident]\<rparr>
          | AssumeIt \<Rightarrow> kept\<lparr>to_assume := to_assume st @ [ident]\<rparr>
          | KeepIt \<Rightarrow> kept))
      | None \<Rightarrow> Inr (case state_match line of
          Some ident \<Rightarrow> if ident \<in> set (to_assume st) \<or> ident \<in> set (to_delete st) then st else kept
        | None \<Rightarrow>
            if line = define_line
            then st\<lparr>mapped := mapped st @ [line] @ map assume_line (to_assume st)\<rparr>
            else kept))"

definition smt2manip :: "int \<Rightarrow> string list \<Rightarrow> string \<Rightarrow> smt2_error + string" where
  "smt2manip n props text =
     res_bind (res_fold (smt2_line n props) \<lparr>mapped = [], to_assume = [], to_delete = []\<rparr>
         (split_chr newline text)) (\<lambda>st.
       Inr (py_join [newline] (mapped st)))"

subsection \<open>A reference definition\<close>

text \<open>What becomes of a line, given only the lines before it.\<close>

definition chosen :: "int \<Rightarrow> string list \<Rightarrow> smt2_choice \<Rightarrow> string \<Rightarrow> string option" where
  "chosen n props c line = (case assert_match line of
     None \<Rightarrow> None
   | Some (ident, inst) \<Rightarrow> (case step_and_name inst of
       Inl e \<Rightarrow> None
     | Inr p \<Rightarrow> if choice_of n props p = c then Some ident else None))"

definition chosen_ids :: "int \<Rightarrow> string list \<Rightarrow> smt2_choice \<Rightarrow> string list \<Rightarrow> string list" where
  "chosen_ids n props c ls = List.map_filter (chosen n props c) ls"

definition line_readable :: "string \<Rightarrow> bool" where
  "line_readable line = (case assert_match line of
     None \<Rightarrow> True | Some (ident, inst) \<Rightarrow> (case step_and_name inst of Inl e \<Rightarrow> False | Inr p \<Rightarrow> True))"

definition line_after :: "int \<Rightarrow> string list \<Rightarrow> string list \<Rightarrow> string \<Rightarrow> string list" where
  "line_after n props before line =
     (case (assert_match line, state_match line) of
        (None, Some ident) \<Rightarrow>
          if ident \<in> set (chosen_ids n props AssumeIt before) \<or> ident \<in> set (chosen_ids n props DeleteIt before)
          then [] else [line]
      | (None, None) \<Rightarrow>
          if line = define_line then line # map assume_line (chosen_ids n props AssumeIt before) else [line]
      | _ \<Rightarrow> [line])"

definition smt2_reference :: "int \<Rightarrow> string list \<Rightarrow> string list \<Rightarrow> string list" where
  "smt2_reference n props ls = concat (map (\<lambda>i. line_after n props (take i ls) (ls ! i)) [0..<length ls])"

lemma chosen_ids_snoc:
  "chosen_ids n props c (ls @ [line]) = chosen_ids n props c ls @ (case chosen n props c line of None \<Rightarrow> [] | Some i \<Rightarrow> [i])"
  by (simp add: chosen_ids_def List.map_filter_def split: option.split)

lemma smt2_reference_snoc:
  "smt2_reference n props (ls @ [line]) = smt2_reference n props ls @ line_after n props ls line"
  by (auto simp: smt2_reference_def nth_append intro!: arg_cong [where f = concat])

lemma smt2_line_snoc:
  "smt2_line n props \<lparr>mapped = smt2_reference n props ls, to_assume = chosen_ids n props AssumeIt ls,
       to_delete = chosen_ids n props DeleteIt ls\<rparr> line = Inr st \<longleftrightarrow>
   line_readable line \<and> st = \<lparr>mapped = smt2_reference n props (ls @ [line]),
       to_assume = chosen_ids n props AssumeIt (ls @ [line]), to_delete = chosen_ids n props DeleteIt (ls @ [line])\<rparr>"
proof (cases "assert_match line")
  case None
  then show ?thesis
    by (cases "state_match line")
      (auto simp: smt2_line_def line_readable_def chosen_ids_snoc smt2_reference_snoc line_after_def chosen_def Let_def)
next
  case (Some m)
  obtain i inst where m: "m = (i, inst)" by (cases m)
  show ?thesis
  proof (cases "step_and_name inst")
    case (Inl e)
    then show ?thesis by (simp add: smt2_line_def line_readable_def Some m Let_def)
  next
    case (Inr p)
    then show ?thesis
      by (cases "choice_of n props p")
        (auto simp: smt2_line_def line_readable_def chosen_ids_snoc smt2_reference_snoc line_after_def chosen_def
          Some m Let_def)
  qed
qed

lemma smt2_fold:
  "res_fold (smt2_line n props) \<lparr>mapped = [], to_assume = [], to_delete = []\<rparr> ls = Inr st \<longleftrightarrow>
   (\<forall>line\<in>set ls. line_readable line) \<and>
   st = \<lparr>mapped = smt2_reference n props ls, to_assume = chosen_ids n props AssumeIt ls,
         to_delete = chosen_ids n props DeleteIt ls\<rparr>"
proof (induction ls arbitrary: st rule: rev_induct)
  case Nil
  then show ?case by (auto simp: smt2_reference_def chosen_ids_def List.map_filter_def)
next
  case (snoc line ls)
  show ?case by (auto simp: res_fold_append res_bind_eq_Inr snoc.IH smt2_line_snoc)
qed

text \<open>The one pass with its two growing lists does what a definition that looks at each line
  and the lines before it does: the run ends well exactly if every assertion comment can be
  read, and then a comment stays, the condition of an assertion goes if an earlier comment of
  its number is of an earlier step or is dropped, and the state constraint receives one
  condition per earlier property, in the order of the comments.\<close>

lemma smt2manip_positionwise:
  "smt2manip n props text = Inr out \<longleftrightarrow>
     list_all line_readable (split_chr newline text) \<and>
     out = py_join [newline] (smt2_reference n props (split_chr newline text))"
  by (auto simp: smt2manip_def res_bind_eq_Inr smt2_fold list_all_iff)

lemma set_chosen_ids: "i \<in> set (chosen_ids n props c ls) \<longleftrightarrow> (\<exists>line\<in>set ls. chosen n props c line = Some i)"
  unfolding chosen_ids_def by (induction ls) (auto simp: List.map_filter_simps split: option.split)

lemma choice_assume: "choice_of n props (k, name) = AssumeIt \<longleftrightarrow> \<not> ends_with ''_Cover'' name \<and> k < n"
  by (auto simp: choice_of_def)

lemma choice_keep: "choice_of n [] (k, name) = KeepIt \<longleftrightarrow> \<not> ends_with ''_Cover'' name \<and> k = n"
  by (auto simp: choice_of_def)

lemma chosen_assume:
  "chosen n props AssumeIt line = Some i \<longleftrightarrow> (\<exists>k<n. chosen k [] KeepIt line = Some i)"
  unfolding chosen_def
  by (cases "assert_match line"; cases "step_and_name (snd (the (assert_match line)))")
    (auto simp: choice_assume choice_keep split: if_split_asm)

text \<open>No circularity: what a step assumes is exactly what the earlier steps, run on the same file
  with all their properties, have to prove.\<close>

lemma assumed_are_proved_before:
  "set (chosen_ids n props AssumeIt ls) = (\<Union>k\<in>{..<n}. set (chosen_ids k [] KeepIt ls))"
  unfolding set_eq_iff UN_iff set_chosen_ids chosen_assume lessThan_iff by blast

subsection \<open>The file as yosys writes it\<close>

text \<open>
  The lines by what they say: the comment of an assertion with its number, the six characters
  before the step, the step, the property's name and what follows, the condition of an assertion
  within the constraint, the line that opens the constraint on the state, and any other.
\<close>

datatype smt2_item =
    AssertComment string string nat string string string
  | Condition string string
  | Define
  | Other string

fun item_line :: "smt2_item \<Rightarrow> string" where
  "item_line (AssertComment ident pre k name post rest) =
     ''; yosys-smt2-assert '' @ ident @ '' '' @ pre @ ''Step'' @ nat_repr 10 k @ ''_'' @ name @ post @ rest"
| "item_line (Condition ident rest) = ''  (|top_a '' @ ident @ ''| state)'' @ rest"
| "item_line Define = ''(define-fun |top_u| ((state |top_s|)) Bool (and''"
| "item_line (Other line) = line"

definition digits :: "string \<Rightarrow> bool" where
  "digits ident \<longleftrightarrow> ident \<noteq> [] \<and> list_all is_digit ident"

text \<open>What follows the name starts with a dollar sign, what follows the instance with a blank; the
  lines that are none of the three kinds do not begin as those do.\<close>

fun item_ok :: "smt2_item \<Rightarrow> bool" where
  "item_ok (AssertComment ident pre k name post rest) \<longleftrightarrow>
     digits ident \<and> length pre = 6 \<and> CHR '' '' \<notin> set (pre @ name @ post) \<and> CHR ''$'' \<notin> set name \<and>
     (post = [] \<or> hd post = CHR ''$'') \<and> (rest = [] \<or> hd rest = CHR '' '') \<and>
     newline \<notin> set (pre @ name @ post @ rest)"
| "item_ok (Condition ident rest) \<longleftrightarrow> digits ident \<and> newline \<notin> set rest"
| "item_ok Define \<longleftrightarrow> True"
| "item_ok (Other line) \<longleftrightarrow> newline \<notin> set line \<and> \<not> starts_with ''; yosys-smt2-assert '' line \<and>
     \<not> starts_with ''  (|top_a '' line \<and> line \<noteq> ''(define-fun |top_u| ((state |top_s|)) Bool (and''"

text \<open>Whether a comment takes the condition of an assertion away: unless it is of the step, no
  cover property and selected.\<close>

definition removes :: "int \<Rightarrow> string list \<Rightarrow> string \<Rightarrow> smt2_item \<Rightarrow> bool" where
  "removes n props ident it = (case it of
     AssertComment ident' _ k name _ _ \<Rightarrow> ident' = ident \<and>
       \<not> (int k = n \<and> \<not> ends_with ''_Cover'' name \<and> (props = [] \<or> name \<in> set props))
   | _ \<Rightarrow> False)"

text \<open>What a comment adds to the constraint on the state: its condition, if it is of an earlier
  step and no cover property.\<close>

definition assumption :: "int \<Rightarrow> smt2_item \<Rightarrow> string list" where
  "assumption n it = (case it of
     AssertComment ident _ k name _ _ \<Rightarrow>
       if int k < n \<and> \<not> ends_with ''_Cover'' name then [''  (|top_a '' @ ident @ ''| state)''] else []
   | _ \<Rightarrow> [])"

text \<open>What becomes of a line, given those before it.\<close>

fun item_out :: "int \<Rightarrow> string list \<Rightarrow> smt2_item list \<Rightarrow> smt2_item \<Rightarrow> string list" where
  "item_out n props before (Condition ident rest) =
     (if list_ex (removes n props ident) before then [] else [item_line (Condition ident rest)])"
| "item_out n props before Define = item_line Define # concat (map (assumption n) before)"
| "item_out n props before it = [item_line it]"

lemma digits_take: "digits ident \<Longrightarrow> \<not> is_digit c \<Longrightarrow>
    takeWhile is_digit (ident @ c # r) = ident \<and> dropWhile is_digit (ident @ c # r) = c # r"
  by (auto simp: digits_def list_all_iff takeWhile_append2 dropWhile_append2)

lemma takeWhile_upto:
  "a \<notin> set w \<Longrightarrow> rest = [] \<or> hd rest = a \<Longrightarrow> takeWhile (\<lambda>c. c \<noteq> a) (w @ rest) = w"
  by (induction w) (cases rest; auto)+

lemma assert_match_comment:
  assumes "digits ident" "CHR '' '' \<notin> set w" "w \<noteq> []" "rest = [] \<or> hd rest = CHR '' ''"
  shows "assert_match (''; yosys-smt2-assert '' @ ident @ '' '' @ w @ rest) = Some (ident, w)"
proof -
  have nd: "\<not> is_digit CHR '' ''" by (simp add: is_digit_def)
  from digits_take [OF assms(1) nd, of "w @ rest"] assms(1,3) show ?thesis
    by (simp add: assert_match_def assert_prefix_def Let_def takeWhile_upto [OF assms(2,4)] digits_def)
qed

lemma state_match_condition:
  "digits ident \<Longrightarrow> state_match (''  (|top_a '' @ ident @ ''| state)'' @ rest) = Some ident"
  using digits_take [of ident "CHR ''|''" "'' state)'' @ rest"]
  by (simp add: state_match_def state_prefix_def Let_def is_digit_def digits_def)

lemma nat_repr_no: "\<not> is_digit c \<Longrightarrow> c \<notin> set (nat_repr 10 k)"
  by (auto dest: nat_repr_digits)

lemma step_and_name_comment:
  assumes "length pre = 6" "CHR ''$'' \<notin> set name" "post = [] \<or> hd post = CHR ''$''"
  shows "step_and_name (pre @ ''Step'' @ nat_repr 10 k @ ''_'' @ name @ post) = Inr (int k, name)"
proof -
  let ?m = "''Step'' @ nat_repr 10 k @ ''_'' @ name"
  have dg: "CHR ''$'' \<notin> set (nat_repr 10 k)" "CHR ''_'' \<notin> set (''Step'' @ nat_repr 10 k)"
    by (simp_all add: nat_repr_no is_digit_def)
  have d6: "drop 6 (pre @ ?m @ post) = ?m @ post" using assms(1) by simp
  have tk: "takeWhile (\<lambda>c. c \<noteq> CHR ''$'') (?m @ post) = ?m"
    using assms(2,3) dg(1) by (intro takeWhile_upto) auto
  have "split_once CHR ''_'' ((''Step'' @ nat_repr 10 k) @ CHR ''_'' # name) = Some (''Step'' @ nat_repr 10 k, name)"
    using dg(2) by (rule split_once_append)
  moreover have "py_int 10 (nat_repr 10 k) = Some (int k)"
    using py_int_int_str [of k] by (simp add: int_str_def)
  ultimately show ?thesis
    using tk d6 by (simp add: step_and_name_def)
qed

lemma item_matches:
  assumes "item_ok it"
  shows "(case it of
      AssertComment ident pre k name post rest \<Rightarrow>
        assert_match (item_line it) = Some (ident, pre @ ''Step'' @ nat_repr 10 k @ ''_'' @ name @ post) \<and>
        step_and_name (pre @ ''Step'' @ nat_repr 10 k @ ''_'' @ name @ post) = Inr (int k, name)
    | Condition ident rest \<Rightarrow> assert_match (item_line it) = None \<and> state_match (item_line it) = Some ident
    | _ \<Rightarrow> assert_match (item_line it) = None \<and> state_match (item_line it) = None) \<and>
    (case it of Other line \<Rightarrow> line \<noteq> define_line | _ \<Rightarrow> True) \<and> newline \<notin> set (item_line it)"
  using assms
proof (cases it)
  case (AssertComment ident pre k name post rest)
  have nosp: "CHR '' '' \<notin> set (nat_repr 10 k)" "newline \<notin> set (nat_repr 10 k)"
    by (simp_all add: nat_repr_no is_digit_def)
  have "newline \<notin> set ident" using assms by (auto simp: AssertComment digits_def list_all_iff is_digit_def)
  with assms nosp assert_match_comment [of ident "pre @ ''Step'' @ nat_repr 10 k @ ''_'' @ name @ post" rest]
    step_and_name_comment [of pre name post k]
  show ?thesis by (simp add: AssertComment)
next
  case (Condition ident rest)
  have "newline \<notin> set ident" using assms by (auto simp: Condition digits_def list_all_iff is_digit_def)
  with assms show ?thesis
    by (simp add: Condition state_match_condition [simplified] assert_match_def assert_prefix_def Let_def)
next
  case Define
  then show ?thesis by (simp add: assert_match_def assert_prefix_def state_match_def state_prefix_def Let_def)
next
  case (Other line)
  with assms show ?thesis
    by (simp add: assert_match_def assert_prefix_def state_match_def state_prefix_def Let_def define_line_def)
qed

definition is_choice :: "int \<Rightarrow> string list \<Rightarrow> smt2_choice \<Rightarrow> smt2_item \<Rightarrow> string list" where
  "is_choice n props c it = (case it of
     AssertComment ident _ k name _ _ \<Rightarrow> if choice_of n props (int k, name) = c then [ident] else []
   | _ \<Rightarrow> [])"

lemma chosen_ids_items:
  "list_all item_ok items \<Longrightarrow>
   chosen_ids n props c (map item_line items) = concat (map (is_choice n props c) items)"
proof (induction items)
  case Nil
  then show ?case by (simp add: chosen_ids_def List.map_filter_simps)
next
  case (Cons it items)
  from Cons.prems item_matches [of it] have "chosen n props c (item_line it) =
      (case is_choice n props c it of [] \<Rightarrow> None | i # _ \<Rightarrow> Some i)"
    by (cases it) (auto simp: chosen_def is_choice_def simp del: item_line.simps)
  with Cons show ?case
    by (cases it) (auto simp: chosen_ids_def List.map_filter_simps is_choice_def simp del: item_line.simps)
qed

lemma removes_chosen:
  "removes n props ident it \<longleftrightarrow>
   ident \<in> set (is_choice n props AssumeIt it) \<or> ident \<in> set (is_choice n props DeleteIt it)"
  by (cases it) (auto simp: is_choice_def choice_of_def removes_def)

lemma assumption_chosen: "assumption n it = map assume_line (is_choice n props AssumeIt it)"
  by (cases it) (auto simp: is_choice_def choice_assume assume_line_def state_prefix_def assumption_def)

lemma line_after_item:
  assumes "list_all item_ok before" "item_ok it"
  shows "line_after n props (map item_line before) (item_line it) = item_out n props before it"
proof (cases it)
  case (Condition ident rest)
  have "(ident \<in> set (chosen_ids n props AssumeIt (map item_line before)) \<or>
      ident \<in> set (chosen_ids n props DeleteIt (map item_line before))) \<longleftrightarrow> list_ex (removes n props ident) before"
    unfolding chosen_ids_items [OF assms(1)] removes_chosen list_ex_iff by auto
  with item_matches [OF assms(2)] show ?thesis
    by (simp add: Condition line_after_def del: item_line.simps)
next
  case Define
  have "map assume_line (chosen_ids n props AssumeIt (map item_line before)) = concat (map (assumption n) before)"
    unfolding chosen_ids_items [OF assms(1)] assumption_chosen [of n _ props]
    by (simp add: map_concat comp_def)
  with item_matches [OF assms(2)] show ?thesis
    by (simp add: Define line_after_def define_line_def)
qed (use item_matches [OF assms(2)] in \<open>simp_all add: line_after_def del: item_line.simps(1-3)\<close>)

subsection \<open>Properties\<close>

text \<open>C35: In a file as yosys writes it, the run keeps all lines except the conditions of the
  assertions whose comment, somewhere before, is of another step, of a cover property, or of a
  property that is not among the selected ones; and to the line that opens the constraint on the
  state it adds one condition for each assertion, in the order of the comments before it, that
  is of an earlier step and no cover property.\<close>

theorem smt2manip_selects:
  assumes "items \<noteq> []" "list_all item_ok items"
  shows "smt2manip n props (py_join [newline] (map item_line items)) =
    Inr (py_join [newline] (concat (map (\<lambda>i. item_out n props (take i items) (items ! i)) [0..<length items])))"
proof -
  let ?ls = "map item_line items"
  have nl: "split_chr newline (py_join [newline] ?ls) = ?ls"
    using assms item_matches by (intro split_join_chr) (auto simp: list_all_iff simp del: item_line.simps)
  have "line_readable (item_line it)" if "item_ok it" for it
    using item_matches [OF that] by (cases it) (simp_all add: line_readable_def del: item_line.simps)
  then have "list_all line_readable ?ls" using assms(2) by (simp add: list_all_iff)
  moreover have "smt2_reference n props ?ls =
      concat (map (\<lambda>i. item_out n props (take i items) (items ! i)) [0..<length items])"
    unfolding smt2_reference_def length_map
  proof (intro arg_cong [where f = concat] map_cong refl)
    fix i assume "i \<in> set [0..<length items]"
    then have i: "i < length items" by simp
    with assms(2) have "item_ok (items ! i)" "list_all item_ok (take i items)"
      by (auto simp: list_all_iff dest: in_set_takeD)
    with i line_after_item [of "take i items" "items ! i" n props]
    show "line_after n props (take i ?ls) (?ls ! i) = item_out n props (take i items) (items ! i)"
      by (simp add: take_map)
  qed
  ultimately show ?thesis by (simp add: smt2manip_positionwise nl)
qed

definition sample_items :: "smt2_item list" where
  "sample_items =
     [AssertComment ''0'' ''top.u.'' 1 ''A'' ''$x'' [], AssertComment ''1'' ''top.u.'' 2 ''B'' [] '' # f'',
      AssertComment ''2'' ''top.u.'' 2 ''C'' ''$y'' [], AssertComment ''3'' ''top.u.'' 3 ''D'' [] [],
      Define, Condition ''0'' [], Condition ''1'' [], Condition ''2'' [], Condition ''3'' [], Other ''))'']"

theorem smt2manip_selects_witness:
  "smt2manip 2 [''B''] (py_join [newline] (map item_line sample_items)) =
   Inr (py_join [newline] (map item_line (take 5 sample_items) @
     [''  (|top_a 0| state)'', ''  (|top_a 1| state)'', ''))'']))"
proof -
  have ok: "list_all item_ok sample_items"
    by (simp add: sample_items_def digits_def is_digit_def)
  have "\<not> ends_with ''_Cover'' ''A''" "\<not> ends_with ''_Cover'' ''B''"
    "\<not> ends_with ''_Cover'' ''C''" "\<not> ends_with ''_Cover'' ''D''"
    by (simp_all add: ends_with_def)
  then have out: "concat (map (\<lambda>i. item_out 2 [''B''] (take i sample_items) (sample_items ! i)) [0..<length sample_items]) =
      map item_line (take 5 sample_items) @ [''  (|top_a 0| state)'', ''  (|top_a 1| state)'', ''))'']"
    by (simp add: sample_items_def upt_rec numeral_eq_Suc removes_def assumption_def)
  have "sample_items \<noteq> []" by (simp add: sample_items_def)
  from smt2manip_selects [OF this ok, of 2 "[''B'']", unfolded out] show ?thesis .
qed

end
