(* ===== verification/Spec_Fixes.thy ===== *)
theory Spec_Fixes
  imports Py_Str
begin

text \<open>
  \<open>dv/formal/spec/fix_bugs.py\<close>: editing the SystemVerilog that the Sail compiler makes of the
  specification, by replacing texts. The two files are read and written in the build directory; a
  file that is missing is an exception.
\<close>

definition pmp_struct :: string where
  "pmp_struct =
     [newline] @ ''typedef struct {'' @ [newline] @ ''    logic [7:0] bits;'' @ [newline] @ ''} t_Pmpcfg_ent;'' @ [newline]"

definition main_result_line :: string where
  "main_result_line = ''        main_result = main(insn_bits, mode);''"

definition init_lines :: "string list" where
  "init_lines =
     [''        wX_sail_invoke_arg_0[0] = 0; wX_sail_invoke_arg_1[0] = 0;'',
      ''        write_ram_sail_invoke_arg_0[0] = Write_plain; write_ram_sail_invoke_arg_0[1] = Write_plain;'',
      ''        write_ram_sail_invoke_arg_1[0] = 0; write_ram_sail_invoke_arg_1[1] = 0;'',
      ''        write_ram_sail_invoke_arg_2[0] = 0; write_ram_sail_invoke_arg_2[1] = 0;'',
      ''        write_ram_sail_invoke_arg_3[0] = 0; write_ram_sail_invoke_arg_3[1] = 0;'',
      ''        read_ram_sail_invoke_arg_0[0] = Read_plain; read_ram_sail_invoke_arg_0[1] = Read_plain;'',
      ''        read_ram_sail_invoke_arg_1[0] = 0; read_ram_sail_invoke_arg_1[1] = 0;'',
      ''        sail_reached_unreachable_loc = 0;'',
      ''        main_result = main(insn_bits, mode); '']"

definition module_head :: string where
  "module_head = ''module sail_ibexspec(''"

definition replacements :: "(string \<times> string) list" where
  "replacements =
     [(pmp_struct, []),
      (''struct {'', ''struct packed {''),
      (''sail_return = sail_internal_pick(zz498);'', ''/* removed */''),
      (''sail_return = sail_internal_pick(zz495);'', ''/* removed */''),
      (main_result_line, py_join [newline] init_lines),
      (''sail_reached_unreachable = 1;'',
       ''if (!sail_reached_unreachable) begin sail_reached_unreachable = 1; sail_reached_unreachable_loc = `__LINE__; end''),
      (module_head, module_head @ [newline] @ ''    output logic sail_reached_unreachable,'' @ [newline] @
         ''    output logic [31:0] sail_reached_unreachable_loc,''),
      (''logic sail_reached_unreachable;'', []),
      (''logic [31:0] sail_reached_unreachable_loc;'', [])]"

definition fix_spec :: "string \<Rightarrow> string" where
  "fix_spec c = fold (\<lambda>(old, new). py_replace old new) replacements c"

definition fix_genlib :: "string \<Rightarrow> string" where
  "fix_genlib c = py_replace ''struct'' ''struct packed'' pmp_struct @ [newline] @ c"

text \<open>The two files afterwards, \<open>Inl\<close> naming the one that cannot be read. The first is written
  before the second is read.\<close>

definition fix_bugs :: "string option \<Rightarrow> string option \<Rightarrow> (string \<times> string option) + string \<times> string" where
  "fix_bugs spec genlib =
     (case spec of
        None \<Rightarrow> Inl (''build/ibexspec.sv'', None)
      | Some c \<Rightarrow> (case genlib of
          None \<Rightarrow> Inl (''build/sail_genlib_ibexspec.sv'', Some (fix_spec c))
        | Some d \<Rightarrow> Inr (fix_spec c, fix_genlib d)))"

text \<open>Replacing a text that begins with a character it does not repeat, by a text that begins with
  the same character, does not repeat it and cannot be mistaken for it, leaves no occurrence.\<close>

lemma replace_keeps_suffix:
  assumes "old = a # p" "new = a # v" "a \<notin> set k"
  shows "starts_with k (py_replace old new s) \<Longrightarrow> starts_with k s"
  using assms(3)
proof (induction s arbitrary: k)
  case Nil
  then show ?case by (simp add: assms(1))
next
  case (Cons c s)
  show ?case
  proof (cases k)
    case (Cons b k')
    with Cons.prems(2) have b: "a \<noteq> b" "a \<notin> set k'" by auto
    show ?thesis
    proof (cases "starts_with old (c # s)")
      case True
      with Cons.prems(1) b Cons assms(1,2) show ?thesis by simp
    next
      case False
      with Cons.prems(1) assms(1) have "starts_with k (c # py_replace old new s)" by (auto split: if_splits)
      with Cons.IH [of k'] b Cons show ?thesis by simp
    qed
  qed simp
qed

lemma no_later_occurrence: "a \<notin> set v \<Longrightarrow> str_in (a # p) (v @ t) \<Longrightarrow> str_in (a # p) t"
  by (induction v) auto

lemma replaced_absent:
  assumes "old = a # p" "new = a # v" "a \<notin> set p" "a \<notin> set v" "\<And>x. \<not> starts_with old (new @ x)"
  shows "\<not> str_in old (py_replace old new s)"
proof (induction "length s" arbitrary: s rule: less_induct)
  case less
  show ?case
  proof (cases s)
    case Nil
    then show ?thesis by (simp add: assms(1))
  next
    case (Cons c r)
    show ?thesis
    proof (cases "starts_with old s")
      case True
      then have eq: "py_replace old new s = new @ py_replace old new (drop (length old) s)"
        using assms(1) Cons by simp
      have "\<not> str_in old (py_replace old new (drop (length old) s))"
        using Cons assms(1) by (intro less) simp
      with assms show ?thesis
        unfolding eq by (metis append_Cons no_later_occurrence str_in.simps(2))
    next
      case False
      then have eq: "py_replace old new s = c # py_replace old new r"
        using assms(1) Cons by auto
      from less [of r] Cons have absent: "\<not> str_in old (py_replace old new r)" by simp
      have "\<not> starts_with old (c # py_replace old new r)"
      proof
        assume "starts_with old (c # py_replace old new r)"
        then have "c = a" "starts_with p (py_replace old new r)" by (auto simp: assms(1))
        with replace_keeps_suffix [OF assms(1,2,3)] False Cons show False by (simp add: assms(1))
      qed
      with absent show ?thesis unfolding eq by simp
    qed
  qed
qed

text \<open>So after the second replacement every struct of the specification is packed.\<close>

lemma structs_packed: "\<not> str_in ''struct {'' (py_replace ''struct {'' ''struct packed {'' s)"
  by (rule replaced_absent [where a = "CHR ''s''" and p = "''truct {''" and v = "''truct packed {''"]) simp_all

end
