(* ===== verification/Sv2v.thy ===== *)
theory Sv2v
  imports Py_Path Shlex
begin

text \<open>
  \<open>util/sv2v_in_place.py\<close>: translating the SystemVerilog files of a tree in place. The files are a
  map from paths to contents; what a \<open>sv2v\<close> command prints and returns, given the files as they
  are when it runs, is a parameter (\<open>None\<close>: the command cannot be started, an exception the script
  lets escape), and so is whether a regular expression compiles and what it finds. Writing a file
  never fails in the model, and the log lines are left out.
\<close>

type_synonym files = "string \<Rightarrow> string option"

type_synonym sv2v_run = "files \<Rightarrow> string list \<Rightarrow> (string \<times> int) option"

datatype sv2v_error =
    Sv2vNotStarted | Sv2vFailed string int "string list" | NoColon string | BadRegex string | Sv2vOpen string

subsection \<open>Arguments and lists\<close>

definition read_file_list :: "files \<Rightarrow> string \<Rightarrow> string list option" where
  "read_file_list fs path =
     map_option (\<lambda>s. let ls = split_chr newline s
       in map py_strip (if last ls = [] then butlast ls else ls)) (fs path)"

type_synonym regex = "string \<Rightarrow> bool"

definition parse_define_if :: "(string \<Rightarrow> regex option) \<Rightarrow> string \<Rightarrow> sv2v_error + regex \<times> string" where
  "parse_define_if compile arg =
     (case rsplit_once CHR '':'' arg of
        None \<Rightarrow> Inl (NoColon arg)
      | Some (re_str, define) \<Rightarrow> (case compile re_str of
          None \<Rightarrow> Inl (BadRegex re_str)
        | Some re \<Rightarrow> Inr (re, define)))"

text \<open>\<open>os.path.splitext(path)[1]\<close>: from the last dot of the last component, unless only dots
  precede it there.\<close>

definition splitext_ext :: "string \<Rightarrow> string" where
  "splitext_ext p =
     (let base = last (split_chr CHR ''/'' p) in
      case rsplit_once CHR ''.'' base of
        None \<Rightarrow> []
      | Some (u, v) \<Rightarrow> if list_all (\<lambda>c. c = CHR ''.'') u then [] else CHR ''.'' # v)"

subsection \<open>Running sv2v\<close>

definition sv2v_cmd :: "string \<Rightarrow> string list \<Rightarrow> string list \<Rightarrow> string list \<Rightarrow> string \<Rightarrow> string list" where
  "sv2v_cmd sv2v defines incdirs pkg_paths sv_path =
     [sv2v, ''--exclude=assert''] @ map (\<lambda>d. ''--define='' @ d) defines @ map (\<lambda>d. ''--incdir='' @ d) incdirs @
     pkg_paths @ (if sv_path \<in> set pkg_paths then [] else [sv_path])"

text \<open>The result is the text left in the temporary file.\<close>

definition transform_one ::
    "sv2v_run \<Rightarrow> files \<Rightarrow> string \<Rightarrow> string list \<Rightarrow> string list \<Rightarrow> string list \<Rightarrow> string \<Rightarrow> sv2v_error + string" where
  "transform_one run fs sv2v defines incdirs pkg_paths sv_path =
     (let cmd = sv2v_cmd sv2v defines incdirs pkg_paths sv_path in
      case run fs cmd of
        None \<Rightarrow> Inl Sv2vNotStarted
      | Some (out, rc) \<Rightarrow> if rc \<noteq> 0 then Inl (Sv2vFailed sv_path rc cmd) else Inr out)"

definition extra_file_defines :: "(regex \<times> string) list \<Rightarrow> string \<Rightarrow> string list" where
  "extra_file_defines defines_if src_path = map snd (filter (\<lambda>(re, define). re src_path) defines_if)"

text \<open>First every file into the temporary directory, then everything back. An error of the first
  loop leaves the files as they were.\<close>

definition sv2v_transform ::
    "sv2v_run \<Rightarrow> files \<Rightarrow> string \<Rightarrow> string list \<Rightarrow> (regex \<times> string) list \<Rightarrow> string list \<Rightarrow> string list \<Rightarrow>
     string list \<Rightarrow> sv2v_error + files" where
  "sv2v_transform run fs sv2v defines defines_if incdirs pkg_paths sv_paths =
     res_bind (res_map (\<lambda>src_path. transform_one run fs sv2v (defines @ extra_file_defines defines_if src_path)
         incdirs pkg_paths src_path) sv_paths) (\<lambda>outs.
       Inr (fold (\<lambda>(src_path, out) fs. fs(src_path \<mapsto> out)) (zip sv_paths outs) fs))"

subsection \<open>\<open>main\<close>\<close>

record sv2v_args =
  file_list :: string
  sv_defines :: "string list"
  sv_defines_if :: "(regex \<times> string) list"
  sv_incdirs :: "string list"
  incdir_list :: "string option"
  sv2v_bin :: string

definition sv_paths_of :: "string list \<Rightarrow> string list" where
  "sv_paths_of paths = filter (\<lambda>p. splitext_ext p = ''.sv'') paths"

definition svh_paths_of :: "string list \<Rightarrow> string list" where
  "svh_paths_of paths = filter (\<lambda>p. splitext_ext p = ''.svh'') paths"

definition pkg_paths_of :: "string list \<Rightarrow> string list" where
  "pkg_paths_of paths = filter (ends_with ''pkg.sv'') paths"

definition all_incdirs :: "files \<Rightarrow> sv2v_args \<Rightarrow> string list option" where
  "all_incdirs fs args =
     (case incdir_list args of
        None \<Rightarrow> Some (sv_incdirs args)
      | Some f \<Rightarrow> map_option (\<lambda>ds. sv_incdirs args @ ds) (read_file_list fs f))"

text \<open>The files afterwards and the exit code; \<open>Inl\<close> for an exception that escapes.\<close>

definition sv2v_main :: "sv2v_run \<Rightarrow> files \<Rightarrow> sv2v_args \<Rightarrow> sv2v_error + files \<times> int" where
  "sv2v_main run fs args =
     (case read_file_list fs (file_list args) of
        None \<Rightarrow> Inr (fs, 1)
      | Some paths \<Rightarrow>
          (case all_incdirs fs args of
             None \<Rightarrow> Inr (fs, 1)
           | Some incdirs \<Rightarrow>
               (case sv2v_transform run fs (sv2v_bin args) (sv_defines args) (sv_defines_if args) incdirs
                       (pkg_paths_of paths) (sv_paths_of paths) of
                  Inl (Sv2vFailed p rc cmd) \<Rightarrow> Inr (fs, 1)
                | Inl e \<Rightarrow> Inl e
                | Inr fs' \<Rightarrow> Inr (fold (\<lambda>p fs. fs(p \<mapsto> [])) (svh_paths_of paths) fs', 0))))"

subsection \<open>All or nothing\<close>

lemma fold_upd_map:
  "fold (\<lambda>(x, y) m. m(x \<mapsto> y)) (zip xs (map f xs)) m k = (if k \<in> set xs then Some (f k) else m k)"
  by (induction xs arbitrary: m) auto

lemma fold_empty_files: "fold (\<lambda>p fs. fs(p \<mapsto> [])) ps fs k = (if k \<in> set ps then Some [] else fs k)"
  by (induction ps arbitrary: fs) auto

text \<open>The command of one file in a run with given arguments.\<close>

definition file_cmd :: "sv2v_args \<Rightarrow> string list \<Rightarrow> string list \<Rightarrow> string \<Rightarrow> string list" where
  "file_cmd args incdirs paths p =
     sv2v_cmd (sv2v_bin args) (sv_defines args @ extra_file_defines (sv_defines_if args) p) incdirs
       (pkg_paths_of paths) p"

lemma transform_one_Inr:
  "transform_one run fs sv2v ds incdirs pkgs p = Inr out \<longleftrightarrow>
   run fs (sv2v_cmd sv2v ds incdirs pkgs p) = Some (out, 0)"
  by (auto simp: transform_one_def Let_def split: option.split)

lemma sv2v_transform_Inr:
  assumes "sv2v_transform run fs (sv2v_bin args) (sv_defines args) (sv_defines_if args) incdirs
      (pkg_paths_of paths) ps = Inr fs'"
  shows "p \<in> set ps \<Longrightarrow> \<exists>out. run fs (file_cmd args incdirs paths p) = Some (out, 0) \<and> fs' p = Some out"
    and "p \<notin> set ps \<Longrightarrow> fs' p = fs p"
proof -
  let ?out = "\<lambda>p. fst (the (run fs (file_cmd args incdirs paths p)))"
  from assms obtain outs where
    outs: "list_all2 (\<lambda>p out. run fs (file_cmd args incdirs paths p) = Some (out, 0)) ps outs"
    and fs': "fs' = fold (\<lambda>(p, out) fs. fs(p \<mapsto> out)) (zip ps outs) fs"
    by (auto simp: sv2v_transform_def res_bind_eq_Inr res_map_eq_Inr transform_one_Inr file_cmd_def)
  from outs have "outs = map ?out ps"
    by (induction rule: list_all2_induct) auto
  then have val: "fs' p = (if p \<in> set ps then Some (?out p) else fs p)" for p
    by (simp add: fs' fold_upd_map)
  show "p \<notin> set ps \<Longrightarrow> fs' p = fs p" by (simp add: val)
  assume "p \<in> set ps"
  with outs show "\<exists>out. run fs (file_cmd args incdirs paths p) = Some (out, 0) \<and> fs' p = Some out"
    by (auto simp: val list_all2_conv_all_nth in_set_conv_nth)
qed

text \<open>C36: A run that ends returns 0 or 1. With 1 no file has changed, whichever file failed and
  however many were translated before it; with 0 every \<open>.sv\<close> file of the list holds what \<open>sv2v\<close>
  made of it in the tree as it was before the run (so no translation has seen the output of
  another), the \<open>.svh\<close> files are empty and nothing else has changed.\<close>

theorem sv2v_all_or_nothing:
  assumes "sv2v_main run fs args = Inr (fs', c)"
  shows "c = 1 \<and> fs' = fs \<or>
    c = 0 \<and> (\<exists>paths incdirs. read_file_list fs (file_list args) = Some paths \<and>
      all_incdirs fs args = Some incdirs \<and>
      (\<forall>p. fs' p = (if p \<in> set (svh_paths_of paths) then Some []
                  else if p \<in> set (sv_paths_of paths)
                  then map_option fst (run fs (file_cmd args incdirs paths p)) else fs p) \<and>
           (p \<in> set (sv_paths_of paths) \<longrightarrow> map_option snd (run fs (file_cmd args incdirs paths p)) = Some 0)))"
proof (cases "c = 0")
  case False
  with assms show ?thesis
    by (auto simp: sv2v_main_def split: option.splits sum.splits sv2v_error.splits)
next
  case True
  with assms obtain paths incdirs fs1 where ps: "read_file_list fs (file_list args) = Some paths"
    and inc: "all_incdirs fs args = Some incdirs"
    and tr: "sv2v_transform run fs (sv2v_bin args) (sv_defines args) (sv_defines_if args) incdirs
      (pkg_paths_of paths) (sv_paths_of paths) = Inr fs1"
    and fs': "fs' = fold (\<lambda>p fs. fs(p \<mapsto> [])) (svh_paths_of paths) fs1"
    by (auto simp: sv2v_main_def split: option.splits sum.splits sv2v_error.splits)
  note after = sv2v_transform_Inr [OF tr]
  have "fs' p = (if p \<in> set (svh_paths_of paths) then Some []
                  else if p \<in> set (sv_paths_of paths)
                  then map_option fst (run fs (file_cmd args incdirs paths p)) else fs p) \<and>
        (p \<in> set (sv_paths_of paths) \<longrightarrow> map_option snd (run fs (file_cmd args incdirs paths p)) = Some 0)" for p
    using after [of p] by (auto simp: fs' fold_empty_files)
  with True ps inc show ?thesis by blast
qed

definition sample_tree :: files where
  "sample_tree = [''list'' \<mapsto> ''a_pkg.sv'' @ [newline] @ ''b.sv'' @ [newline] @ ''c.svh'' @ [newline],
     ''a_pkg.sv'' \<mapsto> ''package'', ''b.sv'' \<mapsto> ''module'', ''c.svh'' \<mapsto> ''macro'']"

definition sample_sv2v :: sv2v_run where
  "sample_sv2v fs cmd = map_option (\<lambda>s. (''v:'' @ s, 0)) (fs (last cmd))"

definition sample_sv2v_args :: sv2v_args where
  "sample_sv2v_args = \<lparr>file_list = ''list'', sv_defines = [], sv_defines_if = [], sv_incdirs = [],
     incdir_list = None, sv2v_bin = ''sv2v''\<rparr>"

theorem sv2v_all_or_nothing_witness:
  "\<exists>fs'. sv2v_main sample_sv2v sample_tree sample_sv2v_args = Inr (fs', 0) \<and> fs' ''b.sv'' = Some ''v:module''"
proof -
  have lines: "read_file_list sample_tree ''list'' = Some [''a_pkg.sv'', ''b.sv'', ''c.svh'']"
    by code_simp
  have "case sv2v_main sample_sv2v sample_tree sample_sv2v_args of Inl e \<Rightarrow> False | Inr (fs', c) \<Rightarrow> c = 0"
    by code_simp
  then obtain fs' where r: "sv2v_main sample_sv2v sample_tree sample_sv2v_args = Inr (fs', 0)"
    by (auto split: sum.splits)
  have files: "''b.sv'' \<in> set (sv_paths_of [''a_pkg.sv'', ''b.sv'', ''c.svh''])"
    "''b.sv'' \<notin> set (svh_paths_of [''a_pkg.sv'', ''b.sv'', ''c.svh''])"
    "map_option fst (sample_sv2v sample_tree (file_cmd sample_sv2v_args [] [''a_pkg.sv'', ''b.sv'', ''c.svh''] ''b.sv'')) =
       Some ''v:module''"
    "all_incdirs sample_tree sample_sv2v_args = Some []" "file_list sample_sv2v_args = ''list''"
    by code_simp+
  from sv2v_all_or_nothing [OF r] have "fs' ''b.sv'' = Some ''v:module''"
    by (simp add: lines files)
  with r show ?thesis by blast
qed

end
