(* ===== verification/Syn_Flow.thy ===== *)
theory Syn_Flow
  imports Report
begin

text \<open>
  \<open>syn/python\<close>: the scripts around the yosys synthesis flow. \<open>flow_utils.py\<close> with its two users,
  \<open>build_translated_names.py\<close> and \<open>translate_timing_csv.py\<close>, which give the cells of a timing report
  readable names, and \<open>get_kge.py\<close>, the area in gate equivalents. The files are a map from names to
  texts with newlines already translated; reading and printing a float are parameters.
\<close>

datatype flow_error =
    FlowOpen string | FlowIndex | FlowValue | FlowZeroDivision
  | FoundCell string nat | FoundArea string nat | BadArea string nat | NoReference string string
  | BadCell string nat string

record 'f flow_floats = "'f floats" +
  fl_parse :: "string \<Rightarrow> 'f option"
  fl_str :: "'f \<Rightarrow> string"
  fl_is_zero :: "'f \<Rightarrow> bool"

type_synonym flow_files = "string \<Rightarrow> string option"

definition read_text :: "flow_files \<Rightarrow> string \<Rightarrow> flow_error + string" where
  "read_text fs path = res_of_option (FlowOpen path) (fs path)"

text \<open>\<open>readlines()\<close>: each line with its newline.\<close>

fun keep_lines :: "string \<Rightarrow> string list" where
  "keep_lines [] = []"
| "keep_lines (c # s) =
     (if c = newline then [c] # keep_lines s
      else case keep_lines s of [] \<Rightarrow> [[c]] | l # ls \<Rightarrow> (c # l) # ls)"

subsection \<open>Reading CSV\<close>

text \<open>The automaton of \<open>csv.reader\<close> in its default dialect; a newline ends a record except inside
  quotes. The field and the record read so far are the second and third argument.\<close>

datatype csv_state = StartRecord | StartField | InField | InQuoted | QuoteInQuoted

fun csv_rows :: "csv_state \<Rightarrow> string \<Rightarrow> string list \<Rightarrow> string \<Rightarrow> string list list" where
  "csv_rows st fld row [] = (if st = StartRecord then [] else [row @ [fld]])"
| "csv_rows st fld row (c # s) =
     (if st = InQuoted then
        (if c = CHR 0x22 then csv_rows QuoteInQuoted fld row s else csv_rows InQuoted (fld @ [c]) row s)
      else if c = newline then (if st = StartRecord then [] else row @ [fld]) # csv_rows StartRecord [] [] s
      else if c = CHR '','' then csv_rows StartField [] (row @ [fld]) s
      else if c = CHR 0x22 \<and> st \<noteq> InField
        then (if st = QuoteInQuoted then csv_rows InQuoted (fld @ [c]) row s else csv_rows InQuoted fld row s)
      else csv_rows InField (fld @ [c]) row s)"

definition csv_read :: "string \<Rightarrow> string list list" where
  "csv_read s = csv_rows StartRecord [] [] s"

subsection \<open>\<open>flow_utils.py\<close>\<close>

text \<open>\<open>generated_cell_re\<close>: the first underscore that starts a run of word characters ending in an
  underscore and followed by a slash and a word character. The run is as long as it can be, and
  since the slash is no word character no shorter one fits.\<close>

fun generated_cell :: "string \<Rightarrow> string option" where
  "generated_cell [] = None"
| "generated_cell (c # s) =
     (let run = takeWhile is_word s; r = dropWhile is_word s
      in if c = CHR ''_'' \<and> 2 \<le> length run \<and> last run = CHR ''_'' \<and>
            (case r of a # b # t \<Rightarrow> a = CHR ''/'' \<and> is_word b | _ \<Rightarrow> False)
         then Some (c # run) else generated_cell s)"

definition point_name :: "string \<Rightarrow> string" where
  "point_name p = (case generated_cell p of None \<Rightarrow> p | Some cell \<Rightarrow> cell)"

type_synonym 'f path_info = "(string \<times> string \<times> 'f) list"

text \<open>One row: the cells to translate and the path.\<close>

definition path_of_row :: "'f flow_floats \<Rightarrow> string list \<Rightarrow> flow_error + string set \<times> string \<times> string \<times> 'f" where
  "path_of_row F row = (case row of
     a # b # d # r \<Rightarrow> (case fl_parse F d of
       None \<Rightarrow> Inl FlowValue
     | Some x \<Rightarrow> Inr (set (List.map_filter generated_cell [a, b]), point_name a, point_name b, x))
   | _ \<Rightarrow> Inl FlowIndex)"

definition extract_path_info :: "'f flow_floats \<Rightarrow> string \<Rightarrow> flow_error + string set \<times> 'f path_info" where
  "extract_path_info F text =
     res_bind (res_map (path_of_row F) (csv_read text)) (\<lambda>ps. Inr (\<Union> (set (map fst ps)), map snd ps))"

definition ys_translated_names :: string where
  "ys_translated_names = ''ys_translated_names''"

text \<open>The script; the order in which a set is walked is a parameter.\<close>

definition create_translate_names_script :: "(string set \<Rightarrow> string list) \<Rightarrow> string set \<Rightarrow> string \<Rightarrow> string \<Rightarrow> string" where
  "create_translate_names_script order cells top_level gen_out =
     ''tcl ./tcl/yosys_post_synth.tcl'' @ [newline] @ ''cd '' @ top_level @ [newline] @
     concat (map (\<lambda>cell. ''select '' @ cell @ '' %x:+[Q]'' @ [newline] @
       ''tee -a '' @ gen_out @ ''/'' @ ys_translated_names @ '' select -list'' @ [newline]) (order cells))"

definition after_slash :: "string \<Rightarrow> flow_error + string" where
  "after_slash line = (case split_once CHR ''/'' (butlast line) of None \<Rightarrow> Inl FlowIndex | Some (u, v) \<Rightarrow> Inr v)"

fun translated_pairs :: "string list \<Rightarrow> (string, string) dict \<Rightarrow> flow_error + (string, string) dict" where
  "translated_pairs [] d = Inr d"
| "translated_pairs [a] d = Inl FlowIndex"
| "translated_pairs (a # b # ls) d =
     res_bind (after_slash a) (\<lambda>name. res_bind (after_slash b) (\<lambda>cell. translated_pairs ls (dset cell name d)))"

definition build_translated_names_dict :: "string \<Rightarrow> flow_error + (string, string) dict" where
  "build_translated_names_dict text = translated_pairs (keep_lines text) []"

definition translated_point :: "(string, string) dict \<Rightarrow> string \<Rightarrow> string" where
  "translated_point d p = (case dget d p of None \<Rightarrow> p | Some name \<Rightarrow> name)"

definition translate_path_info :: "'f path_info \<Rightarrow> string \<Rightarrow> flow_error + 'f path_info" where
  "translate_path_info ps names_text =
     res_bind (build_translated_names_dict names_text) (\<lambda>d.
       Inr (map (\<lambda>(a, b, x). (translated_point d a, translated_point d b, x)) ps))"

subsection \<open>The two scripts\<close>

text \<open>\<open>build_translated_names.py\<close>: the script file written and the command run.\<close>

definition build_translated_names ::
    "'f flow_floats \<Rightarrow> (string set \<Rightarrow> string list) \<Rightarrow> flow_files \<Rightarrow> string \<Rightarrow> string \<Rightarrow> string list \<Rightarrow>
     flow_error + (string \<times> string) \<times> string list" where
  "build_translated_names F order fs top_level gen_out rpts =
     res_bind (res_map (\<lambda>rpt. res_bind (read_text fs rpt) (extract_path_info F)) rpts) (\<lambda>infos.
       let script = gen_out @ ''/translate_names.ys''
       in Inr ((script, create_translate_names_script order (\<Union> (set (map fst infos))) top_level gen_out),
               [''yosys'', ''-s'', script]))"

definition timing_header :: string where
  "timing_header = ''Start Point, End Point, WNS (ns)''"

definition timing_text :: "'f flow_floats \<Rightarrow> 'f path_info \<Rightarrow> string" where
  "timing_text F ps = timing_header @ [newline] @
     concat (map (\<lambda>(a, b, x). a @ '','' @ b @ '','' @ fl_str F x @ [newline]) ps)"

text \<open>\<open>translate_timing_csv.py\<close>, called with its two arguments. The output goes to \<open>sys.argv[1]\<close>,
  which is the report itself.\<close>

definition translate_timing_csv :: "'f flow_floats \<Rightarrow> flow_files \<Rightarrow> string \<Rightarrow> string \<Rightarrow> flow_error + flow_files" where
  "translate_timing_csv F fs rpt_file gen_out =
     res_bind (read_text fs rpt_file) (\<lambda>text.
     res_bind (extract_path_info F text) (\<lambda>(cells, ps).
     res_bind (read_text fs (gen_out @ ''/'' @ ys_translated_names)) (\<lambda>names.
     res_bind (translate_path_info ps names) (\<lambda>ps'.
       Inr (fs(rpt_file \<mapsto> timing_text F ps'))))))"

subsection \<open>What the translated report says\<close>

definition csv_plain :: "string \<Rightarrow> bool" where
  "csv_plain w \<longleftrightarrow> newline \<notin> set w \<and> CHR '','' \<notin> set w \<and> CHR 0x22 \<notin> set w"

lemma csv_in_field: "csv_plain w \<Longrightarrow> csv_rows InField fld row (w @ s) = csv_rows InField (fld @ w) row s"
  by (induction w arbitrary: fld) (auto simp: csv_plain_def)

lemma csv_start:
  assumes "csv_plain w" "st = StartField \<or> st = StartRecord" "c = CHR '','' \<or> c = newline \<and> st = StartField"
  shows "csv_rows st [] row (w @ c # s) = csv_rows InField w row (c # s)"
proof (cases w)
  case Nil
  with assms show ?thesis by auto
next
  case (Cons a u)
  with assms(1) have "csv_plain u" by (simp add: csv_plain_def)
  with assms Cons show ?thesis by (auto simp: csv_plain_def csv_in_field [of u "[a]", simplified])
qed

lemma csv_row3:
  "csv_plain a \<Longrightarrow> csv_plain b \<Longrightarrow> csv_plain d \<Longrightarrow>
   csv_rows StartRecord [] [] (a @ '','' @ b @ '','' @ d @ newline # s) = [a, b, d] # csv_rows StartRecord [] [] s"
  by (simp add: csv_start)

lemma csv_read_timing_text:
  assumes "\<And>a b x. (a, b, x) \<in> set ps \<Longrightarrow> csv_plain a \<and> csv_plain b \<and> csv_plain (fl_str F x)"
  shows "csv_read (timing_text F ps) =
    [''Start Point'', '' End Point'', '' WNS (ns)''] # map (\<lambda>(a, b, x). [a, b, fl_str F x]) ps"
proof -
  have rows: "csv_rows StartRecord [] [] (concat (map (\<lambda>(a, b, x). a @ '','' @ b @ '','' @ fl_str F x @ [newline]) ps)) =
      map (\<lambda>(a, b, x). [a, b, fl_str F x]) ps"
    using assms
  proof (induction ps)
    case (Cons p ps)
    obtain a b x where p: "p = (a, b, x)" by (cases p)
    from Cons.prems [of a b x] p have "csv_plain a" "csv_plain b" "csv_plain (fl_str F x)" by auto
    moreover have "csv_rows StartRecord [] [] (concat (map (\<lambda>(a, b, x). a @ '','' @ b @ '','' @ fl_str F x @ [newline]) ps)) =
        map (\<lambda>(a, b, x). [a, b, fl_str F x]) ps"
      by (rule Cons.IH) (use Cons.prems in auto)
    ultimately show ?case by (simp add: p csv_row3 [simplified])
  qed simp
  have "csv_plain ''Start Point''" "csv_plain '' End Point''" "csv_plain '' WNS (ns)''"
    by (simp_all add: csv_plain_def)
  from csv_row3 [OF this] rows show ?thesis
    by (simp add: csv_read_def timing_text_def timing_header_def)
qed

text \<open>A names file of pairs of lines: the readable name, then the cell, each behind the name of the
  top level and a slash.\<close>

definition names_text :: "string \<Rightarrow> (string \<times> string) list \<Rightarrow> string" where
  "names_text top_name ps =
     concat (map (\<lambda>(cell, name). top_name @ ''/'' @ name @ [newline] @ top_name @ ''/'' @ cell @ [newline]) ps)"

lemma keep_lines_line: "newline \<notin> set l \<Longrightarrow> keep_lines (l @ newline # s) = (l @ [newline]) # keep_lines s"
  by (induction l) auto

lemma after_slash_line: "CHR ''/'' \<notin> set top_name \<Longrightarrow> after_slash (top_name @ ''/'' @ w @ [newline]) = Inr w"
  by (simp add: after_slash_def butlast_append split_once_append)

lemma build_dict_names_text:
  assumes "newline \<notin> set top_name" "CHR ''/'' \<notin> set top_name"
    "\<And>cell name. (cell, name) \<in> set ps \<Longrightarrow> newline \<notin> set cell \<and> newline \<notin> set name"
  shows "translated_pairs (keep_lines (names_text top_name ps)) d = Inr (fold (\<lambda>(cell, name). dset cell name) ps d)"
  using assms(3)
proof (induction ps arbitrary: d)
  case Nil
  then show ?case by (simp add: names_text_def)
next
  case (Cons p ps)
  obtain cell name where p: "p = (cell, name)" by (cases p)
  from Cons.prems [of cell name] p have "newline \<notin> set cell" "newline \<notin> set name" by auto
  with assms(1) have "keep_lines (names_text top_name (p # ps)) =
      (top_name @ ''/'' @ name @ [newline]) # (top_name @ ''/'' @ cell @ [newline]) # keep_lines (names_text top_name ps)"
    using keep_lines_line [of "top_name @ ''/'' @ name"] keep_lines_line [of "top_name @ ''/'' @ cell"]
    by (simp add: names_text_def p)
  moreover have "translated_pairs (keep_lines (names_text top_name ps)) (dset cell name d) =
      Inr (fold (\<lambda>(cell, name). dset cell name) ps (dset cell name d))"
    by (rule Cons.IH) (use Cons.prems in auto)
  ultimately show ?case using assms(2)
    by (simp add: after_slash_line p del: append.simps)
qed

lemma generated_cell_set: "generated_cell p = Some cell \<Longrightarrow> set cell \<subseteq> set p"
proof (induction p)
  case (Cons c s)
  then show ?case by (auto simp: Let_def split: if_splits dest: set_takeWhileD)
qed simp

lemma csv_plain_point_name: "csv_plain p \<Longrightarrow> csv_plain (point_name p)"
  by (auto simp: point_name_def csv_plain_def split: option.split dest!: generated_cell_set)

definition translated_row :: "'f flow_floats \<Rightarrow> (string \<times> string) list \<Rightarrow> string list \<Rightarrow> string list" where
  "translated_row F ps row =
     [translated_point (rev ps) (point_name (row ! 0)), translated_point (rev ps) (point_name (row ! 1)),
      fl_str F (the (fl_parse F (row ! 2)))]"

lemma path_of_row_Inr:
  "path_of_row F row = Inr (cells, p) \<Longrightarrow>
   2 < length row \<and> p = (point_name (row ! 0), point_name (row ! 1), the (fl_parse F (row ! 2)))"
  by (auto simp: path_of_row_def split: list.splits option.splits)

lemma translated_point_plain:
  "csv_plain p \<Longrightarrow> (\<And>cell name. (cell, name) \<in> set ps \<Longrightarrow> csv_plain name) \<Longrightarrow> csv_plain (translated_point ps p)"
  by (auto simp: translated_point_def split: option.split dest: map_of_SomeD)

text \<open>C37: Given a report whose rows can be read and a names file of pairs of lines, translating ends
  well and leaves in the report, read again as CSV, a header and one row for each row of the
  report in order: each end point is replaced by its generated cell if it has one, a cell by the
  last name the file gives it, and the delay is kept. No other file changes.\<close>

theorem timing_report_translated:
  fixes F :: "'f flow_floats"
  assumes rows: "fs rpt = Some text" "\<And>row. row \<in> set (csv_read text) \<Longrightarrow>
      2 < length row \<and> fl_parse F (row ! 2) \<noteq> None \<and> csv_plain (row ! 0) \<and> csv_plain (row ! 1)"
    and names: "fs (gen_out @ ''/ys_translated_names'') = Some (names_text top_name ps)"
      "newline \<notin> set top_name" "CHR ''/'' \<notin> set top_name"
      "\<And>cell name. (cell, name) \<in> set ps \<Longrightarrow> newline \<notin> set cell \<and> csv_plain name"
    and floats: "\<And>x. csv_plain (fl_str F x)"
  shows "\<exists>out. translate_timing_csv F fs rpt gen_out = Inr (fs(rpt \<mapsto> out)) \<and>
    csv_read out = [''Start Point'', '' End Point'', '' WNS (ns)''] # map (translated_row F ps) (csv_read text)"
proof -
  let ?info = "\<lambda>row. (point_name (row ! 0), point_name (row ! 1), the (fl_parse F (row ! 2)))"
  let ?new = "\<lambda>row. (translated_point (rev ps) (point_name (row ! 0)),
    translated_point (rev ps) (point_name (row ! 1)), the (fl_parse F (row ! 2)))"
  have "path_of_row F row = Inr (set (List.map_filter generated_cell [row ! 0, row ! 1]), ?info row)"
    if row: "row \<in> set (csv_read text)" for row
  proof -
    from rows(2) [OF row] obtain a b d r where "row = a # b # d # r"
      by (metis One_nat_def Suc_1 length_0_conv length_Suc_conv less_Suc_eq_0_disj not_less_eq neq_Nil_conv list.size(3) not_less0)
    with rows(2) [OF row] show ?thesis by (auto simp: path_of_row_def)
  qed
  then have info: "\<exists>cells. extract_path_info F text = Inr (cells, map ?info (csv_read text))"
    unfolding extract_path_info_def by (subst res_map_Inr_on) (auto simp: o_def)
  have dict: "dget (fold (\<lambda>(cell, name). dset cell name) ps []) p = dget (rev ps) p" for p
    using dget_dmerge [of "[]" ps p] by (simp add: dmerge_def split: option.splits)
  have "newline \<notin> set cell \<and> newline \<notin> set name" if "(cell, name) \<in> set ps" for cell name
    using names(4) [OF that] by (simp add: csv_plain_def)
  with names(2,3) have "build_translated_names_dict (names_text top_name ps) =
      Inr (fold (\<lambda>(cell, name). dset cell name) ps [])"
    unfolding build_translated_names_dict_def by (intro build_dict_names_text) auto
  then have "translate_path_info (map ?info (csv_read text)) (names_text top_name ps) =
      Inr (map ?new (csv_read text))"
    by (simp add: translate_path_info_def translated_point_def dict)
  with info rows(1) names(1) have run: "translate_timing_csv F fs rpt gen_out =
      Inr (fs(rpt \<mapsto> timing_text F (map ?new (csv_read text))))"
    by (auto simp: translate_timing_csv_def read_text_def ys_translated_names_def)
  have "csv_plain (translated_point (rev ps) (point_name p))" if "csv_plain p" for p
    using names(4) that by (intro translated_point_plain csv_plain_point_name) auto
  then have "csv_read (timing_text F (map ?new (csv_read text))) =
      [''Start Point'', '' End Point'', '' WNS (ns)''] # map (\<lambda>(a, b, x). [a, b, fl_str F x]) (map ?new (csv_read text))"
    using rows(2) floats by (intro csv_read_timing_text) auto
  then have "csv_read (timing_text F (map ?new (csv_read text))) =
      [''Start Point'', '' End Point'', '' WNS (ns)''] # map (translated_row F ps) (csv_read text)"
    by (simp add: translated_row_def [abs_def] o_def)
  with run show ?thesis by blast
qed

text \<open>An exact instance: whole numbers of picoseconds.\<close>

definition int_floats :: "int flow_floats" where
  "int_floats =
     \<lparr>fl_ratio = (\<lambda>a b. a div b), fl_lit = (\<lambda>s. 0), fl_add = (+), fl_sub = (-), fl_mul = (*), fl_div = (div),
      fl_less = (<), fl_trunc = (\<lambda>x. x), fl_round2 = (\<lambda>x. x), fl_fixed = (\<lambda>k. int_str),
      fl_parse = py_int 10, fl_str = int_str, fl_is_zero = (\<lambda>x. x = 0)\<rparr>"

lemma csv_plain_int_str: "csv_plain (int_str x)"
  by (auto simp: csv_plain_def is_digit_def dest!: int_str_chars)

definition sample_flow :: flow_files where
  "sample_flow = [''rpt'' \<mapsto> ''u/_12_/Q,out[3],-7'' @ [newline],
     ''gen/ys_translated_names'' \<mapsto> names_text ''top'' [(''_12_'', ''id_stage/ready'')]]"

theorem timing_report_translated_witness:
  "\<exists>out. translate_timing_csv int_floats sample_flow ''rpt'' ''gen'' = Inr (sample_flow(''rpt'' \<mapsto> out)) \<and>
     csv_read out = [[''Start Point'', '' End Point'', '' WNS (ns)''], [''id_stage/ready'', ''out[3]'', ''-7'']]"
proof -
  let ?text = "''u/_12_/Q,out[3],-7'' @ [newline]" and ?ps = "[(''_12_'', ''id_stage/ready'')]"
  have read: "csv_read ?text = [[''u/_12_/Q'', ''out[3]'', ''-7'']]" by code_simp
  have "fl_parse int_floats ''-7'' = Some (-7)" by code_simp
  then have rows: "\<And>row. row \<in> set (csv_read ?text) \<Longrightarrow>
      2 < length row \<and> fl_parse int_floats (row ! 2) \<noteq> None \<and> csv_plain (row ! 0) \<and> csv_plain (row ! 1)"
    unfolding read by (simp add: csv_plain_def numeral_2_eq_2)
  have row: "translated_row int_floats ?ps [''u/_12_/Q'', ''out[3]'', ''-7''] =
      [''id_stage/ready'', ''out[3]'', ''-7'']"
    by code_simp
  have "\<exists>out. translate_timing_csv int_floats sample_flow ''rpt'' ''gen'' = Inr (sample_flow(''rpt'' \<mapsto> out)) \<and>
     csv_read out = [''Start Point'', '' End Point'', '' WNS (ns)''] #
       map (translated_row int_floats ?ps) (csv_read ?text)"
    using rows
    by (intro timing_report_translated [where top_name = "''top''"])
      (auto simp: sample_flow_def csv_plain_def int_floats_def csv_plain_int_str [unfolded csv_plain_def])
  then show ?thesis by (simp only: read row list.map)
qed

text \<open>C38: The script writes over its own input, so it cannot be run twice: after a successful run
  the report starts with a header whose third field is no number, and every further run on it
  raises, whatever the names file says then.\<close>

theorem translating_twice_fails:
  assumes "translate_timing_csv F fs rpt gen_out = Inr fs'" "fl_parse F '' WNS (ns)'' = None"
  shows "translate_timing_csv F fs' rpt gen_out' = Inl FlowValue"
proof -
  from assms(1) obtain ps where fs': "fs' rpt = Some (timing_text F ps)"
    by (auto simp: translate_timing_csv_def res_bind_eq_Inr)
  have plain: "csv_plain ''Start Point''" "csv_plain '' End Point''" "csv_plain '' WNS (ns)''"
    by (simp_all add: csv_plain_def)
  have "\<exists>rows. csv_read (timing_text F ps) = [''Start Point'', '' End Point'', '' WNS (ns)''] # rows"
    using csv_row3 [OF plain] by (auto simp: csv_read_def timing_text_def timing_header_def)
  then have "extract_path_info F (timing_text F ps) = Inl FlowValue"
    using assms(2) by (auto simp: extract_path_info_def path_of_row_def)
  with fs' show ?thesis by (simp add: translate_timing_csv_def read_text_def)
qed

theorem translating_twice_fails_witness:
  "\<exists>fs'. translate_timing_csv int_floats [''rpt'' \<mapsto> ''a,b,3'', ''gen/ys_translated_names'' \<mapsto> []] ''rpt'' ''gen'' = Inr fs' \<and>
     translate_timing_csv int_floats fs' ''rpt'' ''gen'' = Inl FlowValue"
proof -
  let ?fs = "[''rpt'' \<mapsto> ''a,b,3'', ''gen/ys_translated_names'' \<mapsto> []] :: flow_files"
  have "case translate_timing_csv int_floats ?fs ''rpt'' ''gen'' of Inl e \<Rightarrow> False | Inr fs' \<Rightarrow> True"
    by code_simp
  then obtain fs' where r: "translate_timing_csv int_floats ?fs ''rpt'' ''gen'' = Inr fs'"
    by (auto split: sum.splits)
  have "fl_parse int_floats '' WNS (ns)'' = None" by code_simp
  from translating_twice_fails [OF r this] r show ?thesis by blast
qed

subsection \<open>\<open>get_kge.py\<close>\<close>

text \<open>The library is read line by line: a \<open>cell (\<close> line opens a cell, the next \<open>area\<close> line gives its
  area. The state is the areas read and the cell that waits for one.\<close>

type_synonym 'f areas = "(string, 'f) dict"

definition cell_of_line :: "string \<Rightarrow> string" where
  "cell_of_line line = strip_p (\<lambda>c. c = CHR ''('' \<or> c = CHR '')'') (py_words line ! 1)"

definition area_of_line :: "'f flow_floats \<Rightarrow> string \<Rightarrow> 'f option" where
  "area_of_line F line =
     (if 2 < length (py_words line) then fl_parse F (strip_p (\<lambda>c. c = CHR '';'') (py_words line ! 2)) else None)"

definition area_prefix :: string where
  "area_prefix = CHR 0x09 # ''area''"

definition lib_line ::
    "'f flow_floats \<Rightarrow> string \<Rightarrow> 'f areas \<times> string option \<Rightarrow> nat \<times> string \<Rightarrow> flow_error + 'f areas \<times> string option" where
  "lib_line F path st numbered =
     (let (cells, cell) = st; (idx, line) = numbered in
      if starts_with ''  cell ('' line then
        (if cell \<noteq> None then Inl (FoundCell path (idx + 1)) else Inr (cells, Some (cell_of_line line)))
      else if starts_with area_prefix line then
        (case cell of
           None \<Rightarrow> Inl (FoundArea path (idx + 1))
         | Some c \<Rightarrow> (case area_of_line F line of
             None \<Rightarrow> Inl (BadArea path (idx + 1))
           | Some a \<Rightarrow> Inr (dset c a cells, None)))
      else Inr st)"

definition read_lib :: "'f flow_floats \<Rightarrow> flow_files \<Rightarrow> string \<Rightarrow> string \<Rightarrow> flow_error + 'f areas" where
  "read_lib F fs path ref_cell =
     res_bind (read_text fs path) (\<lambda>text.
     res_bind (res_fold (lib_line F path) ([], None) (enumerate 0 (keep_lines text))) (\<lambda>(cells, cell).
       case dget cells ref_cell of
         None \<Rightarrow> Inl (NoReference ref_cell path)
       | Some r \<Rightarrow>
           if fl_is_zero F r then Inl FlowZeroDivision
           else Inr (map (\<lambda>(c, a). (c, fl_div F a r)) cells)))"

definition kge_line ::
    "'f flow_floats \<Rightarrow> string \<Rightarrow> 'f areas \<Rightarrow> 'f \<Rightarrow> nat \<times> string \<Rightarrow> flow_error + 'f" where
  "kge_line F path weights ge numbered =
     (let (idx, line) = numbered in
      case py_words line of
        [] \<Rightarrow> Inr ge
      | d # ds \<Rightarrow> (case dget weights d of
          None \<Rightarrow> Inr ge
        | Some w \<Rightarrow> (case (case ds of [] \<Rightarrow> None | n # r \<Rightarrow> fl_parse F n) of
            None \<Rightarrow> Inl (BadCell path (idx + 1) d)
          | Some n \<Rightarrow> Inr (fl_add F ge (fl_mul F n w)))))"

text \<open>The gate equivalents of a report and the number printed.\<close>

definition get_kge :: "'f flow_floats \<Rightarrow> flow_files \<Rightarrow> string \<Rightarrow> 'f areas \<Rightarrow> flow_error + 'f \<times> 'f" where
  "get_kge F fs path weights =
     res_bind (read_text fs path) (\<lambda>text.
     res_bind (res_fold (kge_line F path weights) (fl_lit F ''0.0'') (enumerate 0 (keep_lines text))) (\<lambda>ge.
       Inr (ge, fl_round2 F (fl_div F ge (fl_ratio F 1000 1)))))"

definition kge_main :: "'f flow_floats \<Rightarrow> flow_files \<Rightarrow> string \<Rightarrow> string \<Rightarrow> string \<Rightarrow> flow_error + 'f \<times> 'f" where
  "kge_main F fs lib_file_path report_path ref_cell =
     res_bind (read_lib F fs lib_file_path ref_cell) (get_kge F fs report_path)"

text \<open>A library that is read alternates: reading never finds a second cell before an area or a
  second area before a cell. The relevant lines are, in order, pairs of a cell and its area, and
  possibly one more cell, which is dropped without a word.\<close>

definition lib_relevant :: "string \<Rightarrow> bool" where
  "lib_relevant line \<longleftrightarrow> starts_with ''  cell ('' line \<or> starts_with area_prefix line"

fun lib_pairs :: "'f flow_floats \<Rightarrow> string list \<Rightarrow> (string \<times> 'f) list option" where
  "lib_pairs F [] = Some []"
| "lib_pairs F [c] = (if starts_with ''  cell ('' c then Some [] else None)"
| "lib_pairs F (c # a # ls) =
     (if starts_with ''  cell ('' c \<and> starts_with area_prefix a
      then (case (area_of_line F a, lib_pairs F ls) of
              (Some x, Some ps) \<Rightarrow> Some ((cell_of_line c, x) # ps)
            | _ \<Rightarrow> None)
      else None)"

lemma area_not_cell: "starts_with area_prefix l \<Longrightarrow> \<not> starts_with ''  cell ('' l"
  by (auto simp: area_prefix_def split: list.splits)

lemma lib_line_irrelevant: "\<not> lib_relevant l \<Longrightarrow> lib_line F path st (i, l) = Inr st"
  by (simp add: lib_line_def lib_relevant_def Let_def split: prod.split)

lemma lib_fold_relevant:
  "res_fold (lib_line F path) st (enumerate n ls) = Inr r \<Longrightarrow>
   \<exists>ns. map snd ns = filter lib_relevant ls \<and> res_fold (lib_line F path) st ns = Inr r"
proof (induction ls arbitrary: st n)
  case (Cons l ls)
  show ?case
  proof (cases "lib_relevant l")
    case False
    with Cons show ?thesis by (simp add: lib_line_irrelevant)
  next
    case True
    from Cons.prems obtain st' where st': "lib_line F path st (n, l) = Inr st'"
      "res_fold (lib_line F path) st' (enumerate (Suc n) ls) = Inr r"
      by (auto simp: res_bind_eq_Inr)
    from Cons.IH [OF st'(2)] obtain ns where "map snd ns = filter lib_relevant ls"
      "res_fold (lib_line F path) st' ns = Inr r" by blast
    with st' True show ?thesis by (intro exI [of _ "(n, l) # ns"]) simp
  qed
qed simp

lemma lib_fold_pairs:
  "res_fold (lib_line F path) (cells, None) ns = Inr (cells', cell) \<Longrightarrow>
   (\<forall>l\<in>set (map snd ns). lib_relevant l) \<Longrightarrow>
   \<exists>ps. lib_pairs F (map snd ns) = Some ps \<and> cells' = fold (\<lambda>(c, a). dset c a) ps cells"
proof (induction F "map snd ns" arbitrary: ns cells rule: lib_pairs.induct)
  case (1 F)
  then show ?case by auto
next
  case (2 F c)
  then obtain i where "ns = [(i, c)]" by (auto simp: map_eq_Cons_conv)
  with 2 show ?case
    by (auto simp: lib_line_def lib_relevant_def area_not_cell split: if_splits)
next
  case (3 F c a ls)
  then obtain i j ms where ns: "ns = (i, c) # (j, a) # ms" and ms: "ls = map snd ms"
    by (auto simp: map_eq_Cons_conv)
  from 3(3,4) obtain x where x: "starts_with ''  cell ('' c" "starts_with area_prefix a" "area_of_line F a = Some x"
    "res_fold (lib_line F path) (dset (cell_of_line c) x cells, None) ms = Inr (cells', cell)"
    by (auto simp: ns lib_line_def lib_relevant_def res_bind_eq_Inr area_not_cell Let_def
        split: if_splits option.splits)
  from 3(1) [OF _ ms x(4)] x 3(4) ns show ?case by (auto simp: ms)
qed

lemma library_weights:
  assumes "read_lib F fs path ref_cell = Inr w"
  shows "\<exists>text ps r. fs path = Some text \<and> lib_pairs F (filter lib_relevant (keep_lines text)) = Some ps \<and>
    dget (rev ps) ref_cell = Some r \<and> \<not> fl_is_zero F r \<and>
    (\<forall>c. dget w c = map_option (\<lambda>a. fl_div F a r) (dget (rev ps) c))"
proof -
  from assms obtain src cells cell r where r: "fs path = Some src"
    "res_fold (lib_line F path) ([], None) (enumerate 0 (keep_lines src)) = Inr (cells, cell)"
    "dget cells ref_cell = Some r" "\<not> fl_is_zero F r" "w = map (\<lambda>(c, a). (c, fl_div F a r)) cells"
    by (auto simp: read_lib_def read_text_def res_bind_eq_Inr split: option.splits if_splits)
  from lib_fold_relevant [OF r(2)] obtain ns where ns: "map snd ns = filter lib_relevant (keep_lines src)"
    "res_fold (lib_line F path) ([], None) ns = Inr (cells, cell)" by blast
  have "\<forall>l\<in>set (map snd ns). lib_relevant l" by (simp add: ns(1))
  from lib_fold_pairs [OF ns(2) this] obtain ps where ps: "lib_pairs F (map snd ns) = Some ps"
    "cells = fold (\<lambda>(c, a). dset c a) ps []" by blast
  have "dget cells c = dget (rev ps) c" for c
    using dget_dmerge [of "[]" ps c] by (simp add: ps(2) dmerge_def split: option.splits)
  moreover have "dget w c = map_option (\<lambda>a. fl_div F a r) (dget cells c)" for c
    by (simp add: r(5) map_of_map)
  ultimately show ?thesis using r ps(1) ns(1) by auto
qed

end
