(* ===== verification/Spec2Isabelle.thy ===== *)
theory Spec2Isabelle
  imports Conductor_Sched Conductor_Main Locked_Metadata Run_Rtl Instr_Gen Compile_Test Check_Logs Report_Exact
    Tool_Requirements Gen_Testlist Build_Coverage Smt2_Manip Spec_Fixes Sv2v Syn_Flow
begin

text \<open>
  \<^bold>\<open>Verification of the Python tooling of Ibex.\<close>

  The repository holds the RISC-V core Ibex with the tools that configure, simulate, prove and
  synthesise it. The tools are Python scripts, and they decide whether a change of the core is
  accepted: they say which tests ran, which passed, and which properties are proved. This
  development models them below \<open>src/baseline_ibex\<close>, script by script, and proves what they promise.

  \<^bold>\<open>The parts and how they interact.\<close>

  \<^item> \<^emph>\<open>Configurations.\<close> \<open>util/ibex_config.py\<close> (\<open>Ibex_Config\<close>) reads the parameters of a named
    configuration from YAML and prints them as options of a simulator or of fusesoc.
    \<open>dv/uvm/core_ibex/scripts/ibex_cmd.py\<close> (\<open>Ibex_Cmd\<close>) calls it for the flow, derives the ISA
    strings and filters the tests of a configuration.
  \<^item> \<^emph>\<open>The simulation flow\<close> in \<open>dv/uvm/core_ibex/scripts\<close>. \<open>metadata.py\<close> (\<open>Metadata\<close>, with
    \<open>setup_imports.py\<close>) turns \<open>KEY=VALUE\<close> arguments into the metadata of a regression, which the
    scripts share under a lock (\<open>Locked_Metadata\<close>, every access a step of its own), and one object
    per run (\<open>test_run_result.py\<close>, \<open>Test_Result\<close>), using the directed tests of
    \<open>directed_test_schema.py\<close> and \<open>test_entry.py\<close> (\<open>Test_Schema\<close>), which
    \<open>directed_tests/gen_testlist.py\<close> writes (\<open>Gen_Testlist\<close>). \<open>build_instr_gen.py\<close>,
    \<open>run_instr_gen.py\<close>, \<open>get_fcov.py\<close> (\<open>Instr_Gen\<close>), \<open>compile_test.py\<close> (\<open>Compile_Test\<close>),
    \<open>compile_tb.py\<close>, \<open>merge_cov.py\<close>, \<open>render_config_template.py\<close> (\<open>Build_Coverage\<close>) and
    \<open>run_rtl.py\<close> (\<open>Run_Rtl\<close>) build and run, with commands made from the templates of
    \<open>riscvdv_interface.py\<close> (\<open>Riscvdv_Interface\<close>) and the helpers of \<open>scripts_lib.py\<close>
    (\<open>Scripts_Lib\<close>). \<open>check_logs.py\<close> (\<open>Check_Logs\<close>) with
    \<open>riscv_dv_extension/ibex_log_to_trace_csv.py\<close> (\<open>Trace_Csv\<close>, and of the vendored \<open>lib.py\<close>
    and \<open>riscv_trace_csv.py\<close> the functions it calls) gives the verdict on a run;
    \<open>collect_results.py\<close> and \<open>report_lib\<close> (\<open>Report\<close>, \<open>Report_Exact\<close>) count and report.
  \<^item> \<^emph>\<open>The formal flow.\<close> \<open>dv/formal/conductor.py\<close> schedules model checkers:
    \<open>Conductor_Process\<close> (class \<open>Process\<close> and its future), \<open>Conductor_Sched\<close> (class
    \<open>ProcessRunner\<close>), \<open>Conductor_Strategy\<close> (\<open>race\<close>, exploring, building, storing and running
    strategies), \<open>Conductor_Split\<close> (the tree of property names) and \<open>Conductor_Main\<close> (the modes).
    \<open>dv/formal/smt2manip.py\<close> (\<open>Smt2_Manip\<close>) selects the properties of a step,
    \<open>dv/formal/spec/fix_bugs.py\<close> (\<open>Spec_Fixes\<close>) edits the specification and
    \<open>util/sv2v_in_place.py\<close> (\<open>Sv2v\<close>) the design.
  \<^item> \<^emph>\<open>Around them.\<close> \<open>util/check_tool_requirements.py\<close> with \<open>tool_requirements.py\<close>
    (\<open>Tool_Requirements\<close>) compares versions of tools; \<open>syn/python\<close> (\<open>Syn_Flow\<close>) rewrites the
    reports of synthesis.

  \<^bold>\<open>How the model corresponds to the code.\<close> A function, method or script is a definition with its
  name (a script's main function is named after the script), a class is a record, an enumeration a
  datatype. An exception is the left side of a sum with an error type per component, so that every
  raise, also an unintended one such as a \<open>TypeError\<close>, is a value of the model. The prelude theories
  hold what the scripts share: \<open>Py_Base\<close> (exceptions as sums, dictionaries as association lists in
  insertion order), \<open>Py_Str\<close> (the operations of \<open>str\<close> and \<open>int\<close>), \<open>Py_Val\<close> (the values of a YAML
  document), \<open>Py_Path\<close> (\<open>pathlib\<close>) and \<open>Shlex\<close> (the lexer of \<open>shlex\<close>). Interfaces are locales, each
  interpreted on the definitions of the code: dictionaries (\<open>py_dict\<close>), quoting (in \<open>Shlex\<close>), the
  processes a runner manages (\<open>managed\<close>), the order of versions (\<open>version_order\<close>) and others.

  What lies outside the scripts is an argument of the definitions: processes and what they print,
  files, environment variables, \<open>Path.resolve\<close>, regular expressions given on the command line, the
  coercions of pydantic, floating point (records \<open>floats\<close> and \<open>flow_floats\<close>, so that what is proved
  holds for any arithmetic; only the memory and the times of \<open>conductor.py\<close> are exact rationals,
  so that its bounds on memory hold up to the rounding of its sums), the order in which a set is walked. Hypotheses about them are premises
  of the theorems and hold in the witness that follows.

  \<^bold>\<open>What the theorems show.\<close>

  \<^item> Across the flow, below: a regression that exits with 0 has simulated every run to the end
    without a timeout, with a log that says PASSED, never FAILED, and shows no error before.
  \<^item> Scheduling: reachable states of the runner are safe, refine an abstract queue with preemption,
    respect the bounds on processes and memory, and drain. However the scripts that share the
    metadata are interleaved, no update is lost.
  \<^item> Proving: built strategies account for every property and are sound, what \<open>--hard\<close> finds and
    what the check for completeness accepts is given exactly, names are grouped by their prefixes
    at every depth, witness files are those of the counterexamples, and the modes in which results
    are ignored are named.
  \<^item> Configurations, arguments, names and commands: which inputs are accepted, and that what one
    script writes the next one, or a shell, or a reader of the test list, reads back; which tests
    the filter by configuration returns, and when that is what it documents.
  \<^item> Logs, traces and reports: the verdict on every log, branch offsets modulo \<open>2 ^ 32\<close>, counts and
    exit codes.
  \<^item> Editing scripts: \<open>smt2manip\<close> keeps, assumes and drops the right properties, \<open>sv2v_in_place\<close> changes all files or
    none, translated timing reports say what they should.

  Several theorems state what the code does where it is not what it means to do (for example
  \<open>explore_without_hard_fails\<close>, \<open>prove_by_step_blind\<close>, \<open>restart_forgets_cancel\<close>,
  \<open>translating_twice_fails\<close>, \<open>filter_exact_iff\<close>); they are kept as descriptions of the code.

  \<^bold>\<open>Loops and fuel.\<close> The loops of the runner and the recursions on strings have measures. The loop of
  bounded model checking runs for ever in the code; \<open>bmc_mode\<close> takes the number of rounds as an
  argument and its theorem holds for every number. The event loop is the relation \<open>event\<close>;
  \<open>runner_drains\<close> gives a number of polls that is enough.

  \<^bold>\<open>Not modelled.\<close> Log output and progress messages; the declarations of \<open>argparse\<close> (the parsed
  arguments are the inputs; only the command line of \<open>ibex_config.py\<close>, which another script writes,
  is parsed here); in \<open>conductor.py\<close>, errors of \<open>psutil\<close> and of decoding the outputs, the memory a
  process is expected to need where it does not decide what runs, and the failures that a branch
  reports before it loses a race; scripts that are killed while they write; the writers of XML, JSON, HTML and pickles (what they are given is
  modelled); \<open>doc/conf.py\<close>, the settings of a documentation generator; the order in which concurrent
  branches of an exploration fail; vendored Python apart from the functions named above; the
  hardware itself, and the makefiles except for the chain of stages below.
\<close>

subsection \<open>A test run through its scripts\<close>

text \<open>
  The stages of one run, as the makefiles of the flow chain the scripts: each script works on the
  object that the one before it exported, and a script that exits with another code than 0 ends the
  run there. A script that raises leaves no result here.
\<close>

definition gen_stage ::
    "gen_env \<Rightarrow> regression_metadata \<Rightarrow> test_run_result \<Rightarrow> unit + test_run_result \<times> int" where
  "gen_stage g md trr =
     (if testtype trr = Some RISCVDV
      then res_bind (res_err (\<lambda>_. ()) (run_instr_gen g md trr)) (\<lambda>(c, r).
             Inr (case r of None \<Rightarrow> trr | Some (t, files) \<Rightarrow> t, c))
      else Inr (trr, 0))"

definition test_flow ::
    "gen_env \<Rightarrow> compile_env \<Rightarrow> os_env \<Rightarrow> log_files \<Rightarrow> regression_metadata \<Rightarrow> test_run_result \<Rightarrow>
     unit + test_run_result" where
  "test_flow g ce host fs md trr =
     res_bind (gen_stage g md trr) (\<lambda>(t1, c1).
       if c1 \<noteq> 0 then Inr t1
       else res_bind (res_err (\<lambda>_. ()) (compile_test ce md t1)) (\<lambda>(t2, c2).
         if c2 \<noteq> 0 then Inr t2
         else res_bind (res_err (\<lambda>_. ()) (run_rtl host md t2)) (\<lambda>t3.
           res_err (\<lambda>_. ()) (compare_test_run fs t3))))"

lemma gen_stage_frame:
  "gen_stage g md trr = Inr (t, c) \<Longrightarrow>
     passed t = passed trr \<and> failure_mode t = failure_mode trr \<and> testname t = testname trr"
  by (auto simp: gen_stage_def elim!: res_bindE split: if_splits option.splits dest!: run_instr_gen_frame)

lemma make_trr_unmarked: "make_trr directed md c testseed = Inr t \<Longrightarrow> passed t = None \<and> failure_mode t = None"
  by (auto simp: make_trr_def base_trr_def empty_trr_def Let_def elim!: res_bindE
      split: prod.splits test_type.splits option.splits)

text \<open>A run that starts without a mark and comes out as passed went through all stages.\<close>

lemma flow_passed:
  assumes "test_flow g ce host fs md trr = Inr t" "passed t = Some True" "passed trr = None"
  shows "(\<exists>cs. rtl_cmds t = Some cs \<and> (\<forall>c\<in>set cs. os_run host c \<noteq> TimesOut)) \<and> testname t = testname trr \<and>
    (\<exists>log lines ext mode. rtl_log t = Some log \<and> lf_log fs log = Inr lines \<and>
       check_ibex_uvm_log lines = Inr (True, ext, mode))"
proof -
  from assms(1) obtain t1 c1 where s1: "gen_stage g md trr = Inr (t1, c1)"
    and r1: "(if c1 \<noteq> 0 then Inr t1
       else res_bind (res_err (\<lambda>_. ()) (compile_test ce md t1)) (\<lambda>(t2, c2).
         if c2 \<noteq> 0 then Inr t2
         else res_bind (res_err (\<lambda>_. ()) (run_rtl host md t2)) (\<lambda>t3. res_err (\<lambda>_. ()) (compare_test_run fs t3)))) = Inr t"
    unfolding test_flow_def by (elim res_bindE) auto
  from gen_stage_frame [OF s1] assms(3) have p1: "passed t1 = None" "testname t1 = testname trr" by simp_all
  with r1 assms(2) have "c1 = 0" by (auto split: if_splits)
  with r1 obtain t2 c2 where s2: "compile_test ce md t1 = Inr (t2, c2)"
    and r2: "(if c2 \<noteq> 0 then Inr t2 else res_bind (res_err (\<lambda>_. ()) (run_rtl host md t2))
      (\<lambda>t3. res_err (\<lambda>_. ()) (compare_test_run fs t3))) = Inr t"
    by (auto elim!: res_bindE)
  from compile_test_outcome [OF s2] p1 have p2: "passed t2 = None" "testname t2 = testname trr" by simp_all
  with r2 assms(2) have "c2 = 0" by (auto split: if_splits)
  with r2 obtain t3 where s3: "run_rtl host md t2 = Inr t3" and s4: "compare_test_run fs t3 = Inr t"
    by (auto elim!: res_bindE)
  from run_rtl_outcome [OF s3] p2 obtain cs where p3: "passed t3 = None" "rtl_cmds t3 = Some cs"
    "failure_mode t3 = (if \<exists>c\<in>set cs. os_run host c = TimesOut then Some TIMEOUT else failure_mode t2)" by auto
  from compare_unmarked [OF s4 assms(2) p3(1)] p3(2,3) show ?thesis
    using p2 s3 by (auto simp: run_rtl_def dest!: rtl_prepare_keeps elim!: res_bindE split: if_splits)
qed

subsection \<open>A regression that succeeds\<close>

text \<open>C1: What an exit code of 0 of a regression means. Let every object that collecting the results
  reads be what the stages made of a run created from the metadata, whatever the tools did in each
  of them. If collecting ends with 0, then there was at least one run, and for every one of them the
  UVM log says PASSED, never FAILED, and shows no error before its result, and no command of the
  simulation timed out.\<close>

theorem regression_zero_exit_sound:
  assumes "collect_results F read open_text has_svg md = Inr (files, 0)"
    and "\<And>f. f \<in> set (tests_pickle_files md) \<Longrightarrow> \<exists>c s t0 t. make_trr directed md c s = Inr t0 \<and>
      test_flow (g f) (ce f) (host f) (fs f) md t0 = Inr t \<and> read f = PickleRun t"
  shows "tests_pickle_files md \<noteq> [] \<and>
    (\<forall>f\<in>set (tests_pickle_files md). \<exists>t log lines cs. read f = PickleRun t \<and>
       rtl_log t = Some log \<and> lf_log (fs f) log = Inr lines \<and>
       (\<exists>l\<in>set lines. is_passed_line l) \<and> \<not> (\<exists>l\<in>set lines. is_failed_line l) \<and>
       \<not> (\<exists>i<length lines. is_error_line (lines ! i) \<and> (\<forall>j<i. \<not> is_result_line (lines ! j))) \<and>
       rtl_cmds t = Some cs \<and> (\<forall>c\<in>set cs. os_run (host f) c \<noteq> TimesOut))"
  using assms(1)
proof (rule collect_ends)
  fix runs
  assume runs: "map read (tests_pickle_files md) = map PickleRun runs" "tests_pickle_files md \<noteq> []"
    "0 = (if \<forall>t\<in>set runs. run_passed t then 0 else 1 :: int)"
  have "\<exists>t log lines cs. read f = PickleRun t \<and> rtl_log t = Some log \<and> lf_log (fs f) log = Inr lines \<and>
       (\<exists>l\<in>set lines. is_passed_line l) \<and> \<not> (\<exists>l\<in>set lines. is_failed_line l) \<and>
       \<not> (\<exists>i<length lines. is_error_line (lines ! i) \<and> (\<forall>j<i. \<not> is_result_line (lines ! j))) \<and>
       rtl_cmds t = Some cs \<and> (\<forall>c\<in>set cs. os_run (host f) c \<noteq> TimesOut)"
    if f: "f \<in> set (tests_pickle_files md)" for f
  proof -
    from assms(2) [OF f] obtain c s t0 t where t: "make_trr directed md c s = Inr t0"
      "test_flow (g f) (ce f) (host f) (fs f) md t0 = Inr t" "read f = PickleRun t" by blast
    have "read f \<in> set (map PickleRun runs)" using f runs(1) by (metis image_eqI list.set_map)
    with runs(3) t(3) have "passed t = Some True" by (auto simp: run_passed_def split: if_splits)
    from flow_passed [OF t(2) this conjunct1 [OF make_trr_unmarked [OF t(1)]]] obtain cs log lines ext mode where
      r: "rtl_cmds t = Some cs" "\<forall>c\<in>set cs. os_run (host f) c \<noteq> TimesOut"
      "rtl_log t = Some log" "lf_log (fs f) log = Inr lines" "check_ibex_uvm_log lines = Inr (True, ext, mode)"
      by blast
    from r(5) have "(\<exists>l\<in>set lines. is_passed_line l) \<and> \<not> (\<exists>l\<in>set lines. is_failed_line l) \<and>
       \<not> (\<exists>i<length lines. is_error_line (lines ! i) \<and> (\<forall>j<i. \<not> is_result_line (lines ! j)))"
      unfolding check_log_cases no_counted_errors [symmetric] by (auto split: if_splits)
    with r t(3) show ?thesis by blast
  qed
  with runs(2) show ?thesis by blast
qed

subsection \<open>A regression of one directed test\<close>

text \<open>A host on which every command succeeds, and the logs it leaves.\<close>

definition flow_data :: "(string, yval) dict" where
  "flow_data = [(''test'', YStr ''add''), (''gcc_opts'', YStr ''-O''), (''test_srcs'', YStr ''add.S''), (''rtl_test'', YStr ''base'')]"

definition flow_host :: os_env where
  "flow_host =
     \<lparr>os_yaml = \<lambda>_. YamlDoc (YList [YDict [(''tool'', YStr ''vcs''), (''sim'', YDict [(''cmd'', YList [YStr ''simv''])])]]),
      os_environ = [(''RISCV_TOOLCHAIN'', ''/r''), (''RISCV_GCC'', ''gcc''), (''RISCV_OBJCOPY'', ''objcopy'')],
      os_resolve = \<lambda>p. p, os_config_cmd = \<lambda>_. (0, []), os_run = \<lambda>_. Exits 0\<rparr>"

definition flow_logs :: log_files where
  "flow_logs = \<lparr>lf_log = (\<lambda>p. if path_name p = ''trace_core_00000000.log'' then Inr [''1 5 80 1 nop x'']
       else Inr [''RISC-V UVM TEST PASSED'']), lf_csv = (\<lambda>_. None)\<rparr>"

definition flow_gen :: gen_env where
  "flow_gen = \<lparr>ge_os = flow_host, ge_load = \<lambda>_. OpenFails, ge_cwd = [], ge_tmp = [], ge_listing = [], ge_scratch = \<lambda>_. []\<rparr>"

definition flow_compile :: compile_env where
  "flow_compile = \<lparr>ce_os = flow_host, ce_tmp = Path True [''tmp''], ce_listing = []\<rparr>"

definition flow_md :: regression_metadata where
  "flow_md = (sample_md ''add'')\<lparr>tests_pickle_files := [Path True [''m'']], simulator := ''vcs''\<rparr>"

definition flow_start :: "md_error + test_run_result" where
  "flow_start = make_trr (\<lambda>_. Inr [flow_data]) flow_md ((''add'', 1, DIRECTED), []) 7"


definition flow_t0 :: test_run_result where
  "flow_t0 = (base_trr flow_md ''add'' 7 DIRECTED)\<lparr>directed_data := Some flow_data\<rparr>"

lemma flow_start: "flow_start = Inr flow_t0"
  by (simp add: flow_start_def make_trr_def flow_t0_def flow_data_def get_or_none_def Let_def)


lemma flow_paths:
  "dir_tests (dirs flow_md) = Path True [''out'', ''run'', ''tests'']" "tds_str ''add'' 7 = ''add.7''"
  "pdiv (Path True [''out'', ''run'', ''tests'']) ''add.7'' = Path True [''out'', ''run'', ''tests'', ''add.7'']"
  by code_simp+
lemma flow_objs:
  "path_str (pdiv (Path True [''out'', ''run'', ''tests'', ''add.7'']) ''test.o'') = ''/out/run/tests/add.7/test.o''"
  "path_str (pdiv (Path True [''out'', ''run'', ''tests'', ''add.7'']) ''test.bin'') = ''/out/run/tests/add.7/test.bin''"
  by code_simp+

lemma flow_words:
  "shlex_split ''gcc -O -INone -TNone -o /out/run/tests/add.7/test.o add.S'' =
     Inr [''gcc'', ''-O'', ''-INone'', ''-TNone'', ''-o'', ''/out/run/tests/add.7/test.o'', ''add.S'']"
  "shlex_split ''objcopy -O binary /out/run/tests/add.7/test.o /out/run/tests/add.7/test.bin'' =
     Inr [''objcopy'', ''-O'', ''binary'', ''/out/run/tests/add.7/test.o'', ''/out/run/tests/add.7/test.bin'']"
  by code_simp+

lemma flow_cmds:
  "directed_gcc_cmd ''gcc'' flow_data (Path True [''out'', ''run'', ''tests'', ''add.7'', ''test.o'']) =
     Inr ''gcc -O -INone -TNone -o /out/run/tests/add.7/test.o add.S''"
  "py_join '' '' [''objcopy'', ''-O binary '' @ ''/out/run/tests/add.7/test.o'', ''/out/run/tests/add.7/test.bin''] =
     ''objcopy -O binary /out/run/tests/add.7/test.o /out/run/tests/add.7/test.bin''"
  "pdiv (Path True [''out'', ''run'', ''tests'', ''add.7'']) ''test.o'' = Path True [''out'', ''run'', ''tests'', ''add.7'', ''test.o'']"
  "pdiv (Path True [''out'', ''run'', ''tests'', ''add.7'']) ''test.bin'' = Path True [''out'', ''run'', ''tests'', ''add.7'', ''test.bin'']"
  "path_str (Path True [''out'', ''run'', ''tests'', ''add.7'', ''test.o'']) = ''/out/run/tests/add.7/test.o''"
  "path_str (Path True [''out'', ''run'', ''tests'', ''add.7'', ''test.bin'']) = ''/out/run/tests/add.7/test.bin''"
  by code_simp+

lemma flow_t0_fields:
  "testtype flow_t0 = Some DIRECTED" "directed_data flow_t0 = Some flow_data"
  "dir_test flow_t0 = Some (Path True [''out'', ''run'', ''tests'', ''add.7''])"
  "trr_pickle_file flow_t0 \<noteq> None" "trr_yaml_file flow_t0 \<noteq> None" "testname flow_t0 = Some ''add''"
  "trr_seed flow_t0 = Some 7"
  by (simp_all add: flow_t0_def base_trr_def empty_trr_def Let_def flow_paths)

lemma flow_compiled:
  "\<exists>a l cs. compile_test flow_compile flow_md flow_t0 = Inr (flow_t0\<lparr>assembly := a,
      objectfile := Some (Path True [''out'', ''run'', ''tests'', ''add.7'', ''test.o'']),
      binary := Some (Path True [''out'', ''run'', ''tests'', ''add.7'', ''test.bin'']),
      compile_asm_log := Some l, compile_asm_cmds := Some cs\<rparr>, 0)"
proof -
  have env: "dget (os_environ (ce_os flow_compile)) ''RISCV_TOOLCHAIN'' = Some ''/r''"
    "dget (os_environ (ce_os flow_compile)) ''RISCV_GCC'' = Some ''gcc''"
    "dget (os_environ (ce_os flow_compile)) ''RISCV_OBJCOPY'' = Some ''objcopy''"
    by (simp_all add: flow_compile_def flow_host_def)
  have "run_in_order (ce_os flow_compile) cs = 0" for cs
    by (induction cs) (simp_all add: flow_compile_def flow_host_def exit_code_def)
  then show ?thesis
    by (auto simp: compile_test_def flow_t0_fields get_directed_compile_cmds_def env c_field_def Let_def flow_cmds flow_words
      compile_run_def format_to_cmd_def opt_arg_def format_to_str_def simp del: py_join.simps append.simps)
qed

lemma flow_tool:
  "get_tool_cmds (os_environ flow_host) (os_yaml flow_host) y ''vcs'' ''sim'' enables
     (rtl_subst host md trr name rt bin dir opts) = Inr [[''simv'']]"
proof -
  have "shlex_split ''simv'' = Inr [''simv'']" by code_simp
  moreover have "subst_dict ''simv'' d = ''simv''" for d
    unfolding subst_dict_def by (induction d) (auto simp: subst_opt_def parameter_format_def Let_def)
  ultimately show ?thesis
  by (simp add: get_tool_cmds_def flow_host_def get_yaml_for_simulator_def read_yaml_def cmd_templates_def
      tool_cmd_def cmd_opts_dict_def env_var_names_def subst_env_vars_def)
qed

lemma flow_simulated:
  assumes "testtype t = Some DIRECTED" "directed_data t = Some flow_data" "failure_mode t = None"
    "dir_test t = Some (Path True [''out'', ''run'', ''tests'', ''add.7''])" "binary t = Some b"
    "trr_pickle_file t \<noteq> None" "trr_yaml_file t \<noteq> None" "testname t = Some ''add''"
  shows "\<exists>rt ts so. run_rtl flow_host flow_md t = Inr (t\<lparr>rtl_test := Some rt, trr_timeout_s := Some ts, ddm_sim_opts := Some so,
      rtl_trace := Some (Path True [''out'', ''run'', ''tests'', ''add.7'', ''trace_core_00000000.log'']),
      iss_cosim_trace := Some (Path True [''out'', ''run'', ''tests'', ''add.7'', ''spike_cosim_trace_core_00000000.log'']),
      rtl_cmds := Some [[''simv'']], rtl_stdout := Some (Path True [''out'', ''run'', ''tests'', ''add.7'', ''rtl_sim_stdstreams.log'']),
      rtl_log := Some (Path True [''out'', ''run'', ''tests'', ''add.7'', ''rtl_sim_stdstreams.log''])\<rparr>)"
proof -
  have "get_sim_opts (os_config_cmd flow_host) p n ''vcs'' = Inr []" for p n
    by (simp add: get_sim_opts_def get_x_opts_def x_opts_type_def SIM_CFGS_def flow_host_def run_ibex_config_def Let_def
       strip_p_def lstrip_p_def rstrip_p_def)
  moreover have "times_out (os_run flow_host) v l cs = False" for v l cs
    by (simp add: times_out_iff flow_host_def)
  moreover have "simulator flow_md = ''vcs''" "iss flow_md = ''spike''"
    by (simp_all add: flow_md_def sample_md_def Let_def)
  moreover have "path_of_str ''trace_core_00000000.log'' = Path False [''trace_core_00000000.log'']"
    "path_of_str ''spike_cosim_trace_core_00000000.log'' = Path False [''spike_cosim_trace_core_00000000.log'']"
    "path_of_str ''rtl_sim_stdstreams.log'' = Path False [''rtl_sim_stdstreams.log'']"
    by code_simp+
  ultimately show ?thesis using assms
    by (auto simp: run_rtl_def rtl_prepare_def test_options_def field_def opt_rtl_test_def flow_data_def
       opt_timeout_def opt_sim_opts_def flow_tool pdiv_def pjoin_def simp del: times_out.simps)
qed

lemma flow_checked:
  assumes "failure_mode t = None" "dir_test t = Some d" "rtl_trace t = Some tr" "path_name tr = ''trace_core_00000000.log''"
    "rtl_log t = Some lg" "path_name lg \<noteq> ''trace_core_00000000.log''"
  shows "compare_test_run flow_logs t = Inr (t\<lparr>passed := Some True\<rparr>)"
proof -
  have "case process_ibex_sim_log (Some [''1 5 80 1 nop x'']) True of Inl e \<Rightarrow> False | Inr _ \<Rightarrow> True"
    by code_simp
  then obtain csv where "process_ibex_sim_log (Some [''1 5 80 1 nop x'']) True = Inr csv"
    by (auto split: sum.splits)
  moreover have "check_ibex_uvm_log [''RISC-V UVM TEST PASSED''] = Inr (True, [], NONE)" by code_simp
  ultimately show ?thesis using assms
    by (simp add: compare_test_run_def flow_logs_def trace_outcome_def)
qed

lemma flow_done:
  "\<exists>t. test_flow flow_gen flow_compile flow_host flow_logs flow_md flow_t0 = Inr t \<and>
     run_passed t \<and> testname t = Some ''add'' \<and> trr_seed t = Some 7 \<and>
     dir_test t = Some (Path True [''out'', ''run'', ''tests'', ''add.7'']) \<and>
     binary t = Some (Path True [''out'', ''run'', ''tests'', ''add.7'', ''test.bin'']) \<and>
     rtl_log t = Some (Path True [''out'', ''run'', ''tests'', ''add.7'', ''rtl_sim_stdstreams.log'']) \<and>
     rtl_trace t = Some (Path True [''out'', ''run'', ''tests'', ''add.7'', ''trace_core_00000000.log'']) \<and>
     iss_cosim_trace t = Some (Path True [''out'', ''run'', ''tests'', ''add.7'', ''spike_cosim_trace_core_00000000.log''])"
proof -
  obtain a l cs where c: "compile_test flow_compile flow_md flow_t0 = Inr (flow_t0\<lparr>assembly := a,
      objectfile := Some (Path True [''out'', ''run'', ''tests'', ''add.7'', ''test.o'']),
      binary := Some (Path True [''out'', ''run'', ''tests'', ''add.7'', ''test.bin'']),
      compile_asm_log := Some l, compile_asm_cmds := Some cs\<rparr>, 0)" (is "_ = Inr (?t1, 0)")
    using flow_compiled by blast
  have "failure_mode flow_t0 = None" by (simp add: flow_t0_def base_trr_def empty_trr_def Let_def)
  then obtain rt ts so where r: "run_rtl flow_host flow_md ?t1 = Inr (?t1\<lparr>rtl_test := Some rt, trr_timeout_s := Some ts, ddm_sim_opts := Some so,
      rtl_trace := Some (Path True [''out'', ''run'', ''tests'', ''add.7'', ''trace_core_00000000.log'']),
      iss_cosim_trace := Some (Path True [''out'', ''run'', ''tests'', ''add.7'', ''spike_cosim_trace_core_00000000.log'']),
      rtl_cmds := Some [[''simv'']], rtl_stdout := Some (Path True [''out'', ''run'', ''tests'', ''add.7'', ''rtl_sim_stdstreams.log'']),
      rtl_log := Some (Path True [''out'', ''run'', ''tests'', ''add.7'', ''rtl_sim_stdstreams.log''])\<rparr>)" (is "_ = Inr ?t2")
    using flow_simulated [of ?t1] flow_t0_fields by auto
  have names: "path_name (Path True [''out'', ''run'', ''tests'', ''add.7'', ''trace_core_00000000.log'']) = ''trace_core_00000000.log''"
    "path_name (Path True [''out'', ''run'', ''tests'', ''add.7'', ''rtl_sim_stdstreams.log'']) = ''rtl_sim_stdstreams.log''"
    by code_simp+
  have "compare_test_run flow_logs ?t2 = Inr (?t2\<lparr>passed := Some True\<rparr>)"
    by (rule flow_checked, simp_all add: \<open>failure_mode flow_t0 = None\<close> flow_t0_fields) (simp_all add: names)
  with c r have "test_flow flow_gen flow_compile flow_host flow_logs flow_md flow_t0 = Inr (?t2\<lparr>passed := Some True\<rparr>)"
    by (simp add: test_flow_def gen_stage_def flow_t0_fields)
  then show ?thesis by (simp add: flow_t0_fields run_passed_def)
qed

theorem regression_zero_exit_sound_witness:
  "\<exists>t lg lines. test_flow flow_gen flow_compile flow_host flow_logs flow_md flow_t0 = Inr t \<and>
     rtl_log t = Some lg \<and> lf_log flow_logs lg = Inr lines \<and> (\<exists>l\<in>set lines. is_passed_line l)"
proof -
  from flow_done obtain t where t: "test_flow flow_gen flow_compile flow_host flow_logs flow_md flow_t0 = Inr t"
    "run_passed t" "testname t = Some ''add''" "trr_seed t = Some 7"
    "dir_test t = Some (Path True [''out'', ''run'', ''tests'', ''add.7''])"
     "binary t = Some (Path True [''out'', ''run'', ''tests'', ''add.7'', ''test.bin''])"
     "rtl_log t = Some (Path True [''out'', ''run'', ''tests'', ''add.7'', ''rtl_sim_stdstreams.log''])"
     "rtl_trace t = Some (Path True [''out'', ''run'', ''tests'', ''add.7'', ''trace_core_00000000.log''])"
     "iss_cosim_trace t = Some (Path True [''out'', ''run'', ''tests'', ''add.7'', ''spike_cosim_trace_core_00000000.log''])"
    by blast
  have md: "tests_pickle_files flow_md = [Path True [''m'']]" "simulator flow_md = ''vcs''"
    by (simp_all add: flow_md_def)
  have "\<exists>files. collect_results rat_floats (\<lambda>p. PickleRun t) (\<lambda>_. None) False flow_md = Inr (files, 0)"
    using t by (simp add: collect_results_def collect_step_def md
        junit_suites_def junit_run_def gen_test_run_result_text_def shown_paths_def shown_path_def Let_def
        is_relative_to_def
        output_results_text_def gen_summary_line_def details_def create_test_summary_dict_def count_run_def
        html_context_def create_dvsim_report_dict_def dvsim_test_def)
  then obtain files where r: "collect_results rat_floats (\<lambda>p. PickleRun t) (\<lambda>_. None) False flow_md = Inr (files, 0)" ..
  have "\<exists>c s t0 t'. make_trr (\<lambda>_. Inr [flow_data]) flow_md c s = Inr t0 \<and>
      test_flow flow_gen flow_compile flow_host flow_logs flow_md t0 = Inr t' \<and> PickleRun t = PickleRun t'"
    using t(1) flow_start unfolding flow_start_def by blast
  from regression_zero_exit_sound [OF r, of "\<lambda>_. Inr [flow_data]" "\<lambda>_. flow_gen" "\<lambda>_. flow_compile" "\<lambda>_. flow_host" "\<lambda>_. flow_logs", OF this]
  show ?thesis using t(1) by (auto simp: md)
qed

end
